(* ===== verification/Prelude.thy ===== *)
theory Prelude
  imports Main "HOL-Library.Word" "HOL-Library.Char_ord" "HOL-Library.List_Lexorder"
    "HOL-Library.Product_Lexorder"
begin

text \<open>
  Shared material: the model's basic types (identifiers, instants, durations), the
  development's collections of rewrite rules, generic lemmas on tables kept as lists of
  rows, and the interfaces used by several components: a codec (encode/decode with a
  round trip), a guarded store (a keyed store with a compare-and-set update), and a part
  that winds down.
\<close>

section \<open>Basic types\<close>

text \<open>
  A \<open>uuid.UUID\<close> is a 16-byte array, here one 128-bit word. Instants
  (\<open>time.Time\<close>) and durations (\<open>time.Duration\<close>) are counted in nanoseconds.
\<close>

type_synonym uuid = "128 word"
type_synonym time = int
type_synonym duration = int

definition uuid_Nil :: uuid where
  "uuid_Nil = 0"

definition Second :: duration where
  "Second = 1000000000"

definition Minute :: duration where
  "Minute = 60 * Second"

text \<open>Go's \<open>int\<close> and \<open>time.Duration\<close> have 64 bits, SQL's INTEGER column type has 32.\<close>

definition fits_int64 :: "int \<Rightarrow> bool" where
  "fits_int64 n \<longleftrightarrow> - (2 ^ 63) \<le> n \<and> n < 2 ^ 63"

definition fits_int32 :: "int \<Rightarrow> bool" where
  "fits_int32 n \<longleftrightarrow> - (2 ^ 31) \<le> n \<and> n < 2 ^ 31"

section \<open>Collections\<close>

named_theorems neutral_intros \<open>rules that show a program leaves every job alone\<close>
named_theorems safe_intros \<open>rules that show a program keeps to the lifecycle protocol\<close>

section \<open>Tables as lists of rows\<close>

text \<open>
  \<open>row_of key k rows\<close> is the first row whose key column equals \<open>k\<close>;
  \<open>map_row key k f rows\<close> rewrites the rows with that key.
\<close>

definition row_of :: "('r \<Rightarrow> 'k) \<Rightarrow> 'k \<Rightarrow> 'r list \<Rightarrow> 'r option" where
  "row_of key k rows = find (\<lambda>r. key r = k) rows"

definition map_row :: "('r \<Rightarrow> 'k) \<Rightarrow> 'k \<Rightarrow> ('r \<Rightarrow> 'r) \<Rightarrow> 'r list \<Rightarrow> 'r list" where
  "map_row key k f rows = map (\<lambda>r. if key r = k then f r else r) rows"

lemma row_of_Nil [simp]: "row_of key k [] = None"
  by (simp add: row_of_def)

lemma row_of_Cons [simp]:
  "row_of key k (r # rows) = (if key r = k then Some r else row_of key k rows)"
  by (simp add: row_of_def)

lemma map_row_Nil [simp]: "map_row key k f [] = []"
  by (simp add: map_row_def)

lemma map_row_Cons [simp]:
  "map_row key k f (r # rows) = (if key r = k then f r else r) # map_row key k f rows"
  by (simp add: map_row_def)

lemma row_of_append:
  "row_of key k (xs @ ys) = (case row_of key k xs of Some r \<Rightarrow> Some r | None \<Rightarrow> row_of key k ys)"
  by (induction xs) auto

lemma row_of_SomeD: "row_of key k rows = Some r \<Longrightarrow> r \<in> set rows \<and> key r = k"
  by (induction rows) (auto split: if_splits)

lemma row_of_key: "row_of key k rows = Some r \<Longrightarrow> key r = k"
  by (drule row_of_SomeD) (rule conjunct2)

lemma row_of_None_iff: "row_of key k rows = None \<longleftrightarrow> k \<notin> key ` set rows"
  by (induction rows) auto

lemma row_of_Some_if_distinct:
  "distinct (map key rows) \<Longrightarrow> r \<in> set rows \<Longrightarrow> row_of key (key r) rows = Some r"
  by (induction rows) auto

lemma length_map_row [simp]: "length (map_row key k f rows) = length rows"
  by (simp add: map_row_def)

lemma map_map_row: "(\<And>r. g (f r) = g r) \<Longrightarrow> map g (map_row key k f rows) = map g rows"
  by (simp add: map_row_def)

lemma row_of_map_row:
  assumes "\<And>r. key (f r) = key r"
  shows "row_of key i (map_row key k f rows) =
    (if i = k then map_option f (row_of key i rows) else row_of key i rows)"
  using assms by (induction rows) auto

lemma set_map_rowD: "r \<in> set (map_row key k f rows) \<Longrightarrow>
    \<exists>q \<in> set rows. r = q \<and> key q \<noteq> k \<or> r = f q \<and> key q = k"
  by (induction rows) (auto split: if_splits)

section \<open>Interfaces\<close>

text \<open>
  A codec turns values into their transport form and back. \<open>ok\<close> says which values the
  decoder accepts (the validation a decoder performs on what it has read).
\<close>

locale codec =
  fixes enc :: "'a \<Rightarrow> 'b"
    and dec :: "'b \<Rightarrow> 'a option"
    and ok :: "'a \<Rightarrow> bool"
  assumes dec_enc: "ok x \<Longrightarrow> dec (enc x) = Some x"
    and dec_ok: "dec y = Some x \<Longrightarrow> ok x"
begin

lemma enc_inj: "ok x \<Longrightarrow> ok y \<Longrightarrow> enc x = enc y \<Longrightarrow> x = y"
  by (metis dec_enc option.inject)

lemma enc_inj_on: "inj_on enc {x. ok x}"
  by (auto intro!: inj_onI dest: enc_inj)

lemma dec_accepts_iff: "(\<exists>y. dec y = Some x) \<longleftrightarrow> ok x"
  using dec_enc dec_ok by blast

lemma dec_canonical: "dec y = Some x \<Longrightarrow> dec (enc x) = dec y"
  by (simp add: dec_enc dec_ok)

end

text \<open>
  A guarded store: keyed records with a control state, changed only by an update that
  names the state it expects. A hit applies the update and returns the new record; a miss
  changes nothing and returns nothing.
\<close>

locale guarded_store =
  fixes lookup :: "'s \<Rightarrow> 'k \<Rightarrow> 'v option"
    and state_of :: "'v \<Rightarrow> 'q"
    and cas :: "'k \<Rightarrow> 'q \<Rightarrow> ('v \<Rightarrow> 'v) \<Rightarrow> 's \<Rightarrow> 'v option \<times> 's"
    and keeps_key :: "('v \<Rightarrow> 'v) \<Rightarrow> bool"
  assumes cas_hit: "keeps_key f \<Longrightarrow> lookup s k = Some v \<Longrightarrow> state_of v = q \<Longrightarrow>
      fst (cas k q f s) = Some (f v) \<and> lookup (snd (cas k q f s)) = (lookup s)(k \<mapsto> f v)"
    and cas_miss: "\<not> (\<exists>v. lookup s k = Some v \<and> state_of v = q) \<Longrightarrow> cas k q f s = (None, s)"
begin

lemma cas_Some_iff:
  assumes "keeps_key f"
  shows "fst (cas k q f s) = Some w \<longleftrightarrow> (\<exists>v. lookup s k = Some v \<and> state_of v = q \<and> w = f v)"
  using cas_hit [OF assms] cas_miss by (cases "\<exists>v. lookup s k = Some v \<and> state_of v = q") auto

lemma cas_frame:
  assumes "keeps_key f" and "i \<noteq> k"
  shows "lookup (snd (cas k q f s)) i = lookup s i"
  using cas_hit [OF assms(1)] cas_miss assms(2)
  by (cases "\<exists>v. lookup s k = Some v \<and> state_of v = q") auto

text \<open>
  Of two guarded updates with the same guard, the first of which leaves the guard's state,
  only one can hit: the rule behind every race in the program.
\<close>

lemma cas_single_winner:
  assumes "keeps_key f" and "\<And>v. state_of v = q \<Longrightarrow> state_of (f v) \<noteq> q"
    and "fst (cas k q f s) = Some v"
  shows "cas k q g (snd (cas k q f s)) = (None, snd (cas k q f s))"
proof -
  obtain u where u: "lookup s k = Some u" "state_of u = q"
    using assms(3) cas_Some_iff [OF assms(1)] by blast
  then have "lookup (snd (cas k q f s)) k = Some (f u)"
    using cas_hit [OF assms(1)] by simp
  then show ?thesis
    using assms(2) u(2) by (intro cas_miss) auto
qed

end

text \<open>
  A part that winds down: while \<open>ok\<close> holds its steps use up a rank, and until it has ended
  one of them is possible. Then it always ends, after boundedly many steps.
\<close>

locale draining =
  fixes step :: "'s \<Rightarrow> 's \<Rightarrow> bool"
    and rank :: "'s \<Rightarrow> nat"
    and ok :: "'s \<Rightarrow> bool"
    and ended :: "'s \<Rightarrow> bool"
  assumes rank_decreases: "ok s \<Longrightarrow> step s s' \<Longrightarrow> rank s' < rank s"
    and ok_kept: "ok s \<Longrightarrow> step s s' \<Longrightarrow> ok s'"
    and progress: "ok s \<Longrightarrow> \<not> ended s \<Longrightarrow> \<exists>s'. step s s'"
begin

lemma steps_bounded: "(step ^^ n) s s' \<Longrightarrow> ok s \<Longrightarrow> n + rank s' \<le> rank s \<and> ok s'"
proof (induction n arbitrary: s')
  case (Suc n)
  then obtain s1 where "(step ^^ n) s s1" "step s1 s'" by auto
  then show ?case using Suc.IH [of s1] Suc.prems(2) rank_decreases [of s1 s'] ok_kept [of s1 s'] by simp
qed simp

lemma steps_ok: "step\<^sup>*\<^sup>* s s' \<Longrightarrow> ok s \<Longrightarrow> ok s'"
  by (induction rule: rtranclp_induct) (auto intro: ok_kept)

lemma stuck_ended: "step\<^sup>*\<^sup>* s s' \<Longrightarrow> ok s \<Longrightarrow> (\<nexists>s''. step s' s'') \<Longrightarrow> ended s'"
  using steps_ok progress by blast

lemma reaches_end: "ok s \<Longrightarrow> \<exists>s'. step\<^sup>*\<^sup>* s s' \<and> ended s'"
proof (induction "rank s" arbitrary: s rule: less_induct)
  case less
  show ?case
  proof (cases "ended s")
    case False
    then obtain s1 where s1: "step s s1" using progress less.prems by blast
    then obtain s' where "step\<^sup>*\<^sup>* s1 s'" "ended s'"
      using less.hyps [OF rank_decreases [OF less.prems s1]] ok_kept [OF less.prems s1] by blast
    then show ?thesis using s1 by (meson converse_rtranclp_into_rtranclp)
  qed blast
qed

end

end
