(* ===== verification/GoStrings.thy ===== *)
theory GoStrings
  imports Prelude
begin

text \<open>
  What the program uses of Go's string functions: a Go string is a list of bytes, here a
  list of characters. Package \<open>strings\<close>, ranging over runes (UTF-8 decoding), decimal
  formatting, \<open>path.Clean\<close> and \<open>base64.RawURLEncoding\<close>.
\<close>

section \<open>Package \<open>strings\<close>\<close>

definition HasPrefix :: "string \<Rightarrow> string \<Rightarrow> bool" where
  "HasPrefix s p \<longleftrightarrow> take (length p) s = p"

fun Contains :: "string \<Rightarrow> string \<Rightarrow> bool" where
  "Contains [] p \<longleftrightarrow> p = []"
| "Contains (c # s) p \<longleftrightarrow> HasPrefix (c # s) p \<or> Contains s p"

text \<open>
  \<open>strings.ToLower\<close>, used to compare with ASCII names only: besides the ASCII letters two
  runes have an ASCII lower case, U+0130 and U+212A, given here by their UTF-8 bytes.
\<close>

definition byte_lower :: "char \<Rightarrow> char" where
  "byte_lower c = (let n = (of_char c :: nat) in if 65 \<le> n \<and> n \<le> 90 then char_of (n + 32) else c)"

fun ToLower :: "string \<Rightarrow> string" where
  "ToLower [] = []"
| "ToLower (c # s) =
     (if HasPrefix (c # s) [char_of (196 :: nat), char_of (176 :: nat)] then CHR ''i'' # ToLower (drop 1 s)
      else if HasPrefix (c # s) [char_of (226 :: nat), char_of (132 :: nat), char_of (170 :: nat)]
      then CHR ''k'' # ToLower (drop 2 s)
      else byte_lower c # ToLower s)"

text \<open>
  \<open>strings.TrimSpace\<close>: the UTF-8 encodings of the runes with \<open>unicode.IsSpace\<close>.
\<close>

definition byte_string :: "nat list \<Rightarrow> string" where
  "byte_string = map char_of"

definition space_encodings :: "string list" where
  "space_encodings = map byte_string
     ([[9], [10], [11], [12], [13], [32], [194, 133], [194, 160], [225, 154, 128]]
      @ map (\<lambda>b. [226, 128, b]) [128, 129, 130, 131, 132, 133, 134, 135, 136, 137, 138, 168, 169, 175]
      @ [[226, 129, 159], [227, 128, 128]])"

definition leading_space :: "string list \<Rightarrow> string \<Rightarrow> nat" where
  "leading_space spaces s = (case find (HasPrefix s) spaces of None \<Rightarrow> 0 | Some p \<Rightarrow> length p)"

function trim_left :: "string list \<Rightarrow> string \<Rightarrow> string" where
  "trim_left spaces s =
     (let n = leading_space spaces s in if n = 0 \<or> s = [] then s else trim_left spaces (drop n s))"
  by pat_completeness auto
termination
  by (relation "measure (\<lambda>(spaces, s). length s)") auto

declare trim_left.simps [simp del]

definition TrimSpace :: "string \<Rightarrow> string" where
  "TrimSpace s =
     rev (trim_left (map rev space_encodings) (rev (trim_left space_encodings s)))"

text \<open>Text that starts and ends with a printing ASCII character is trimmed to itself.\<close>

definition printing :: "char \<Rightarrow> bool" where
  "printing c \<longleftrightarrow> (of_char c :: nat) \<in> {33..126}"

lemma space_encodings_edges:
  "p \<in> set space_encodings \<Longrightarrow> p \<noteq> [] \<and> \<not> printing (hd p) \<and> \<not> printing (last p)"
  by (auto simp: space_encodings_def byte_string_def printing_def)

lemma leading_space_printing:
  assumes "\<forall>p \<in> set spaces. p \<noteq> [] \<and> \<not> printing (hd p)" and "s \<noteq> []" and "printing (hd s)"
  shows "leading_space spaces s = 0"
proof -
  have "\<not> HasPrefix s p" if "p \<in> set spaces" for p
    using assms that by (cases p; cases s) (auto simp: HasPrefix_def)
  then have "find (HasPrefix s) spaces = None" by (auto simp: find_None_iff)
  then show ?thesis by (simp add: leading_space_def)
qed

lemma TrimSpace_printing:
  assumes "s \<noteq> []" and "printing (hd s)" and "printing (last s)"
  shows "TrimSpace s = s"
proof -
  have "trim_left space_encodings s = s"
    using assms leading_space_printing [of space_encodings s] space_encodings_edges
    by (subst trim_left.simps) auto
  moreover have "trim_left (map rev space_encodings) (rev s) = rev s"
    using assms leading_space_printing [of "map rev space_encodings" "rev s"] space_encodings_edges
    by (subst trim_left.simps) (auto simp: hd_rev)
  ultimately show ?thesis by (simp add: TrimSpace_def)
qed
section \<open>Runes\<close>

text \<open>
  \<open>for _, r := range s\<close> decodes UTF-8; a byte that starts no valid encoding gives U+FFFD
  and has width one. \<open>decode_rune\<close> returns the rune and the number of further bytes.
\<close>

definition RuneError :: nat where
  "RuneError = 65533"

definition in_range :: "nat \<Rightarrow> nat \<Rightarrow> nat \<Rightarrow> bool" where
  "in_range lo hi b \<longleftrightarrow> lo \<le> b \<and> b \<le> hi"

text \<open>The admissible second byte depends on the first.\<close>

definition second_ok :: "nat \<Rightarrow> nat \<Rightarrow> bool" where
  "second_ok b0 b1 =
     (if b0 = 224 then in_range 160 191 b1
      else if b0 = 237 then in_range 128 159 b1
      else if b0 = 240 then in_range 144 191 b1
      else if b0 = 244 then in_range 128 143 b1
      else in_range 128 191 b1)"

text \<open>Encodings of two, three and four bytes, after the first byte.\<close>

fun rune2 :: "nat \<Rightarrow> nat list \<Rightarrow> nat \<times> nat" where
  "rune2 b0 (b1 # bs) =
     (if second_ok b0 b1 then ((b0 - 192) * 64 + (b1 - 128), 1) else (RuneError, 0))"
| "rune2 b0 _ = (RuneError, 0)"

fun rune3 :: "nat \<Rightarrow> nat list \<Rightarrow> nat \<times> nat" where
  "rune3 b0 (b1 # b2 # bs) =
     (if second_ok b0 b1 \<and> in_range 128 191 b2
      then ((b0 - 224) * 4096 + (b1 - 128) * 64 + (b2 - 128), 2) else (RuneError, 0))"
| "rune3 b0 _ = (RuneError, 0)"

fun rune4 :: "nat \<Rightarrow> nat list \<Rightarrow> nat \<times> nat" where
  "rune4 b0 (b1 # b2 # b3 # bs) =
     (if second_ok b0 b1 \<and> in_range 128 191 b2 \<and> in_range 128 191 b3
      then ((b0 - 240) * 262144 + (b1 - 128) * 4096 + (b2 - 128) * 64 + (b3 - 128), 3)
      else (RuneError, 0))"
| "rune4 b0 _ = (RuneError, 0)"

definition decode_rune :: "nat \<Rightarrow> nat list \<Rightarrow> nat \<times> nat" where
  "decode_rune b0 bs =
     (if b0 < 128 then (b0, 0)
      else if in_range 194 223 b0 then rune2 b0 bs
      else if in_range 224 239 b0 then rune3 b0 bs
      else if in_range 240 244 b0 then rune4 b0 bs
      else (RuneError, 0))"

function runes :: "nat list \<Rightarrow> nat list" where
  "runes [] = []"
| "runes (b # bs) = fst (decode_rune b bs) # runes (drop (snd (decode_rune b bs)) bs)"
  by pat_completeness auto
termination
  by (relation "measure length") auto

definition runes_of :: "string \<Rightarrow> nat list" where
  "runes_of s = runes (map of_char s)"

lemma second_ok_bounds:
  "second_ok b0 b1 \<Longrightarrow> 128 \<le> b1"
  "second_ok 224 b1 \<Longrightarrow> 160 \<le> b1"
  "second_ok 240 b1 \<Longrightarrow> 144 \<le> b1"
  by (auto simp: second_ok_def in_range_def split: if_splits)

lemma rune_value_large:
  "in_range 194 223 b0 \<Longrightarrow> \<not> (b0 - 192) * 64 + x < (32::nat)"
  "in_range 224 239 b0 \<Longrightarrow> second_ok b0 b1 \<Longrightarrow> \<not> (b0 - 224) * 4096 + (b1 - 128) * 64 + y < (32::nat)"
  "in_range 240 244 b0 \<Longrightarrow> second_ok b0 b1 \<Longrightarrow>
     \<not> (b0 - 240) * 262144 + (b1 - 128) * 4096 + y + z < (32::nat)"
proof -
  assume "in_range 194 223 b0"
  then show "\<not> (b0 - 192) * 64 + x < (32::nat)"
    unfolding in_range_def by arith
next
  assume "in_range 224 239 b0" "second_ok b0 b1"
  then show "\<not> (b0 - 224) * 4096 + (b1 - 128) * 64 + y < (32::nat)"
    using second_ok_bounds(2) [of b1] unfolding in_range_def by (cases "b0 = 224") auto
next
  assume "in_range 240 244 b0" "second_ok b0 b1"
  then show "\<not> (b0 - 240) * 262144 + (b1 - 128) * 4096 + y + z < (32::nat)"
    using second_ok_bounds(3) [of b1] unfolding in_range_def by (cases "b0 = 240") auto
qed

lemma rune2_not_control: "in_range 194 223 b0 \<Longrightarrow> \<not> fst (rune2 b0 bs) < 32"
  by (induction b0 bs rule: rune2.induct) (simp_all add: RuneError_def rune_value_large)

lemma rune3_not_control: "in_range 224 239 b0 \<Longrightarrow> \<not> fst (rune3 b0 bs) < 32"
  by (induction b0 bs rule: rune3.induct) (simp_all add: RuneError_def rune_value_large)

lemma rune4_not_control: "in_range 240 244 b0 \<Longrightarrow> \<not> fst (rune4 b0 bs) < 32"
  by (induction b0 bs rule: rune4.induct) (simp_all add: RuneError_def rune_value_large)

lemma decode_rune_small: "fst (decode_rune b bs) < 32 \<longleftrightarrow> b < 32"
  by (simp add: decode_rune_def RuneError_def rune2_not_control rune3_not_control rune4_not_control)

lemma rune2_skips: "x \<in> set (take (snd (rune2 b0 bs)) bs) \<Longrightarrow> 128 \<le> x"
  by (induction b0 bs rule: rune2.induct)
    (auto simp: in_range_def numeral_2_eq_2 numeral_3_eq_3 dest: second_ok_bounds(1) split: if_splits)

lemma rune3_skips: "x \<in> set (take (snd (rune3 b0 bs)) bs) \<Longrightarrow> 128 \<le> x"
  by (induction b0 bs rule: rune3.induct)
    (auto simp: in_range_def numeral_2_eq_2 numeral_3_eq_3 dest: second_ok_bounds(1) split: if_splits)

lemma rune4_skips: "x \<in> set (take (snd (rune4 b0 bs)) bs) \<Longrightarrow> 128 \<le> x"
  by (induction b0 bs rule: rune4.induct)
    (auto simp: in_range_def numeral_2_eq_2 numeral_3_eq_3 dest: second_ok_bounds(1) split: if_splits)

lemma decode_rune_skips:
  "x \<in> set (take (snd (decode_rune b bs)) bs) \<Longrightarrow> 128 \<le> x"
  using rune2_skips rune3_skips rune4_skips by (auto simp: decode_rune_def split: if_splits)

text \<open>Testing the runes of a string for control characters is testing its bytes.\<close>

lemma runes_control: "(\<exists>r \<in> set (runes bs). r < 32) \<longleftrightarrow> (\<exists>b \<in> set bs. b < 32)"
proof (induction bs rule: runes.induct)
  case 1
  then show ?case by simp
next
  case (2 b bs)
  let ?n = "snd (decode_rune b bs)"
  have "set bs = set (take ?n bs) \<union> set (drop ?n bs)"
    by (metis append_take_drop_id set_append)
  moreover have "\<not> (\<exists>x \<in> set (take ?n bs). x < 32)"
    using decode_rune_skips [of _ b bs] by force
  ultimately show ?case
    using 2 by (auto simp: decode_rune_small)
qed

section \<open>Decimal formatting\<close>

definition digit :: "nat \<Rightarrow> char" where
  "digit d = char_of (48 + d)"

definition digit_value :: "char \<Rightarrow> nat option" where
  "digit_value c = (let n = of_char c in if 48 \<le> n \<and> n \<le> 57 then Some (n - 48) else None)"

fun show_nat :: "nat \<Rightarrow> string" where
  "show_nat n = (if n < 10 then [digit n] else show_nat (n div 10) @ [digit (n mod 10)])"

declare show_nat.simps [simp del]

definition show_int :: "int \<Rightarrow> string" where
  "show_int n = (if n < 0 then CHR ''-'' # show_nat (nat (- n)) else show_nat (nat n))"

text \<open>The verb \<open>%0wd\<close>: zeros up to the width, after a sign.\<close>

definition pad0 :: "nat \<Rightarrow> string \<Rightarrow> string" where
  "pad0 w s = replicate (w - length s) CHR ''0'' @ s"

definition show_int0 :: "nat \<Rightarrow> int \<Rightarrow> string" where
  "show_int0 w n = (if n < 0 then CHR ''-'' # pad0 (w - 1) (show_nat (nat (- n))) else pad0 w (show_nat (nat n)))"

lemma of_char_digit: "d < 10 \<Longrightarrow> of_char (digit d) = 48 + d"
  by (simp add: digit_def)

lemma digit_value_digit [simp]: "d < 10 \<Longrightarrow> digit_value (digit d) = Some d"
  by (simp add: digit_value_def of_char_digit)

definition is_digit :: "char \<Rightarrow> bool" where
  "is_digit c \<longleftrightarrow> digit_value c \<noteq> None"

lemma is_digit_digit [simp]: "d < 10 \<Longrightarrow> is_digit (digit d)"
  by (simp add: is_digit_def)

lemma show_nat_digits: "list_all is_digit (show_nat n)"
proof (induction n rule: show_nat.induct)
  case (1 n)
  then show ?case by (subst show_nat.simps) auto
qed

lemma show_nat_nonempty [simp]: "show_nat n \<noteq> []"
  by (subst show_nat.simps) simp

text \<open>Reading the digits back.\<close>

fun read_digits :: "nat \<Rightarrow> string \<Rightarrow> nat option" where
  "read_digits acc [] = Some acc"
| "read_digits acc (c # cs) =
     (case digit_value c of None \<Rightarrow> None | Some d \<Rightarrow> read_digits (acc * 10 + d) cs)"

lemma read_digits_append:
  "read_digits acc (xs @ ys) = Option.bind (read_digits acc xs) (\<lambda>a. read_digits a ys)"
  by (induction xs arbitrary: acc) (auto split: option.splits)

lemma read_show_nat: "read_digits 0 (show_nat n) = Some n"
proof (induction n rule: show_nat.induct)
  case (1 n)
  show ?case
  proof (cases "n < 10")
    case True
    then show ?thesis by (subst show_nat.simps) simp
  next
    case False
    with 1 show ?thesis by (subst show_nat.simps) (simp add: read_digits_append)
  qed
qed

lemma show_nat_inject: "show_nat m = show_nat n \<longleftrightarrow> m = n"
  by (metis option.inject read_show_nat)

section \<open>\<open>path.Clean\<close>\<close>

abbreviation slash :: char where
  "slash \<equiv> CHR ''/''"

fun split_slash :: "string \<Rightarrow> string list" where
  "split_slash [] = [[]]"
| "split_slash (c # s) =
     (if c = slash then [] # split_slash s
      else (case split_slash s of x # xs \<Rightarrow> (c # x) # xs | [] \<Rightarrow> [[c]]))"

fun join_slash :: "string list \<Rightarrow> string" where
  "join_slash [] = []"
| "join_slash [x] = x"
| "join_slash (x # y # xs) = x @ slash # join_slash (y # xs)"

text \<open>
  The elements are taken left to right onto a stack: empty and \<open>.\<close> elements are dropped,
  \<open>..\<close> removes the element before it unless that is itself a \<open>..\<close> that could not be
  resolved; above the root it is dropped, in a relative path it stays.
\<close>

fun clean_element :: "bool \<Rightarrow> string \<Rightarrow> string list \<Rightarrow> string list" where
  "clean_element rooted x st =
     (if x = [] \<or> x = ''.'' then st
      else if x = ''..'' then
        (case st of
           y # ys \<Rightarrow> if y = ''..'' then x # st else ys
         | [] \<Rightarrow> if rooted then [] else [x])
      else x # st)"

definition path_Clean :: "string \<Rightarrow> string" where
  "path_Clean p =
     (let rooted = HasPrefix p ''/'';
          out = (if rooted then ''/'' else []) @
            join_slash (rev (fold (clean_element rooted) (split_slash p) []))
      in if out = [] then ''.'' else out)"

lemma split_slash_nonempty [simp]: "split_slash s \<noteq> []"
  by (induction s) (auto split: list.splits)

lemma join_split: "join_slash (split_slash s) = s"
proof (induction s)
  case Nil
  then show ?case by simp
next
  case (Cons c s)
  obtain x xs where s: "split_slash s = x # xs"
    by (cases "split_slash s") auto
  with Cons show ?case
    by (cases xs) auto
qed

lemma split_no_slash: "x \<in> set (split_slash s) \<Longrightarrow> slash \<notin> set x"
proof (induction s arbitrary: x)
  case Nil
  then show ?case by simp
next
  case (Cons c s)
  obtain y ys where s: "split_slash s = y # ys"
    by (cases "split_slash s") auto
  with Cons show ?case
    by (fastforce split: if_splits)
qed

lemma split_slash_plain: "slash \<notin> set x \<Longrightarrow> split_slash x = [x]"
  by (induction x) auto

lemma split_slash_append: "slash \<notin> set x \<Longrightarrow> split_slash (x @ slash # s) = x # split_slash s"
  by (induction x) auto

lemma split_join:
  "xs \<noteq> [] \<Longrightarrow> (\<And>x. x \<in> set xs \<Longrightarrow> slash \<notin> set x) \<Longrightarrow> split_slash (join_slash xs) = xs"
  by (induction xs rule: join_slash.induct) (auto simp: split_slash_plain split_slash_append)

text \<open>Without \<open>..\<close> elements, cleaning drops the empty and the \<open>.\<close> elements.\<close>

abbreviation plain_element :: "string \<Rightarrow> bool" where
  "plain_element x \<equiv> x \<noteq> [] \<and> x \<noteq> ''.''"

lemma fold_clean_plain:
  "''..'' \<notin> set xs \<Longrightarrow>
   fold (clean_element rooted) xs st = rev (filter plain_element xs) @ st"
  by (induction xs arbitrary: st) auto

lemma path_Clean_plain:
  assumes "\<not> HasPrefix p ''/''" and "''..'' \<notin> set (split_slash p)"
    and "filter plain_element (split_slash p) \<noteq> []"
  shows "path_Clean p = p \<longleftrightarrow> list_all plain_element (split_slash p)"
proof -
  let ?xs = "filter plain_element (split_slash p)"
  have split: "split_slash (join_slash ?xs) = ?xs"
    using assms(3) split_no_slash by (intro split_join) auto
  have "join_slash ?xs \<noteq> []"
  proof
    assume "join_slash ?xs = []"
    then have "[] \<in> set ?xs" using split by (metis list.set_intros(1) split_slash.simps(1))
    then show False by simp
  qed
  then have clean: "path_Clean p = join_slash ?xs"
    using assms(1,2) by (simp add: path_Clean_def fold_clean_plain)
  show ?thesis
  proof
    assume "path_Clean p = p"
    then have "?xs = split_slash p" using clean split by simp
    then show "list_all plain_element (split_slash p)"
      by (metis (no_types, lifting) Ball_set filter_id_conv)
  next
    assume "list_all plain_element (split_slash p)"
    then have "?xs = split_slash p" by (simp add: Ball_set [symmetric])
    then show "path_Clean p = p" using clean join_split by simp
  qed
qed

end
