(* ===== verification/Base64.thy ===== *)
theory Base64
  imports GoStrings
begin

text \<open>
  \<open>base64.RawURLEncoding\<close> as the upload tokens use it: the URL-safe alphabet without
  padding. The decoder skips carriage returns and line feeds and does not insist on zero
  trailing bits, so several tokens decode to the same bytes; the encoder's output always
  decodes to what was encoded.
\<close>

text \<open>The alphabet: A to Z, a to z, 0 to 9, \<open>-\<close> and \<open>_\<close>.\<close>

definition b64_char :: "nat \<Rightarrow> char" where
  "b64_char n =
     (if n < 26 then char_of (65 + n)
      else if n < 52 then char_of (71 + n)
      else if n < 62 then char_of (n - 4)
      else if n = 62 then CHR ''-''
      else CHR ''_'')"

text \<open>The decode map: the index of a character of the alphabet.\<close>

definition b64_value :: "char \<Rightarrow> nat option" where
  "b64_value c =
     (let n = (of_char c :: nat) in
      if 65 \<le> n \<and> n \<le> 90 then Some (n - 65)
      else if 97 \<le> n \<and> n \<le> 122 then Some (n - 71)
      else if 48 \<le> n \<and> n \<le> 57 then Some (n + 4)
      else if n = 45 then Some 62
      else if n = 95 then Some 63
      else None)"

fun b64_encode_bytes :: "nat list \<Rightarrow> nat list" where
  "b64_encode_bytes [] = []"
| "b64_encode_bytes [a] = [a div 4, a mod 4 * 16]"
| "b64_encode_bytes [a, b] = [a div 4, a mod 4 * 16 + b div 16, b mod 16 * 4]"
| "b64_encode_bytes (a # b # c # rest) =
     [a div 4, a mod 4 * 16 + b div 16, b mod 16 * 4 + c div 64, c mod 64] @ b64_encode_bytes rest"

definition b64_EncodeToString :: "string \<Rightarrow> string" where
  "b64_EncodeToString s = map b64_char (b64_encode_bytes (map of_char s))"

text \<open>A quantum of four, three or two characters; a single one left over is an error.\<close>

fun b64_decode_values :: "nat list \<Rightarrow> nat list option" where
  "b64_decode_values [] = Some []"
| "b64_decode_values [p] = None"
| "b64_decode_values [p, q] = Some [(p * 4 + q div 16) mod 256]"
| "b64_decode_values [p, q, r] = Some [(p * 4 + q div 16) mod 256, (q * 16 + r div 4) mod 256]"
| "b64_decode_values (p # q # r # s # rest) =
     (case b64_decode_values rest of
        None \<Rightarrow> None
      | Some out \<Rightarrow> Some ([(p * 4 + q div 16) mod 256, (q * 16 + r div 4) mod 256, (r * 64 + s) mod 256] @ out))"

fun b64_values :: "string \<Rightarrow> nat list option" where
  "b64_values [] = Some []"
| "b64_values (c # s) =
     (if c = char_of (10 :: nat) \<or> c = char_of (13 :: nat) then b64_values s
      else (case b64_value c of None \<Rightarrow> None | Some v \<Rightarrow> map_option ((#) v) (b64_values s)))"

definition b64_DecodeString :: "string \<Rightarrow> string option" where
  "b64_DecodeString s =
     (case b64_values s of
        None \<Rightarrow> None
      | Some vs \<Rightarrow> map_option (map char_of) (b64_decode_values vs))"

section \<open>Round trip\<close>

lemma of_char_b64_char:
  "n < 64 \<Longrightarrow> of_char (b64_char n) =
     (if n < 26 then 65 + n else if n < 52 then 71 + n else if n < 62 then n - 4
      else if n = 62 then 45 else 95)"
  by (simp add: b64_char_def)

lemma b64_value_char:
  "n < 64 \<Longrightarrow> b64_value (b64_char n) = Some n"
  unfolding b64_value_def Let_def by (subst (1 2 3 4 5 6 7 8 9 10 11) of_char_b64_char) auto

lemma b64_char_no_newline:
  assumes "n < 64"
  shows "b64_char n \<noteq> char_of (10 :: nat)" and "b64_char n \<noteq> char_of (13 :: nat)"
proof -
  have "14 \<le> (of_char (b64_char n) :: nat)"
    using assms by (auto simp: of_char_b64_char)
  then show "b64_char n \<noteq> char_of (10 :: nat)" "b64_char n \<noteq> char_of (13 :: nat)"
    by auto
qed

lemma b64_values_encode:
  "list_all (\<lambda>n. n < 64) vs \<Longrightarrow> b64_values (map b64_char vs) = Some vs"
  by (induction vs) (simp_all add: b64_value_char b64_char_no_newline)

lemma b64_encode_bytes_sextets:
  "list_all (\<lambda>n. n < 256) bs \<Longrightarrow> list_all (\<lambda>n. n < 64) (b64_encode_bytes bs)"
  by (induction bs rule: b64_encode_bytes.induct) auto

text \<open>Cutting 8-bit groups into 6-bit groups loses nothing.\<close>

lemma first_byte:
  fixes a b :: nat
  assumes "a < 256" and "b < 256"
  shows "(a div 4 * 4 + (a mod 4 * 16 + b div 16) div 16) mod 256 = a"
proof -
  have "b div 16 < 16" using assms(2) by simp
  then have "(a mod 4 * 16 + b div 16) div 16 = a mod 4" by simp
  then show ?thesis using assms(1) by simp
qed

lemma second_byte:
  fixes a b x :: nat
  assumes "b < 256" and "x < 4"
  shows "((a mod 4 * 16 + b div 16) * 16 + (b mod 16 * 4 + x) div 4) mod 256 = b"
proof -
  have "(b mod 16 * 4 + x) div 4 = b mod 16" using assms(2) by simp
  moreover have "b div 16 * 16 + b mod 16 = b" by simp
  ultimately have "(a mod 4 * 16 + b div 16) * 16 + (b mod 16 * 4 + x) div 4 = a mod 4 * 256 + b"
    by (simp add: algebra_simps)
  then show ?thesis using assms(1) by simp
qed

lemma third_byte:
  fixes b c :: nat
  assumes "c < 256"
  shows "((b mod 16 * 4 + c div 64) * 64 + c mod 64) mod 256 = c"
proof -
  have "c div 64 * 64 + c mod 64 = c" by simp
  then have "(b mod 16 * 4 + c div 64) * 64 + c mod 64 = b mod 16 * 256 + c"
    by (simp add: algebra_simps)
  then show ?thesis using assms by simp
qed

lemma b64_decode_encode_values:
  "list_all (\<lambda>n. n < 256) bs \<Longrightarrow> b64_decode_values (b64_encode_bytes bs) = Some bs"
proof (induction bs rule: b64_encode_bytes.induct)
  case (2 a)
  then show ?case using first_byte [of a 0] by simp
next
  case (3 a b)
  then show ?case using first_byte [of a b] second_byte [of b 0 a] by simp
next
  case (4 a b c rest)
  then have "c div 64 < 4" by (simp add: div_less_iff_less_mult)
  with 4 show ?case
    using first_byte [of a b] second_byte [of b "c div 64" a] third_byte [of c b] by simp
qed simp

lemma bytes_bound: "list_all (\<lambda>n. n < 256) (map (of_char :: char \<Rightarrow> nat) s)"
  by (induction s) auto

lemma b64_decode_encode: "b64_DecodeString (b64_EncodeToString s) = Some s"
  using b64_values_encode [OF b64_encode_bytes_sextets [OF bytes_bound [of s]]]
    b64_decode_encode_values [OF bytes_bound [of s]]
  by (simp add: b64_DecodeString_def b64_EncodeToString_def comp_def)

interpretation token_codec: codec b64_EncodeToString b64_DecodeString "\<lambda>_. True"
  by unfold_locales (simp_all add: b64_decode_encode)

end
