(* ===== verification/Errors.thy ===== *)
theory Errors
  imports Prelude
begin

text \<open>
  Go's error values and the retry taxonomy of \<open>internal/domain/errors.go\<close>: sentinel
  errors, wrapping with \<open>%w\<close>, \<open>errors.Is\<close>, \<open>errors.As\<close> for
  \<open>*ProcessingError\<close>, the classification of failures as permanent or transient and the
  test for cancellation.
\<close>

section \<open>Error values\<close>

text \<open>
  The text of an error is a list of fragments: \<open>Lit\<close> is text taken as it is, \<open>Quoted\<close>
  an argument of \<open>%q\<close>, whose quotation (it depends on Unicode tables) is left symbolic.
\<close>

datatype frag = Lit string | Quoted string

type_synonym err_text = "frag list"

text \<open>The sentinels made by \<open>errors.New\<close>, and the two errors of package \<open>context\<close>.\<close>

datatype sentinel =
    ErrInvalidTransition | ErrNotFound | ErrConflict | ErrIdempotencyConflict
  | ErrValidation | ErrNotCancellable | ErrInvalidKey | ErrUnsupportedMedia | ErrTooLarge
  | ErrObjectNotFound | ErrUnknownPipeline | ErrImageTooLarge | Canceled | DeadlineExceeded

fun sentinel_text :: "sentinel \<Rightarrow> string" where
  "sentinel_text ErrInvalidTransition = ''invalid job state transition''"
| "sentinel_text ErrNotFound = ''not found''"
| "sentinel_text ErrConflict = ''state conflict''"
| "sentinel_text ErrIdempotencyConflict = ''idempotency key reused with different request''"
| "sentinel_text ErrValidation = ''validation failed''"
| "sentinel_text ErrNotCancellable = ''job is not cancellable''"
| "sentinel_text ErrInvalidKey = ''invalid object key''"
| "sentinel_text ErrUnsupportedMedia = ''unsupported media type''"
| "sentinel_text ErrTooLarge = ''object too large''"
| "sentinel_text ErrObjectNotFound = ''object not found''"
| "sentinel_text ErrUnknownPipeline = ''unknown pipeline''"
| "sentinel_text ErrImageTooLarge = ''image too large''"
| "sentinel_text Canceled = ''context canceled''"
| "sentinel_text DeadlineExceeded = ''context deadline exceeded''"

datatype error_kind = KindTransient | KindPermanent

fun kind_String :: "error_kind \<Rightarrow> string" where
  "kind_String k = (if k = KindPermanent then ''permanent'' else ''transient'')"

text \<open>
  \<open>WrapErr t es\<close> is the result of \<open>fmt.Errorf\<close> with text \<open>t\<close> and the operands of its
  \<open>%w\<close> verbs \<open>es\<close>. \<open>MinioResponse\<close> is the SDK's \<open>minio.ErrorResponse\<close> with the code
  and status the program inspects; \<open>Foreign\<close> is any other error of a library.
\<close>

datatype err =
    Sentinel sentinel
  | WrapErr err_text "err list"
  | ProcessingError error_kind string err
  | MinioResponse string int
  | Foreign string

primrec Error :: "err \<Rightarrow> err_text" where
  "Error (Sentinel s) = [Lit (sentinel_text s)]"
| "Error (WrapErr t es) = t"
| "Error (ProcessingError k op e) =
     (if op = '''' then [Lit (kind_String k), Lit '': ''] @ Error e
      else [Lit (kind_String k), Lit '': '', Lit op, Lit '': ''] @ Error e)"
| "Error (MinioResponse code status) = [Lit code]"
| "Error (Foreign m) = [Lit m]"

text \<open>\<open>fmt.Errorf("<prefix>: %w", e)\<close> and \<open>fmt.Errorf("%w: <suffix>", e)\<close>.\<close>

definition wrap_prefix :: "string \<Rightarrow> err \<Rightarrow> err" where
  "wrap_prefix p e = WrapErr (Lit p # Lit '': '' # Error e) [e]"

definition wrap_suffix :: "err \<Rightarrow> err_text \<Rightarrow> err" where
  "wrap_suffix e t = WrapErr (Error e @ Lit '': '' # t) [e]"

text \<open>\<open>fmt.Errorf("%w: %w", e, f)\<close>.\<close>

definition wrap_both :: "err \<Rightarrow> err \<Rightarrow> err" where
  "wrap_both e f = WrapErr (Error e @ Lit '': '' # Error f) [e, f]"

section \<open>\<open>errors.Is\<close> and \<open>errors.As\<close>\<close>

fun errors_Is :: "sentinel \<Rightarrow> err \<Rightarrow> bool" where
  "errors_Is s (Sentinel t) \<longleftrightarrow> s = t"
| "errors_Is s (WrapErr t es) \<longleftrightarrow> list_ex (errors_Is s) es"
| "errors_Is s (ProcessingError k op e) \<longleftrightarrow> errors_Is s e"
| "errors_Is s (MinioResponse code status) \<longleftrightarrow> False"
| "errors_Is s (Foreign m) \<longleftrightarrow> False"

text \<open>\<open>errors.As(err, &pe)\<close> walks the tree in pre-order and stops at the first match.\<close>

fun as_ProcessingError :: "err \<Rightarrow> error_kind option"
  and as_ProcessingError_list :: "err list \<Rightarrow> error_kind option" where
  "as_ProcessingError (Sentinel t) = None"
| "as_ProcessingError (WrapErr t es) = as_ProcessingError_list es"
| "as_ProcessingError (ProcessingError k op e) = Some k"
| "as_ProcessingError (MinioResponse code status) = None"
| "as_ProcessingError (Foreign m) = None"
| "as_ProcessingError_list [] = None"
| "as_ProcessingError_list (e # es) =
     (case as_ProcessingError e of Some k \<Rightarrow> Some k | None \<Rightarrow> as_ProcessingError_list es)"

text \<open>\<open>errors.As\<close> for the object store's \<open>minio.ErrorResponse\<close>.\<close>

fun as_MinioResponse :: "err \<Rightarrow> (string \<times> int) option"
  and as_MinioResponse_list :: "err list \<Rightarrow> (string \<times> int) option" where
  "as_MinioResponse (Sentinel t) = None"
| "as_MinioResponse (WrapErr t es) = as_MinioResponse_list es"
| "as_MinioResponse (ProcessingError k op e) = as_MinioResponse e"
| "as_MinioResponse (MinioResponse code status) = Some (code, status)"
| "as_MinioResponse (Foreign m) = None"
| "as_MinioResponse_list [] = None"
| "as_MinioResponse_list (e # es) =
     (case as_MinioResponse e of Some r \<Rightarrow> Some r | None \<Rightarrow> as_MinioResponse_list es)"

section \<open>The retry taxonomy\<close>

text \<open>A Go \<open>error\<close> that may be nil is an \<open>err option\<close>.\<close>

definition Permanent :: "string \<Rightarrow> err option \<Rightarrow> err option" where
  "Permanent op e = (case e of None \<Rightarrow> None | Some e \<Rightarrow> Some (ProcessingError KindPermanent op e))"

definition Transient :: "string \<Rightarrow> err option \<Rightarrow> err option" where
  "Transient op e = (case e of None \<Rightarrow> None | Some e \<Rightarrow> Some (ProcessingError KindTransient op e))"

definition Classify :: "err option \<Rightarrow> error_kind" where
  "Classify e = (case Option.bind e as_ProcessingError of Some k \<Rightarrow> k | None \<Rightarrow> KindTransient)"

definition IsPermanent :: "err option \<Rightarrow> bool" where
  "IsPermanent e \<longleftrightarrow> e \<noteq> None \<and> Classify e = KindPermanent"

definition IsTransient :: "err option \<Rightarrow> bool" where
  "IsTransient e \<longleftrightarrow> e \<noteq> None \<and> Classify e = KindTransient"

definition IsCancellation :: "err option \<Rightarrow> bool" where
  "IsCancellation e \<longleftrightarrow>
     (case e of None \<Rightarrow> False | Some e \<Rightarrow> errors_Is Canceled e \<or> errors_Is DeadlineExceeded e)"

section \<open>Lemmas\<close>

lemma errors_Is_wrap [simp]:
  "errors_Is s (wrap_prefix p e) \<longleftrightarrow> errors_Is s e"
  "errors_Is s (wrap_suffix e t) \<longleftrightarrow> errors_Is s e"
  "errors_Is s (wrap_both e f) \<longleftrightarrow> errors_Is s e \<or> errors_Is s f"
  by (simp_all add: wrap_prefix_def wrap_suffix_def wrap_both_def)

lemma as_ProcessingError_wrap [simp]:
  "as_ProcessingError (wrap_prefix p e) = as_ProcessingError e"
  "as_ProcessingError (wrap_suffix e t) = as_ProcessingError e"
  by (simp_all add: wrap_prefix_def wrap_suffix_def split: option.splits)

lemma Classify_simps [simp]:
  "Classify None = KindTransient"
  "Classify (Some (ProcessingError k op e)) = k"
  "Classify (Some (Sentinel s)) = KindTransient"
  "Classify (Some (Foreign m)) = KindTransient"
  "Classify (Some (wrap_prefix p e)) = Classify (Some e)"
  "Classify (Some (wrap_suffix e t)) = Classify (Some e)"
  by (simp_all add: Classify_def)

lemma IsPermanent_simps [simp]:
  "IsPermanent None \<longleftrightarrow> False"
  "IsPermanent (Some (ProcessingError k op e)) \<longleftrightarrow> k = KindPermanent"
  "IsPermanent (Some (Sentinel s)) \<longleftrightarrow> False"
  "IsPermanent (Some (wrap_prefix p e)) \<longleftrightarrow> IsPermanent (Some e)"
  by (simp_all add: IsPermanent_def)

lemma IsCancellation_simps [simp]:
  "IsCancellation None \<longleftrightarrow> False"
  "IsCancellation (Some (ProcessingError k op e)) \<longleftrightarrow> IsCancellation (Some e)"
  "IsCancellation (Some (wrap_prefix p e)) \<longleftrightarrow> IsCancellation (Some e)"
  by (simp_all add: IsCancellation_def)

text \<open>Where no part of an error is tagged, \<open>errors.As\<close> finds nothing.\<close>

fun untagged :: "err \<Rightarrow> bool" where
  "untagged (Sentinel s) \<longleftrightarrow> True"
| "untagged (WrapErr t es) \<longleftrightarrow> list_all untagged es"
| "untagged (ProcessingError k op e) \<longleftrightarrow> False"
| "untagged (MinioResponse code status) \<longleftrightarrow> True"
| "untagged (Foreign m) \<longleftrightarrow> True"

lemma as_ProcessingError_None_iff:
  "as_ProcessingError e = None \<longleftrightarrow> untagged e"
  "as_ProcessingError_list es = None \<longleftrightarrow> list_all untagged es"
  by (induction e and es rule: as_ProcessingError_as_ProcessingError_list.induct)
    (auto split: option.splits)

text \<open>
  Retry classification is total and a dichotomy: every non-nil error is permanent or
  transient and never both; the outermost tag decides, whatever was tagged inside it; an
  error in which nothing is tagged is transient, so it retries; tagging a nil error gives
  nil; and wrapping with \<open>%w\<close> never changes the class.
\<close>

theorem classification_dichotomy:
  "IsPermanent (Some e) \<noteq> IsTransient (Some e)
   \<and> Classify (Permanent op (Some e)) = KindPermanent
   \<and> Classify (Transient op (Some e)) = KindTransient
   \<and> Permanent op None = None \<and> Transient op None = None
   \<and> (untagged e \<longrightarrow> IsTransient (Some e))
   \<and> Classify (Some (wrap_prefix p e)) = Classify (Some e)
   \<and> IsCancellation (Permanent op (Some e)) = IsCancellation (Some e)"
proof -
  have "untagged e \<Longrightarrow> Classify (Some e) = KindTransient"
    by (simp add: Classify_def as_ProcessingError_None_iff(1) [THEN iffD2])
  moreover have "Classify (Some e) = KindPermanent \<or> Classify (Some e) = KindTransient"
    by (cases "Classify (Some e)") auto
  ultimately show ?thesis
    by (auto simp: IsPermanent_def IsTransient_def Permanent_def Transient_def)
qed

theorem classification_dichotomy_witness:
  "untagged (wrap_prefix ''stat'' (Foreign ''timeout''))
   \<and> IsTransient (Some (wrap_prefix ''stat'' (Foreign ''timeout'')))"
  using classification_dichotomy [of "wrap_prefix ''stat'' (Foreign ''timeout'')"]
  by (simp add: wrap_prefix_def)

end
