(* ===== verification/Keys.thy ===== *)
theory Keys
  imports Base64 Errors
begin

text \<open>
  Object keys and upload checks: \<open>internal/storage/keys.go\<close> and
  \<open>internal/storage/validate.go\<close>.
\<close>

section \<open>Keys\<close>

definition InputPrefix :: string where
  "InputPrefix = ''uploads/''"

definition OutputPrefix :: string where
  "OutputPrefix = ''outputs/''"

definition supportedExtensions :: "string \<Rightarrow> string option" where
  "supportedExtensions = map_of [(''.jpg'', ''.jpg''), (''.jpeg'', ''.jpg''), (''.png'', ''.png'')]"

text \<open>
  The year and month of the current instant and the text of a fresh UUID are arguments.
\<close>

definition GenerateInputKey :: "int \<Rightarrow> int \<Rightarrow> string \<Rightarrow> string \<Rightarrow> string" where
  "GenerateInputKey year month fresh ext =
     (let canonical = (case supportedExtensions (ToLower ext) of Some c \<Rightarrow> c | None \<Rightarrow> ''.jpg'')
      in InputPrefix @ show_int0 4 year @ ''/'' @ show_int0 2 month @ ''/'' @ fresh @ canonical)"

definition GenerateOutputKey :: "string \<Rightarrow> string \<Rightarrow> string" where
  "GenerateOutputKey jobID name = OutputPrefix @ jobID @ ''/'' @ name"

definition EncodeUploadID :: "string \<Rightarrow> string" where
  "EncodeUploadID key = b64_EncodeToString key"

definition invalid_key :: "string \<Rightarrow> err" where
  "invalid_key why = wrap_suffix (Sentinel ErrInvalidKey) [Lit why]"

definition ValidateInputKey :: "string \<Rightarrow> err option" where
  "ValidateInputKey key =
     (if \<not> HasPrefix key InputPrefix then Some (invalid_key ''not in input namespace'')
      else if Contains key ''..'' \<or> HasPrefix key ''/'' \<or> Contains key ''//''
      then Some (invalid_key ''path traversal'')
      else if key \<noteq> path_Clean key then Some (invalid_key ''not a clean path'')
      else if list_ex (\<lambda>r. r < 32) (runes_of key) then Some (invalid_key ''control character'')
      else None)"

definition DecodeUploadID :: "string \<Rightarrow> err + string" where
  "DecodeUploadID token =
     (case b64_DecodeString token of
        None \<Rightarrow> Inl (invalid_key ''undecodable upload id'')
      | Some key \<Rightarrow> (case ValidateInputKey key of Some e \<Rightarrow> Inl e | None \<Rightarrow> Inr key))"

section \<open>Upload checks\<close>

definition contentTypeExt :: "string \<Rightarrow> string option" where
  "contentTypeExt = map_of [(''image/jpeg'', ''.jpg''), (''image/png'', ''.png'')]"

definition ExtensionForContentType :: "string \<Rightarrow> err + string" where
  "ExtensionForContentType contentType =
     (case contentTypeExt contentType of
        None \<Rightarrow> Inl (wrap_suffix (Sentinel ErrUnsupportedMedia) [Quoted contentType])
      | Some ext \<Rightarrow> Inr ext)"

definition SupportedContentType :: "string \<Rightarrow> bool" where
  "SupportedContentType contentType \<longleftrightarrow> contentTypeExt contentType \<noteq> None"

definition too_large :: "int \<Rightarrow> int \<Rightarrow> err" where
  "too_large n maxBytes =
     wrap_suffix (Sentinel ErrTooLarge) [Lit (show_int n), Lit '' > '', Lit (show_int maxBytes)]"

definition ValidateUploadRequest :: "string \<Rightarrow> int \<Rightarrow> int \<Rightarrow> err option" where
  "ValidateUploadRequest contentType sizeBytes maxBytes =
     (if \<not> SupportedContentType contentType
      then Some (wrap_suffix (Sentinel ErrUnsupportedMedia) [Quoted contentType])
      else if sizeBytes > 0 \<and> sizeBytes > maxBytes then Some (too_large sizeBytes maxBytes)
      else None)"

record object_info =
  oi_Key :: string
  oi_Size :: int
  oi_ContentType :: string
  oi_ETag :: string
  oi_LastModified :: time

definition ValidateObject :: "object_info \<Rightarrow> int \<Rightarrow> err option" where
  "ValidateObject info maxBytes =
     (if oi_Size info \<le> 0
      then Some (wrap_suffix (Sentinel ErrUnsupportedMedia) [Lit ''empty object''])
      else if oi_Size info > maxBytes then Some (too_large (oi_Size info) maxBytes)
      else if oi_ContentType info \<noteq> '''' \<and> oi_ContentType info \<noteq> ''application/octet-stream''
        \<and> \<not> SupportedContentType (oi_ContentType info)
      then Some (wrap_suffix (Sentinel ErrUnsupportedMedia) [Quoted (oi_ContentType info)])
      else None)"

section \<open>Lemmas on prefixes and elements\<close>

lemma HasPrefix_append [simp]: "HasPrefix (p @ s) p"
  by (simp add: HasPrefix_def)

lemma HasPrefixD: "HasPrefix s p \<Longrightarrow> \<exists>t. s = p @ t"
  by (metis HasPrefix_def append_take_drop_id)

lemma HasPrefix_Cons [simp]: "HasPrefix (c # s) (d # p) \<longleftrightarrow> c = d \<and> HasPrefix s p"
  by (auto simp: HasPrefix_def)

lemma HasPrefix_Nil [simp]: "HasPrefix s []" "HasPrefix [] (d # p) \<longleftrightarrow> False"
  by (simp_all add: HasPrefix_def)

lemma Contains_appendI: "Contains s p \<Longrightarrow> Contains (x @ s) p"
  by (induction x) auto

lemma HasPrefix_extend: "HasPrefix s p \<Longrightarrow> HasPrefix (s @ t) p"
  using HasPrefixD [of s p] by auto

lemma Contains_extend: "Contains s p \<Longrightarrow> Contains (s @ t) p"
proof (induction s)
  case Nil
  then show ?case by (cases t) auto
next
  case (Cons c s)
  then show ?case using HasPrefix_extend [of "c # s" p t] by auto
qed

lemma Contains_element:
  "x \<in> set (split_slash s) \<Longrightarrow> Contains x p \<Longrightarrow> Contains s p"
proof (induction s arbitrary: x)
  case Nil
  then show ?case by simp
next
  case (Cons c s)
  obtain y ys where s: "split_slash s = y # ys"
    by (cases "split_slash s") auto
  have join: "s = (if ys = [] then y else y @ slash # join_slash ys)"
    using join_split [of s] s by (cases ys) auto
  show ?case
  proof (cases "c = slash \<or> x \<in> set ys")
    case True
    with Cons.prems s have "x = [] \<or> x \<in> set (split_slash s)" by (auto split: if_splits)
    with Cons show ?thesis by (auto simp: HasPrefix_def)
  next
    case False
    with Cons.prems(1) s have "x = c # y" by auto
    moreover from this Cons.prems(2) have "Contains (c # y) p" by simp
    ultimately have "Contains ((c # y) @ t) p" for t by (metis Contains_extend)
    from this [of "[]"] this [of "slash # join_slash ys"] show ?thesis
      using join by (cases "ys = []") simp_all
  qed
qed

text \<open>A two-character pattern of one repeated character, over the elements of a path.\<close>

lemma Contains_Cons2:
  "Contains (c # s) [d, e] \<longleftrightarrow> (c = d \<and> HasPrefix s [e]) \<or> Contains s [d, e]"
  by simp

lemma dotdot_elements: "Contains s ''..'' \<longleftrightarrow> (\<exists>x \<in> set (split_slash s). Contains x ''..'')"
proof
  show "Contains s ''..'' \<Longrightarrow> \<exists>x \<in> set (split_slash s). Contains x ''..''"
  proof (induction s)
    case Nil
    then show ?case by simp
  next
    case (Cons c s)
    obtain y ys where s: "split_slash s = y # ys"
      by (cases "split_slash s") auto
    have join: "s = (if ys = [] then y else y @ slash # join_slash ys)"
      using join_split [of s] s by (cases ys) auto
    consider "c = CHR ''.''" "HasPrefix s ''.''" | "Contains s ''..''"
      using Cons.prems by auto
    then show ?case
    proof cases
      case 1
      then have "HasPrefix y ''.''"
        using join by (cases y) (auto split: if_splits)
      with 1 s show ?thesis by auto
    next
      case 2
      with Cons.IH s show ?thesis by (auto split: if_splits)
    qed
  qed
qed (blast intro: Contains_element)

lemma doubleslash_empty_element: "Contains s ''//'' \<Longrightarrow> [] \<in> set (tl (split_slash s))"
proof (induction s)
  case Nil
  then show ?case by simp
next
  case (Cons c s)
  obtain y ys where s: "split_slash s = y # ys"
    by (cases "split_slash s") auto
  consider "c = slash" "HasPrefix s ''/''" | "Contains s ''//''"
    using Cons.prems by auto
  then show ?case
  proof cases
    case 1
    then show ?thesis by (cases s) auto
  next
    case 2
    with Cons.IH s show ?thesis by simp
  qed
qed

lemma doubleslash_elements:
  "list_all plain_element (split_slash s) \<Longrightarrow> \<not> Contains s ''//''"
  using doubleslash_empty_element [of s] list.set_sel(2) [of "split_slash s"]
  by (auto simp: list_all_iff)

section \<open>What a valid input key is\<close>

text \<open>
  The specification: \<open>uploads/\<close> followed by at least one element, every element
  non-empty, not \<open>.\<close>, without \<open>..\<close> and without control characters.
\<close>

definition clean_segment :: "string \<Rightarrow> bool" where
  "clean_segment x \<longleftrightarrow> x \<noteq> [] \<and> x \<noteq> ''.'' \<and> slash \<notin> set x \<and> \<not> Contains x ''..''
     \<and> list_all (\<lambda>c. 32 \<le> (of_char c :: nat)) x"

definition input_key :: "string list \<Rightarrow> string" where
  "input_key segs = join_slash (''uploads'' # segs)"

lemma runes_of_control:
  "list_ex (\<lambda>r. r < 32) (runes_of s) \<longleftrightarrow> \<not> list_all (\<lambda>c. 32 \<le> (of_char c :: nat)) s"
  using runes_control [of "map of_char s"] by (auto simp: runes_of_def list_ex_iff list_all_iff not_le)

lemma split_uploads: "split_slash (InputPrefix @ t) = ''uploads'' # split_slash t"
  by (simp add: InputPrefix_def)

lemma list_all_join_slash:
  "P slash \<Longrightarrow> list_all P (join_slash xs) \<longleftrightarrow> list_all (list_all P) xs"
  by (induction xs rule: join_slash.induct) auto

lemma plain_split_uploads:
  assumes "path_Clean (InputPrefix @ t) = InputPrefix @ t" and "\<not> Contains (InputPrefix @ t) ''..''"
  shows "list_all plain_element (split_slash t)"
proof -
  let ?k = "InputPrefix @ t"
  have "''..'' \<notin> set (split_slash ?k)"
    using assms(2) dotdot_elements [of ?k] by force
  moreover have "\<not> HasPrefix ?k ''/''" "filter plain_element (split_slash ?k) \<noteq> []"
    by (simp_all add: InputPrefix_def)
  ultimately have "list_all plain_element (split_slash ?k)"
    using assms(1) path_Clean_plain by blast
  then show ?thesis by (simp add: split_uploads)
qed

lemma input_key_split: "segs \<noteq> [] \<Longrightarrow> input_key segs = InputPrefix @ join_slash segs"
  by (cases segs) (simp_all add: input_key_def InputPrefix_def)

lemma accepted_key_shape:
  "ValidateInputKey key = None \<longleftrightarrow>
   (\<exists>segs. segs \<noteq> [] \<and> list_all clean_segment segs \<and> key = input_key segs)"
proof
  assume ok: "ValidateInputKey key = None"
  then obtain t where t: "key = InputPrefix @ t"
    using HasPrefixD by (auto simp: ValidateInputKey_def split: if_splits)
  have facts: "\<not> Contains key ''..''" "path_Clean key = key"
    "list_all (\<lambda>c. 32 \<le> (of_char c :: nat)) key"
    using ok by (auto simp: ValidateInputKey_def runes_of_control split: if_splits)
  let ?segs = "split_slash t"
  have plain: "list_all plain_element ?segs"
    using facts(1,2) plain_split_uploads unfolding t by blast
  have "list_all (list_all (\<lambda>c. 32 \<le> (of_char c :: nat))) ?segs"
    using facts(3) list_all_join_slash [of "\<lambda>c. 32 \<le> (of_char c :: nat)" ?segs] join_split [of t]
    unfolding t by simp
  moreover have "\<not> Contains x ''..''" if "x \<in> set ?segs" for x
    using facts(1) Contains_element [OF that] Contains_appendI unfolding t by blast
  ultimately have "list_all clean_segment ?segs"
    using plain split_no_slash by (simp add: clean_segment_def list_all_iff)
  moreover have "key = input_key ?segs"
    using input_key_split [of ?segs] join_split [of t] t by simp
  ultimately show "\<exists>segs. segs \<noteq> [] \<and> list_all clean_segment segs \<and> key = input_key segs"
    using split_slash_nonempty by blast
next
  assume "\<exists>segs. segs \<noteq> [] \<and> list_all clean_segment segs \<and> key = input_key segs"
  then obtain segs where segs: "segs \<noteq> []" "list_all clean_segment segs" "key = input_key segs"
    by blast
  have "slash \<notin> set x" if "x \<in> set (''uploads'' # segs)" for x
    using that segs(2) by (auto simp: clean_segment_def list_all_iff)
  then have split: "split_slash key = ''uploads'' # segs"
    unfolding segs(3) input_key_def by (intro split_join) simp_all
  have elements: "plain_element x" "\<not> Contains x ''..''" if "x \<in> set (split_slash key)" for x
    using that segs(2) by (auto simp: split clean_segment_def list_all_iff)
  then have plain: "list_all plain_element (split_slash key)" and dots: "\<not> Contains key ''..''"
    by (auto simp: list_all_iff dotdot_elements [of key])
  have key: "key = InputPrefix @ join_slash segs"
    using segs(1,3) by (simp add: input_key_split)
  have "\<not> HasPrefix key ''/''"
    by (simp add: key InputPrefix_def)
  moreover have "''..'' \<notin> set (split_slash key)"
    using elements(2) [of "''..''"] by auto
  moreover have "filter plain_element (split_slash key) \<noteq> []"
    by (simp add: split)
  ultimately have "path_Clean key = key"
    using plain path_Clean_plain by blast
  moreover have "list_all (\<lambda>c. 32 \<le> (of_char c :: nat)) (join_slash segs)"
    using segs(2) by (subst list_all_join_slash) (auto simp: clean_segment_def list_all_iff)
  then have "list_all (\<lambda>c. 32 \<le> (of_char c :: nat)) key"
    by (simp add: key InputPrefix_def)
  ultimately show "ValidateInputKey key = None"
    using dots doubleslash_elements [OF plain] key
    by (simp add: ValidateInputKey_def runes_of_control InputPrefix_def)
qed

text \<open>
  C32. The input namespace: \<open>ValidateInputKey\<close> accepts a key exactly if it is
  \<open>uploads/\<close> followed by one or more clean segments, so no accepted key can leave the
  namespace, name a directory, or carry control characters; and every clean key is accepted.
\<close>

theorem ValidateInputKey_iff:
  "ValidateInputKey key = None \<longleftrightarrow>
   (\<exists>segs. segs \<noteq> [] \<and> list_all clean_segment segs \<and> key = input_key segs)"
  by (rule accepted_key_shape)

section \<open>Minted keys\<close>

text \<open>The text of a UUID: hexadecimal digits and dashes (what \<open>uuid.NewString\<close> documents).\<close>

definition uuid_char :: "char \<Rightarrow> bool" where
  "uuid_char c \<longleftrightarrow> is_digit c \<or> c \<in> set ''abcdef-''"

definition uuid_text :: "string \<Rightarrow> bool" where
  "uuid_text s \<longleftrightarrow> s \<noteq> [] \<and> list_all uuid_char s"

lemma is_digit_iff: "is_digit c \<longleftrightarrow> 48 \<le> (of_char c :: nat) \<and> (of_char c :: nat) \<le> 57"
  by (auto simp: is_digit_def digit_value_def Let_def)

lemma uuid_char_bounds: "uuid_char c \<Longrightarrow> 32 \<le> (of_char c :: nat) \<and> c \<noteq> slash \<and> c \<noteq> CHR ''.''"
  by (auto simp: uuid_char_def is_digit_iff)

lemma no_dot_no_dotdot: "CHR ''.'' \<notin> set s \<Longrightarrow> \<not> Contains s ''..''"
  by (induction s) auto

lemma clean_segment_uuid_chars:
  assumes "s \<noteq> []" and "list_all uuid_char s"
  shows "clean_segment s"
proof -
  have "CHR ''.'' \<notin> set s" "slash \<notin> set s" "list_all (\<lambda>c. 32 \<le> (of_char c :: nat)) s"
    using assms(2) uuid_char_bounds by (auto simp: list_all_iff)
  then show ?thesis
    using assms(1) no_dot_no_dotdot [of s] by (auto simp: clean_segment_def)
qed

lemma clean_segment_show_int0: "clean_segment (show_int0 w n)"
proof (rule clean_segment_uuid_chars)
  have digits: "list_all uuid_char (show_nat m)" for m
    using show_nat_digits [of m] by (auto simp: list_all_iff uuid_char_def)
  then show "list_all uuid_char (show_int0 w n)"
    by (auto simp: show_int0_def pad0_def list_all_iff uuid_char_def is_digit_iff)
  show "show_int0 w n \<noteq> []"
    by (simp add: show_int0_def pad0_def)
qed

lemma Contains_dotdot_append:
  "CHR ''.'' \<notin> set a \<Longrightarrow> Contains (a @ b) ''..'' \<longleftrightarrow> Contains b ''..''"
  by (induction a) auto

lemma clean_segment_file:
  assumes "uuid_text s" and "ext \<in> {''.jpg'', ''.png''}"
  shows "clean_segment (s @ ext)"
proof -
  have "CHR ''.'' \<notin> set s" "slash \<notin> set s" "list_all (\<lambda>c. 32 \<le> (of_char c :: nat)) s" "s \<noteq> []"
    using assms(1) uuid_char_bounds by (auto simp: uuid_text_def list_all_iff)
  then show ?thesis
    using assms(2) by (auto simp: clean_segment_def Contains_dotdot_append)
qed

lemma canonical_extension:
  "(case supportedExtensions x of Some c \<Rightarrow> c | None \<Rightarrow> ''.jpg'') \<in> {''.jpg'', ''.png''}"
  by (auto simp: supportedExtensions_def split: if_splits)

lemma minted_key_segments:
  assumes "uuid_text fresh"
  shows "\<exists>segs. segs \<noteq> [] \<and> list_all clean_segment segs \<and> GenerateInputKey year month fresh ext = input_key segs"
proof -
  let ?file = "fresh @ (case supportedExtensions (ToLower ext) of Some c \<Rightarrow> c | None \<Rightarrow> ''.jpg'')"
  let ?segs = "[show_int0 4 year, show_int0 2 month, ?file]"
  have "list_all clean_segment ?segs"
    using clean_segment_file [OF assms canonical_extension] by (simp add: clean_segment_show_int0)
  moreover have "GenerateInputKey year month fresh ext = input_key ?segs"
    by (simp add: GenerateInputKey_def input_key_split Let_def)
  ultimately show ?thesis by blast
qed

lemma DecodeUploadID_Encode:
  "ValidateInputKey key = None \<Longrightarrow> DecodeUploadID (EncodeUploadID key) = Inr key"
  by (simp add: DecodeUploadID_def EncodeUploadID_def token_codec.dec_enc)

lemma DecodeUploadID_valid: "DecodeUploadID token = Inr key \<Longrightarrow> ValidateInputKey key = None"
  by (auto simp: DecodeUploadID_def split: option.splits)

lemma DecodeUploadID_error:
  "DecodeUploadID token = Inl e \<Longrightarrow> errors_Is ErrInvalidKey e"
  by (auto simp: DecodeUploadID_def ValidateInputKey_def invalid_key_def split: option.splits if_splits)

interpretation upload_token: codec EncodeUploadID
  "\<lambda>t. case DecodeUploadID t of Inl _ \<Rightarrow> None | Inr key \<Rightarrow> Some key"
  "\<lambda>key. ValidateInputKey key = None"
  by unfold_locales (auto simp: DecodeUploadID_Encode split: sum.splits intro: DecodeUploadID_valid)

text \<open>
  C33. Upload tokens round trip: the token of every key the server mints, whatever the date,
  the extension asked for and the fresh UUID, decodes to exactly that key, and it is the
  token of no other accepted key.
\<close>

theorem minted_upload_token_roundtrip:
  assumes "uuid_text fresh"
  shows "DecodeUploadID (EncodeUploadID (GenerateInputKey year month fresh ext))
           = Inr (GenerateInputKey year month fresh ext)
    \<and> (ValidateInputKey key = None \<and> EncodeUploadID key = EncodeUploadID (GenerateInputKey year month fresh ext)
         \<longrightarrow> key = GenerateInputKey year month fresh ext)"
proof -
  have "ValidateInputKey (GenerateInputKey year month fresh ext) = None"
    using minted_key_segments [OF assms] unfolding accepted_key_shape .
  then show ?thesis
    using DecodeUploadID_Encode upload_token.enc_inj by blast
qed

theorem minted_upload_token_roundtrip_witness:
  "uuid_text ''0a1b-2c3d'' \<and>
   DecodeUploadID (EncodeUploadID (GenerateInputKey 2026 8 ''0a1b-2c3d'' ''.jpeg'')) =
     Inr ''uploads/2026/08/0a1b-2c3d.jpg''"
proof -
  have fresh: "uuid_text ''0a1b-2c3d''"
    by (simp add: uuid_text_def uuid_char_def is_digit_iff)
  have "show_nat 2026 = ''2026''" "show_nat 8 = ''8''"
    by code_simp+
  moreover have "ToLower ''.jpeg'' = ''.jpeg''"
    by code_simp
  ultimately have "GenerateInputKey 2026 8 ''0a1b-2c3d'' ''.jpeg'' = ''uploads/2026/08/0a1b-2c3d.jpg''"
    by (simp add: GenerateInputKey_def supportedExtensions_def InputPrefix_def show_int0_def pad0_def)
  with fresh show ?thesis
    using minted_upload_token_roundtrip [OF fresh, of 2026 8 "''.jpeg''"] by simp
qed

end
