(* ===== verification/Lifecycle.thy ===== *)
theory Lifecycle
  imports Errors
begin

text \<open>
  The job model and its state machine: \<open>internal/domain/status.go\<close>,
  \<open>internal/domain/job.go\<close> and \<open>internal/domain/transitions.go\<close>.
\<close>

section \<open>Statuses\<close>

text \<open>
  \<open>JobStatus\<close> is a Go string type with seven named values. \<open>UnknownStatus s\<close> is any
  other string of the type; the program never makes one, but its checks handle it.
\<close>

datatype job_status =
    StatusPending | StatusQueued | StatusProcessing | StatusCompleted
  | StatusFailed | StatusCancelled | StatusRetrying | UnknownStatus string

fun status_string :: "job_status \<Rightarrow> string" where
  "status_string StatusPending = ''PENDING''"
| "status_string StatusQueued = ''QUEUED''"
| "status_string StatusProcessing = ''PROCESSING''"
| "status_string StatusCompleted = ''COMPLETED''"
| "status_string StatusFailed = ''FAILED''"
| "status_string StatusCancelled = ''CANCELLED''"
| "status_string StatusRetrying = ''RETRYING''"
| "status_string (UnknownStatus s) = s"

fun Valid :: "job_status \<Rightarrow> bool" where
  "Valid (UnknownStatus s) \<longleftrightarrow> False"
| "Valid _ \<longleftrightarrow> True"

fun IsTerminal :: "job_status \<Rightarrow> bool" where
  "IsTerminal StatusCompleted \<longleftrightarrow> True"
| "IsTerminal StatusCancelled \<longleftrightarrow> True"
| "IsTerminal StatusFailed \<longleftrightarrow> True"
| "IsTerminal _ \<longleftrightarrow> False"

text \<open>The CHECK constraint of the column \<open>jobs.status\<close>: the text must be a known name.\<close>

definition status_check :: "string \<Rightarrow> job_status option" where
  "status_check s =
     find (\<lambda>st. status_string st = s)
       [StatusPending, StatusQueued, StatusProcessing, StatusCompleted,
        StatusFailed, StatusCancelled, StatusRetrying]"

interpretation status_codec: codec status_string status_check Valid
proof
  fix st :: job_status
  assume "Valid st"
  then show "status_check (status_string st) = Some st"
    by (cases st) (simp_all add: status_check_def)
next
  fix s st
  assume "status_check s = Some st"
  then show "Valid st"
    by (auto simp: status_check_def split: if_splits)
qed

datatype attempt_status = AttemptRunning | AttemptSucceeded | AttemptFailed | AttemptCancelled

datatype step_status = StepRunning | StepSucceeded | StepFailed | StepSkipped

section \<open>Rows\<close>

record job =
  job_ID :: uuid
  job_Status :: job_status
  job_Pipeline :: string
  job_PipelineVersion :: string
  job_InputObjectKey :: string
  job_CorrelationID :: string
  job_AttemptCount :: int
  job_MaxAttempts :: int
  job_LastError :: err_text
  job_NextRetryAt :: "time option"
  job_CreatedAt :: time
  job_UpdatedAt :: time

definition CanRetry :: "job \<Rightarrow> bool" where
  "CanRetry j \<longleftrightarrow> job_AttemptCount j < job_MaxAttempts j"

record attempt =
  att_ID :: uuid
  att_JobID :: uuid
  att_Number :: int
  att_Status :: attempt_status
  att_Error :: err_text
  att_StartedAt :: time
  att_FinishedAt :: "time option"

record processing_step =
  step_ID :: uuid
  step_AttemptID :: uuid
  step_Name :: string
  step_Status :: step_status
  step_Duration :: duration
  step_Error :: err_text
  step_StartedAt :: time
  step_FinishedAt :: "time option"

record artifact =
  art_ID :: uuid
  art_JobID :: uuid
  art_Kind :: string
  art_ObjectKey :: string
  art_ContentType :: string
  art_SizeBytes :: int
  art_CreatedAt :: time

section \<open>The state machine\<close>

text \<open>The table \<open>allowedTransitions\<close>: the targets of each known state.\<close>

fun allowedTransitions :: "job_status \<Rightarrow> job_status list option" where
  "allowedTransitions StatusPending = Some [StatusQueued, StatusCancelled]"
| "allowedTransitions StatusQueued = Some [StatusProcessing, StatusCancelled]"
| "allowedTransitions StatusProcessing = Some [StatusCompleted, StatusFailed, StatusCancelled]"
| "allowedTransitions StatusFailed = Some [StatusRetrying]"
| "allowedTransitions StatusRetrying = Some [StatusQueued, StatusCancelled]"
| "allowedTransitions StatusCompleted = Some []"
| "allowedTransitions StatusCancelled = Some []"
| "allowedTransitions (UnknownStatus s) = None"

definition CanTransition :: "job_status \<Rightarrow> job_status \<Rightarrow> bool" where
  "CanTransition src dst =
     (case allowedTransitions src of None \<Rightarrow> False | Some targets \<Rightarrow> dst \<in> set targets)"

text \<open>\<open>ValidateTransition\<close> returns an error that wraps \<open>ErrInvalidTransition\<close>, or nil.\<close>

definition ValidateTransition :: "job_status \<Rightarrow> job_status \<Rightarrow> err option" where
  "ValidateTransition src dst =
     (if \<not> Valid src then
        Some (wrap_suffix (Sentinel ErrInvalidTransition)
          [Lit ''unknown source state '', Quoted (status_string src)])
      else if \<not> Valid dst then
        Some (wrap_suffix (Sentinel ErrInvalidTransition)
          [Lit ''unknown target state '', Quoted (status_string dst)])
      else if \<not> CanTransition src dst then
        Some (wrap_suffix (Sentinel ErrInvalidTransition)
          [Lit (status_string src), Lit '' -> '', Lit (status_string dst)])
      else None)"

section \<open>Lemmas\<close>

lemma CanTransition_simps [simp]:
  "CanTransition StatusPending s \<longleftrightarrow> s = StatusQueued \<or> s = StatusCancelled"
  "CanTransition StatusQueued s \<longleftrightarrow> s = StatusProcessing \<or> s = StatusCancelled"
  "CanTransition StatusProcessing s \<longleftrightarrow> s = StatusCompleted \<or> s = StatusFailed \<or> s = StatusCancelled"
  "CanTransition StatusFailed s \<longleftrightarrow> s = StatusRetrying"
  "CanTransition StatusRetrying s \<longleftrightarrow> s = StatusQueued \<or> s = StatusCancelled"
  "CanTransition StatusCompleted s \<longleftrightarrow> False"
  "CanTransition StatusCancelled s \<longleftrightarrow> False"
  "CanTransition (UnknownStatus t) s \<longleftrightarrow> False"
  by (auto simp: CanTransition_def)

lemma CanTransition_irrefl [simp]: "\<not> CanTransition s s"
  by (cases s) simp_all

lemma CanTransition_Valid: "CanTransition s t \<Longrightarrow> Valid s \<and> Valid t"
  by (cases s) auto

lemma ValidateTransition_None_iff: "ValidateTransition s t = None \<longleftrightarrow> CanTransition s t"
  by (auto simp: ValidateTransition_def dest: CanTransition_Valid)

lemma ValidateTransition_Some_Is:
  "ValidateTransition s t = Some e \<Longrightarrow> errors_Is ErrInvalidTransition e"
  by (auto simp: ValidateTransition_def split: if_splits)

lemma CanTransition_cancel_iff:
  "CanTransition s StatusCancelled \<longleftrightarrow>
   s \<in> {StatusPending, StatusQueued, StatusProcessing, StatusRetrying}"
  by (cases s) auto

text \<open>
  Progress along the machine: every transition except the one into RETRYING goes up.
\<close>

fun lifecycle_rank :: "job_status \<Rightarrow> nat" where
  "lifecycle_rank StatusPending = 0"
| "lifecycle_rank StatusRetrying = 0"
| "lifecycle_rank StatusQueued = 1"
| "lifecycle_rank StatusProcessing = 2"
| "lifecycle_rank _ = 3"

lemma CanTransition_rank:
  "CanTransition s t \<Longrightarrow> t \<noteq> StatusRetrying \<Longrightarrow> lifecycle_rank s < lifecycle_rank t"
  by (cases s) auto

definition forward :: "job_status \<Rightarrow> job_status \<Rightarrow> bool" where
  "forward s t \<longleftrightarrow> CanTransition s t \<and> t \<noteq> StatusRetrying"

lemma forward_tranclp_rank: "forward\<^sup>+\<^sup>+ s t \<Longrightarrow> lifecycle_rank s < lifecycle_rank t"
  by (induction rule: tranclp_induct) (auto simp: forward_def dest: CanTransition_rank)

lemma absorbing_rtranclp:
  assumes "CanTransition\<^sup>*\<^sup>* s t" and "s = StatusCompleted \<or> s = StatusCancelled"
  shows "t = s"
  using assms by (induction rule: rtranclp_induct) auto

text \<open>
  The machine's shape: COMPLETED and CANCELLED are final, nothing leads back to
  PENDING, FAILED can only be left to RETRYING and RETRYING only entered from FAILED, and
  the machine has no cycle that avoids RETRYING, so a job can be claimed again only after
  a recorded failure and a retry decision.
\<close>

theorem lifecycle_shape:
  "(CanTransition\<^sup>*\<^sup>* StatusCompleted t \<longrightarrow> t = StatusCompleted)
   \<and> (CanTransition\<^sup>*\<^sup>* StatusCancelled t \<longrightarrow> t = StatusCancelled)
   \<and> \<not> CanTransition s StatusPending
   \<and> (CanTransition s StatusRetrying \<longleftrightarrow> s = StatusFailed)
   \<and> (CanTransition StatusFailed t \<longleftrightarrow> t = StatusRetrying)
   \<and> (CanTransition s StatusProcessing \<longleftrightarrow> s = StatusQueued)
   \<and> \<not> forward\<^sup>+\<^sup>+ s s"
proof -
  have "\<not> CanTransition s StatusPending"
    "CanTransition s StatusRetrying \<longleftrightarrow> s = StatusFailed"
    "CanTransition s StatusProcessing \<longleftrightarrow> s = StatusQueued"
    by (cases s; simp)+
  then show ?thesis
    using absorbing_rtranclp forward_tranclp_rank [of s s] by auto
qed

theorem lifecycle_shape_witness:
  "CanTransition\<^sup>*\<^sup>* StatusCompleted StatusCompleted \<and> CanTransition StatusFailed StatusRetrying
   \<and> CanTransition StatusQueued StatusProcessing"
  using lifecycle_shape [of StatusCompleted StatusFailed]
    lifecycle_shape [of StatusRetrying StatusQueued] by auto

end
