(* ===== verification/Database.thy ===== *)
theory Database
  imports Lifecycle
begin

text \<open>
  The PostgreSQL tables of \<open>migrations/000001_init.up.sql\<close> and the SQL statements and
  transactions of \<open>internal/repository/jobs.go\<close>, each as a function on the tables that
  returns what the driver returns. Constraint violations are errors, and a failed statement
  or a rolled back transaction leaves the tables as they were.
\<close>

section \<open>Tables\<close>

record step_row =
  srow_ID :: uuid
  srow_AttemptID :: uuid
  srow_Name :: string
  srow_Status :: step_status
  srow_DurationMs :: int
  srow_Error :: err_text
  srow_StartedAt :: time
  srow_FinishedAt :: "time option"

record idem_row =
  ik_Key :: string
  ik_JobID :: uuid
  ik_RequestHash :: string
  ik_CreatedAt :: time

text \<open>
  \<open>collation\<close> is the sort key of the server's text collation, which ORDER BY uses on TEXT.
\<close>

record db =
  jobs :: "job list"
  attempts :: "attempt list"
  processing_steps :: "step_row list"
  artifacts :: "artifact list"
  idempotency_keys :: "idem_row list"
  collation :: "string \<Rightarrow> string"

definition empty_db :: db where
  "empty_db = \<lparr>jobs = [], attempts = [], processing_steps = [], artifacts = [],
     idempotency_keys = [], collation = (\<lambda>s. s)\<rparr>"

abbreviation job_of :: "db \<Rightarrow> uuid \<Rightarrow> job option" where
  "job_of d i \<equiv> row_of job_ID i (jobs d)"

abbreviation key_of :: "db \<Rightarrow> string \<Rightarrow> idem_row option" where
  "key_of d k \<equiv> row_of ik_Key k (idempotency_keys d)"

definition attempts_of :: "db \<Rightarrow> uuid \<Rightarrow> attempt list" where
  "attempts_of d i = filter (\<lambda>a. att_JobID a = i) (attempts d)"

section \<open>Parameters of the statements\<close>

record new_job_params =
  par_ID :: uuid
  par_Pipeline :: string
  par_PipelineVersion :: string
  par_InputObjectKey :: string
  par_CorrelationID :: string
  par_MaxAttempts :: int

record job_update =
  upd_To :: job_status
  upd_IncAttempt :: bool
  upd_SetLastError :: bool
  upd_LastError :: err_text
  upd_SetNextRetryAt :: bool
  upd_NextRetryAt :: time
  upd_ClearNextRetry :: bool

text \<open>A composite literal \<open>JobUpdate{To: s}\<close>: every other field has its zero value.\<close>

definition JobUpdate :: "job_status \<Rightarrow> job_update" where
  "JobUpdate s = \<lparr>upd_To = s, upd_IncAttempt = False, upd_SetLastError = False, upd_LastError = [],
     upd_SetNextRetryAt = False, upd_NextRetryAt = 0, upd_ClearNextRetry = False\<rparr>"

definition unique_violation :: err where
  "unique_violation = Foreign ''unique_violation''"

definition check_violation :: err where
  "check_violation = Foreign ''check_violation''"

definition foreign_key_violation :: err where
  "foreign_key_violation = Foreign ''foreign_key_violation''"

definition integer_out_of_range :: err where
  "integer_out_of_range = Foreign ''numeric_value_out_of_range''"

text \<open>
  Where a transaction failed: at BEGIN, at its first or second statement, or at COMMIT.
\<close>

datatype tx_stage = AtBegin | AtStatement nat | AtCommit

section \<open>Jobs\<close>

definition new_job_row :: "time \<Rightarrow> new_job_params \<Rightarrow> job" where
  "new_job_row now p = \<lparr>
     job_ID = par_ID p, job_Status = StatusPending, job_Pipeline = par_Pipeline p,
     job_PipelineVersion = par_PipelineVersion p, job_InputObjectKey = par_InputObjectKey p,
     job_CorrelationID = par_CorrelationID p, job_AttemptCount = 0,
     job_MaxAttempts = par_MaxAttempts p, job_LastError = [], job_NextRetryAt = None,
     job_CreatedAt = now, job_UpdatedAt = now\<rparr>"

definition sql_insert_job :: "time \<Rightarrow> new_job_params \<Rightarrow> db \<Rightarrow> (err + job) \<times> db" where
  "sql_insert_job now p d =
     (if \<not> fits_int32 (par_MaxAttempts p) then (Inl integer_out_of_range, d)
      else if par_MaxAttempts p < 1 then (Inl check_violation, d)
      else if job_of d (par_ID p) \<noteq> None then (Inl unique_violation, d)
      else let row = new_job_row now p in (Inr row, d\<lparr>jobs := jobs d @ [row]\<rparr>))"

text \<open>
  The keyed creation: insert the job, claim the key with ON CONFLICT DO NOTHING, commit.
  When another transaction owns the key no row comes back (\<open>None\<close>) and the program
  rolls back, so the inserted job is gone as well.
\<close>

definition tx_insert_job_with_key ::
    "time \<Rightarrow> new_job_params \<Rightarrow> string \<Rightarrow> string \<Rightarrow> db \<Rightarrow> (tx_stage \<times> err + job option) \<times> db" where
  "tx_insert_job_with_key now p key hash d =
     (case sql_insert_job now p d of
        (Inl e, _) \<Rightarrow> (Inl (AtStatement 0, e), d)
      | (Inr job, d') \<Rightarrow>
          (case key_of d' key of
             Some _ \<Rightarrow> (Inr None, d)
           | None \<Rightarrow>
               (Inr (Some job),
                d'\<lparr>idempotency_keys := idempotency_keys d' @
                     [\<lparr>ik_Key = key, ik_JobID = par_ID p, ik_RequestHash = hash, ik_CreatedAt = now\<rparr>]\<rparr>)))"

text \<open>
  \<open>UPDATE jobs SET ... WHERE id = k AND status = s RETURNING ...\<close>: the guarded update
  behind every transition. \<open>id\<close> is the primary key, so it meets at most one row.
\<close>

definition guarded_update :: "uuid \<Rightarrow> job_status \<Rightarrow> (job \<Rightarrow> job) \<Rightarrow> db \<Rightarrow> job option \<times> db" where
  "guarded_update k s f d =
     (case job_of d k of
        None \<Rightarrow> (None, d)
      | Some r \<Rightarrow>
          if job_Status r = s then (Some (f r), d\<lparr>jobs := map_row job_ID k f (jobs d)\<rparr>)
          else (None, d))"

definition updated_row :: "time \<Rightarrow> job_update \<Rightarrow> job \<Rightarrow> job" where
  "updated_row now u r = r\<lparr>
     job_Status := upd_To u,
     job_UpdatedAt := now,
     job_AttemptCount := job_AttemptCount r + (if upd_IncAttempt u then 1 else 0),
     job_LastError := (if upd_SetLastError u then upd_LastError u else job_LastError r),
     job_NextRetryAt :=
       (if upd_SetNextRetryAt u then Some (upd_NextRetryAt u)
        else if upd_ClearNextRetry u then None
        else job_NextRetryAt r)\<rparr>"

definition job_row_ok :: "job \<Rightarrow> err option" where
  "job_row_ok r =
     (if \<not> fits_int32 (job_AttemptCount r) then Some integer_out_of_range
      else if job_AttemptCount r < 0 \<or> job_MaxAttempts r < 1 \<or> \<not> Valid (job_Status r)
      then Some check_violation
      else None)"

definition sql_update_job ::
    "time \<Rightarrow> uuid \<Rightarrow> job_status \<Rightarrow> job_update \<Rightarrow> db \<Rightarrow> (err + job option) \<times> db" where
  "sql_update_job now k from_status u d =
     (case guarded_update k from_status (updated_row now u) d of
        (None, _) \<Rightarrow> (Inr None, d)
      | (Some r, d') \<Rightarrow>
          (case job_row_ok r of Some e \<Rightarrow> (Inl e, d) | None \<Rightarrow> (Inr (Some r), d')))"

section \<open>Attempts\<close>

definition claimed_row :: "time \<Rightarrow> job \<Rightarrow> job" where
  "claimed_row now r = r\<lparr>job_Status := StatusProcessing,
     job_AttemptCount := job_AttemptCount r + 1, job_UpdatedAt := now\<rparr>"

definition new_attempt_row :: "time \<Rightarrow> uuid \<Rightarrow> job \<Rightarrow> attempt" where
  "new_attempt_row now aid j = \<lparr>att_ID = aid, att_JobID = job_ID j, att_Number = job_AttemptCount j,
     att_Status = AttemptRunning, att_Error = [], att_StartedAt = now, att_FinishedAt = None\<rparr>"

definition sql_insert_attempt :: "attempt \<Rightarrow> db \<Rightarrow> (err + unit) \<times> db" where
  "sql_insert_attempt a d =
     (if att_Number a < 1 then (Inl check_violation, d)
      else if row_of att_ID (att_ID a) (attempts d) \<noteq> None then (Inl unique_violation, d)
      else if att_Number a \<in> att_Number ` set (attempts_of d (att_JobID a)) then (Inl unique_violation, d)
      else if job_of d (att_JobID a) = None then (Inl foreign_key_violation, d)
      else (Inr (), d\<lparr>attempts := attempts d @ [a]\<rparr>))"

text \<open>
  The worker's claim, one transaction: flip QUEUED to PROCESSING, count the attempt, insert
  its RUNNING row. \<open>None\<close> when the guard met no row; an error rolls everything back.
\<close>

definition tx_claim :: "time \<Rightarrow> uuid \<Rightarrow> uuid \<Rightarrow> db \<Rightarrow> (tx_stage \<times> err + (job \<times> attempt) option) \<times> db" where
  "tx_claim now k aid d =
     (case guarded_update k StatusQueued (claimed_row now) d of
        (None, _) \<Rightarrow> (Inr None, d)
      | (Some j, d') \<Rightarrow>
          (case job_row_ok j of
             Some e \<Rightarrow> (Inl (AtStatement 0, e), d)
           | None \<Rightarrow>
               let a = new_attempt_row now aid j in
               (case sql_insert_attempt a d' of
                  (Inl e, _) \<Rightarrow> (Inl (AtStatement 1, e), d)
                | (Inr _, d'') \<Rightarrow> (Inr (Some (j, a)), d''))))"

text \<open>The number of rows an UPDATE affected decides between success and \<open>ErrNotFound\<close>.\<close>

definition sql_finish_attempt ::
    "time \<Rightarrow> uuid \<Rightarrow> attempt_status \<Rightarrow> err_text \<Rightarrow> db \<Rightarrow> (err + nat) \<times> db" where
  "sql_finish_attempt now aid st msg d =
     (Inr (length (filter (\<lambda>a. att_ID a = aid) (attempts d))),
      d\<lparr>attempts := map_row att_ID aid
          (\<lambda>a. a\<lparr>att_Status := st, att_Error := msg, att_FinishedAt := Some now\<rparr>) (attempts d)\<rparr>)"

section \<open>Steps and artifacts\<close>

definition sql_insert_step :: "step_row \<Rightarrow> db \<Rightarrow> (err + unit) \<times> db" where
  "sql_insert_step s d =
     (if srow_DurationMs s < 0 then (Inl check_violation, d)
      else if row_of srow_ID (srow_ID s) (processing_steps d) \<noteq> None then (Inl unique_violation, d)
      else if row_of att_ID (srow_AttemptID s) (attempts d) = None then (Inl foreign_key_violation, d)
      else (Inr (), d\<lparr>processing_steps := processing_steps d @ [s]\<rparr>))"

abbreviation art_slot :: "artifact \<Rightarrow> uuid \<times> string" where
  "art_slot a \<equiv> (art_JobID a, art_ObjectKey a)"

definition sql_upsert_artifact :: "time \<Rightarrow> artifact \<Rightarrow> db \<Rightarrow> (err + unit) \<times> db" where
  "sql_upsert_artifact now a d =
     (if art_SizeBytes a < 0 then (Inl check_violation, d)
      else if job_of d (art_JobID a) = None then (Inl foreign_key_violation, d)
      else if row_of art_slot (art_slot a) (artifacts d) \<noteq> None then
        (Inr (), d\<lparr>artifacts := map_row art_slot (art_slot a)
           (\<lambda>r. r\<lparr>art_Kind := art_Kind a, art_ContentType := art_ContentType a,
                  art_SizeBytes := art_SizeBytes a\<rparr>) (artifacts d)\<rparr>)
      else if row_of art_ID (art_ID a) (artifacts d) \<noteq> None then (Inl unique_violation, d)
      else (Inr (), d\<lparr>artifacts := artifacts d @ [a\<lparr>art_CreatedAt := now\<rparr>]\<rparr>))"

definition sql_select_artifacts :: "uuid \<Rightarrow> db \<Rightarrow> artifact list" where
  "sql_select_artifacts k d =
     sort_key (\<lambda>a. (art_CreatedAt a, collation d (art_ObjectKey a)))
       (filter (\<lambda>a. art_JobID a = k) (artifacts d))"

text \<open>\<open>ORDER BY updated_at LIMIT n\<close>; the server refuses a negative limit.\<close>

definition sql_select_requeueable :: "time \<Rightarrow> int \<Rightarrow> db \<Rightarrow> err + job list" where
  "sql_select_requeueable cutoff limit d =
     (if limit < 0 then Inl (Foreign ''invalid_row_count_in_limit_clause'')
      else Inr (take (nat limit)
        (sort_key job_UpdatedAt
          (filter (\<lambda>r. job_Status r = StatusQueued \<and> job_UpdatedAt r < cutoff) (jobs d)))))"

section \<open>The guarded store behind the transitions\<close>

definition keeps_ID :: "(job \<Rightarrow> job) \<Rightarrow> bool" where
  "keeps_ID f \<longleftrightarrow> (\<forall>r. job_ID (f r) = job_ID r)"

interpretation job_store: guarded_store job_of job_Status guarded_update keeps_ID
proof
  fix f :: "job \<Rightarrow> job" and d k v q
  assume "keeps_ID f" "job_of d k = Some v" "job_Status v = q"
  then show "fst (guarded_update k q f d) = Some (f v) \<and>
      job_of (snd (guarded_update k q f d)) = (job_of d)(k \<mapsto> f v)"
    by (auto simp: guarded_update_def keeps_ID_def row_of_map_row fun_eq_iff)
next
  fix f :: "job \<Rightarrow> job" and d k q
  assume "\<not> (\<exists>v. job_of d k = Some v \<and> job_Status v = q)"
  then show "guarded_update k q f d = (None, d)"
    by (auto simp: guarded_update_def split: option.splits)
qed

lemma keeps_ID_rows [simp]: "keeps_ID (updated_row now u)" "keeps_ID (claimed_row now)"
  by (simp_all add: keeps_ID_def updated_row_def claimed_row_def)

end
