(* ===== verification/Effects.thy ===== *)
theory Effects
  imports Database
begin

text \<open>
  Programs that use the outside world. A program is a tree: it returns, panics, or performs
  one call (an SQL statement or transaction, an object store or queue operation, reading
  the clock, \<open>ctx.Err()\<close>, a random number, a metric) and goes on with the reply. A call is
  the unit of interleaving between goroutines, replicas and processes. \<open>step_prog\<close>
  performs one call on the world; an oracle supplies what the program does not control:
  the instant, random values, what a service answers, and whether the call fails before it
  took effect or after it did.
\<close>

section \<open>Replies of the outside world\<close>

text \<open>Errors of libraries, as far as the program looks into them.\<close>

datatype ext_error = ExtCanceled | ExtDeadline | ExtMinio string int | ExtOther string

fun ext_err :: "ext_error \<Rightarrow> err" where
  "ext_err ExtCanceled = Sentinel Canceled"
| "ext_err ExtDeadline = Sentinel DeadlineExceeded"
| "ext_err (ExtMinio code status) = MinioResponse code status"
| "ext_err (ExtOther m) = Foreign m"

text \<open>
  \<open>Lost\<close>: the call failed and had no effect. \<open>Unacked\<close>: it took effect, but the caller
  sees an error (a connection that breaks after COMMIT was sent).
\<close>

datatype fault = NoFault | Lost tx_stage ext_error | Unacked ext_error

datatype ctx_state = CtxLive | CtxCanceled | CtxDeadline

fun ctx_err :: "ctx_state \<Rightarrow> err option" where
  "ctx_err CtxLive = None"
| "ctx_err CtxCanceled = Some (Sentinel Canceled)"
| "ctx_err CtxDeadline = Some (Sentinel DeadlineExceeded)"

text \<open>What \<open>minio.ObjectInfo\<close> says of an object (the fields the program reads).\<close>

record object_meta =
  om_Size :: int
  om_ContentType :: string
  om_ETag :: string
  om_LastModified :: time

record outside =
  o_fault :: fault
  o_now :: time
  o_uuid :: uuid
  o_date :: "int \<times> int"
  o_ctx :: ctx_state
  o_rand :: int
  o_meta :: object_meta
  o_bytes :: string
  o_url :: string

text \<open>The collectors of \<open>internal/observability/metrics.go\<close> and what is recorded in them.\<close>

datatype metric =
    IncJobsCreated | IncJobsCompleted | IncJobsFailed | IncJobsRetried
  | ObserveQueueLatency duration | ObserveProcessing duration
  | WorkerStarted | WorkerFinished | IncProcessorError string | IncStorageError
  | ObserveHTTP string string string duration

section \<open>Programs\<close>

datatype (plugins del: quickcheck_random quickcheck_narrowing quickcheck_exhaustive) 'r prog =
    Return 'r
  | Panic
  | NewUUID "uuid \<Rightarrow> 'r prog"
  | TimeNow "time \<Rightarrow> 'r prog"
  | YearMonth "int \<times> int \<Rightarrow> 'r prog"
  | CtxErr "err option \<Rightarrow> 'r prog"
  | Int64N int "int \<Rightarrow> 'r prog"
  | Metric metric "'r prog"
  | InsertJob new_job_params "err + job \<Rightarrow> 'r prog"
  | InsertJobWithKey new_job_params string string "tx_stage \<times> err + job option \<Rightarrow> 'r prog"
  | SelectKey string "err + (uuid \<times> string) option \<Rightarrow> 'r prog"
  | SelectJob uuid "err + job option \<Rightarrow> 'r prog"
  | UpdateJob uuid job_status job_update "err + job option \<Rightarrow> 'r prog"
  | ExistsJob uuid "err + bool \<Rightarrow> 'r prog"
  | ClaimJob uuid uuid "tx_stage \<times> err + (job \<times> attempt) option \<Rightarrow> 'r prog"
  | UpdateAttempt uuid attempt_status err_text "err + nat \<Rightarrow> 'r prog"
  | InsertStep step_row "err + unit \<Rightarrow> 'r prog"
  | UpsertArtifact artifact "err + unit \<Rightarrow> 'r prog"
  | SelectArtifacts uuid "tx_stage \<times> err + artifact list \<Rightarrow> 'r prog"
  | SelectRequeueable time int "tx_stage \<times> err + job list \<Rightarrow> 'r prog"
  | MinioStat string "err + object_meta \<Rightarrow> 'r prog"
  | MinioGet string "err + unit \<Rightarrow> 'r prog"
  | ReadBody int "err + string \<Rightarrow> 'r prog"
  | MinioPut string string int string "err + unit \<Rightarrow> 'r prog"
  | MinioRemove string "err + unit \<Rightarrow> 'r prog"
  | MinioPresign bool string duration "err + string \<Rightarrow> 'r prog"
  | PublishMsg string string "err + unit \<Rightarrow> 'r prog"

primrec bind_prog :: "'a prog \<Rightarrow> ('a \<Rightarrow> 'b prog) \<Rightarrow> 'b prog" where
  "bind_prog (Return r) f = f r"
| "bind_prog Panic f = Panic"
| "bind_prog (NewUUID k) f = NewUUID (\<lambda>x. bind_prog (k x) f)"
| "bind_prog (TimeNow k) f = TimeNow (\<lambda>x. bind_prog (k x) f)"
| "bind_prog (YearMonth k) f = YearMonth (\<lambda>x. bind_prog (k x) f)"
| "bind_prog (CtxErr k) f = CtxErr (\<lambda>x. bind_prog (k x) f)"
| "bind_prog (Int64N n k) f = Int64N n (\<lambda>x. bind_prog (k x) f)"
| "bind_prog (Metric m k) f = Metric m (bind_prog k f)"
| "bind_prog (InsertJob p k) f = InsertJob p (\<lambda>x. bind_prog (k x) f)"
| "bind_prog (InsertJobWithKey p i h k) f = InsertJobWithKey p i h (\<lambda>x. bind_prog (k x) f)"
| "bind_prog (SelectKey i k) f = SelectKey i (\<lambda>x. bind_prog (k x) f)"
| "bind_prog (SelectJob i k) f = SelectJob i (\<lambda>x. bind_prog (k x) f)"
| "bind_prog (UpdateJob i s u k) f = UpdateJob i s u (\<lambda>x. bind_prog (k x) f)"
| "bind_prog (ExistsJob i k) f = ExistsJob i (\<lambda>x. bind_prog (k x) f)"
| "bind_prog (ClaimJob i a k) f = ClaimJob i a (\<lambda>x. bind_prog (k x) f)"
| "bind_prog (UpdateAttempt a s m k) f = UpdateAttempt a s m (\<lambda>x. bind_prog (k x) f)"
| "bind_prog (InsertStep s k) f = InsertStep s (\<lambda>x. bind_prog (k x) f)"
| "bind_prog (UpsertArtifact a k) f = UpsertArtifact a (\<lambda>x. bind_prog (k x) f)"
| "bind_prog (SelectArtifacts i k) f = SelectArtifacts i (\<lambda>x. bind_prog (k x) f)"
| "bind_prog (SelectRequeueable c l k) f = SelectRequeueable c l (\<lambda>x. bind_prog (k x) f)"
| "bind_prog (MinioStat i k) f = MinioStat i (\<lambda>x. bind_prog (k x) f)"
| "bind_prog (MinioGet i k) f = MinioGet i (\<lambda>x. bind_prog (k x) f)"
| "bind_prog (ReadBody n k) f = ReadBody n (\<lambda>x. bind_prog (k x) f)"
| "bind_prog (MinioPut i b n c k) f = MinioPut i b n c (\<lambda>x. bind_prog (k x) f)"
| "bind_prog (MinioRemove i k) f = MinioRemove i (\<lambda>x. bind_prog (k x) f)"
| "bind_prog (MinioPresign g i e k) f = MinioPresign g i e (\<lambda>x. bind_prog (k x) f)"
| "bind_prog (PublishMsg i b k) f = PublishMsg i b (\<lambda>x. bind_prog (k x) f)"

lemma bind_prog_Return_right [simp]: "bind_prog p Return = p"
  by (induction p) (auto simp: fun_eq_iff)

lemma bind_prog_assoc: "bind_prog (bind_prog p f) g = bind_prog p (\<lambda>x. bind_prog (f x) g)"
  by (induction p) (auto simp: fun_eq_iff)

text \<open>A program is done when it has returned or panicked.\<close>

fun is_done :: "'r prog \<Rightarrow> bool" where
  "is_done (Return r) \<longleftrightarrow> True"
| "is_done Panic \<longleftrightarrow> True"
| "is_done _ \<longleftrightarrow> False"

lemma is_done_cases: "is_done p \<longleftrightarrow> (\<exists>r. p = Return r) \<or> p = Panic"
  by (cases p) auto

section \<open>The world and one call\<close>

text \<open>
  \<open>published\<close> lists the messages the queue has accepted (message id and payload) and
  \<open>stored\<close> the objects written (key, bytes, declared size, content type).
\<close>

record world =
  w_db :: db
  published :: "(string \<times> string) list"
  stored :: "(string \<times> string \<times> int \<times> string) list"
  metrics :: "metric list"

definition empty_world :: world where
  "empty_world = \<lparr>w_db = empty_db, published = [], stored = [], metrics = []\<rparr>"

text \<open>A single SQL statement, a transaction, and a read under a fault.\<close>

fun faulty_sql :: "fault \<Rightarrow> (db \<Rightarrow> (err + 'a) \<times> db) \<Rightarrow> db \<Rightarrow> (err + 'a) \<times> db" where
  "faulty_sql NoFault f d = f d"
| "faulty_sql (Lost st e) f d = (Inl (ext_err e), d)"
| "faulty_sql (Unacked e) f d = (Inl (ext_err e), snd (f d))"

fun faulty_tx :: "fault \<Rightarrow> (db \<Rightarrow> (tx_stage \<times> err + 'a) \<times> db) \<Rightarrow> db \<Rightarrow> (tx_stage \<times> err + 'a) \<times> db" where
  "faulty_tx NoFault f d = f d"
| "faulty_tx (Lost st e) f d = (Inl (st, ext_err e), d)"
| "faulty_tx (Unacked e) f d = (Inl (AtCommit, ext_err e), snd (f d))"

fun faulty_read :: "fault \<Rightarrow> 'a \<Rightarrow> err + 'a" where
  "faulty_read NoFault x = Inr x"
| "faulty_read (Lost st e) x = Inl (ext_err e)"
| "faulty_read (Unacked e) x = Inl (ext_err e)"

text \<open>
  A query for several rows fails when it is sent (\<open>AtBegin\<close>), when a row is scanned
  (\<open>AtStatement\<close>) or when the iteration ends (\<open>AtCommit\<close>).
\<close>

fun faulty_rows :: "fault \<Rightarrow> err + 'a \<Rightarrow> tx_stage \<times> err + 'a" where
  "faulty_rows NoFault (Inr x) = Inr x"
| "faulty_rows NoFault (Inl e) = Inl (AtCommit, e)"
| "faulty_rows (Lost st e) x = Inl (st, ext_err e)"
| "faulty_rows (Unacked e) x = Inl (AtCommit, ext_err e)"

text \<open>A write to a service that keeps a log: the reply and whether it was written.\<close>

definition faulty_write :: "fault \<Rightarrow> 'a \<Rightarrow> 'a list \<Rightarrow> (err + unit) \<times> 'a list" where
  "faulty_write f x log =
     (case f of NoFault \<Rightarrow> (Inr (), log @ [x])
      | Lost st e \<Rightarrow> (Inl (ext_err e), log)
      | Unacked e \<Rightarrow> (Inl (ext_err e), log @ [x]))"

definition on_db :: "world \<Rightarrow> ('a \<times> db) \<Rightarrow> ('a \<Rightarrow> 'r prog) \<Rightarrow> 'r prog \<times> world" where
  "on_db w rd k = (k (fst rd), w\<lparr>w_db := snd rd\<rparr>)"

text \<open>
  \<open>YearMonth\<close> replies a year and a month from 1 to 12, \<open>Int64N n\<close> a number from 0 to
  \<open>n - 1\<close>, \<open>ReadBody n\<close> at most \<open>n\<close> bytes.
\<close>

primrec step_prog :: "outside \<Rightarrow> 'r prog \<Rightarrow> world \<Rightarrow> 'r prog \<times> world" where
  "step_prog oc (Return r) w = (Return r, w)"
| "step_prog oc Panic w = (Panic, w)"
| "step_prog oc (NewUUID k) w = (k (o_uuid oc), w)"
| "step_prog oc (TimeNow k) w = (k (o_now oc), w)"
| "step_prog oc (YearMonth k) w = (k (fst (o_date oc), snd (o_date oc) mod 12 + 1), w)"
| "step_prog oc (CtxErr k) w = (k (ctx_err (o_ctx oc)), w)"
| "step_prog oc (Int64N n k) w = (k (o_rand oc mod n), w)"
| "step_prog oc (Metric m k) w = (k, w\<lparr>metrics := metrics w @ [m]\<rparr>)"
| "step_prog oc (InsertJob p k) w =
     on_db w (faulty_sql (o_fault oc) (sql_insert_job (o_now oc) p) (w_db w)) k"
| "step_prog oc (InsertJobWithKey p i h k) w =
     on_db w (faulty_tx (o_fault oc) (tx_insert_job_with_key (o_now oc) p i h) (w_db w)) k"
| "step_prog oc (SelectKey i k) w =
     (k (faulty_read (o_fault oc)
          (map_option (\<lambda>r. (ik_JobID r, ik_RequestHash r)) (key_of (w_db w) i))), w)"
| "step_prog oc (SelectJob i k) w = (k (faulty_read (o_fault oc) (job_of (w_db w) i)), w)"
| "step_prog oc (UpdateJob i s u k) w =
     on_db w (faulty_sql (o_fault oc) (sql_update_job (o_now oc) i s u) (w_db w)) k"
| "step_prog oc (ExistsJob i k) w =
     (k (faulty_read (o_fault oc) (job_of (w_db w) i \<noteq> None)), w)"
| "step_prog oc (ClaimJob i a k) w =
     on_db w (faulty_tx (o_fault oc) (tx_claim (o_now oc) i a) (w_db w)) k"
| "step_prog oc (UpdateAttempt a s m k) w =
     on_db w (faulty_sql (o_fault oc) (sql_finish_attempt (o_now oc) a s m) (w_db w)) k"
| "step_prog oc (InsertStep s k) w =
     on_db w (faulty_sql (o_fault oc) (sql_insert_step (s\<lparr>srow_StartedAt := o_now oc\<rparr>)) (w_db w)) k"
| "step_prog oc (UpsertArtifact a k) w =
     on_db w (faulty_sql (o_fault oc) (sql_upsert_artifact (o_now oc) a) (w_db w)) k"
| "step_prog oc (SelectArtifacts i k) w =
     (k (faulty_rows (o_fault oc) (Inr (sql_select_artifacts i (w_db w)))), w)"
| "step_prog oc (SelectRequeueable c l k) w =
     (k (faulty_rows (o_fault oc) (sql_select_requeueable c l (w_db w))), w)"
| "step_prog oc (MinioStat i k) w = (k (faulty_read (o_fault oc) (o_meta oc)), w)"
| "step_prog oc (MinioGet i k) w = (k (faulty_read (o_fault oc) ()), w)"
| "step_prog oc (ReadBody n k) w = (k (faulty_read (o_fault oc) (take (nat n) (o_bytes oc))), w)"
| "step_prog oc (MinioPut i b n c k) w =
     (let (r, log) = faulty_write (o_fault oc) (i, b, n, c) (stored w)
      in (k r, w\<lparr>stored := log\<rparr>))"
| "step_prog oc (MinioRemove i k) w = (k (faulty_read (o_fault oc) ()), w)"
| "step_prog oc (MinioPresign g i e k) w = (k (faulty_read (o_fault oc) (o_url oc)), w)"
| "step_prog oc (PublishMsg i b k) w =
     (let (r, log) = faulty_write (o_fault oc) (i, b) (published w)
      in (k r, w\<lparr>published := log\<rparr>))"

lemma step_prog_bind:
  "\<not> is_done p \<Longrightarrow> step_prog oc (bind_prog p f) w =
     (bind_prog (fst (step_prog oc p w)) f, snd (step_prog oc p w))"
  by (cases p) (simp_all add: on_db_def Let_def split: prod.splits)

lemma is_done_bind: "\<not> is_done p \<Longrightarrow> \<not> is_done (bind_prog p f)"
  by (cases p) simp_all

text \<open>A deferred \<open>recover\<close> turns a panic into the result \<open>d\<close>.\<close>

primrec recover_prog :: "'a prog \<Rightarrow> 'a \<Rightarrow> 'a prog" where
  "recover_prog (Return r) d = Return r"
| "recover_prog Panic d = Return d"
| "recover_prog (NewUUID k) d = NewUUID (\<lambda>x. recover_prog (k x) d)"
| "recover_prog (TimeNow k) d = TimeNow (\<lambda>x. recover_prog (k x) d)"
| "recover_prog (YearMonth k) d = YearMonth (\<lambda>x. recover_prog (k x) d)"
| "recover_prog (CtxErr k) d = CtxErr (\<lambda>x. recover_prog (k x) d)"
| "recover_prog (Int64N n k) d = Int64N n (\<lambda>x. recover_prog (k x) d)"
| "recover_prog (Metric m k) d = Metric m (recover_prog k d)"
| "recover_prog (InsertJob p k) d = InsertJob p (\<lambda>x. recover_prog (k x) d)"
| "recover_prog (InsertJobWithKey p i h k) d = InsertJobWithKey p i h (\<lambda>x. recover_prog (k x) d)"
| "recover_prog (SelectKey i k) d = SelectKey i (\<lambda>x. recover_prog (k x) d)"
| "recover_prog (SelectJob i k) d = SelectJob i (\<lambda>x. recover_prog (k x) d)"
| "recover_prog (UpdateJob i s u k) d = UpdateJob i s u (\<lambda>x. recover_prog (k x) d)"
| "recover_prog (ExistsJob i k) d = ExistsJob i (\<lambda>x. recover_prog (k x) d)"
| "recover_prog (ClaimJob i a k) d = ClaimJob i a (\<lambda>x. recover_prog (k x) d)"
| "recover_prog (UpdateAttempt a s m k) d = UpdateAttempt a s m (\<lambda>x. recover_prog (k x) d)"
| "recover_prog (InsertStep s k) d = InsertStep s (\<lambda>x. recover_prog (k x) d)"
| "recover_prog (UpsertArtifact a k) d = UpsertArtifact a (\<lambda>x. recover_prog (k x) d)"
| "recover_prog (SelectArtifacts i k) d = SelectArtifacts i (\<lambda>x. recover_prog (k x) d)"
| "recover_prog (SelectRequeueable c l k) d = SelectRequeueable c l (\<lambda>x. recover_prog (k x) d)"
| "recover_prog (MinioStat i k) d = MinioStat i (\<lambda>x. recover_prog (k x) d)"
| "recover_prog (MinioGet i k) d = MinioGet i (\<lambda>x. recover_prog (k x) d)"
| "recover_prog (ReadBody n k) d = ReadBody n (\<lambda>x. recover_prog (k x) d)"
| "recover_prog (MinioPut i b n c k) d = MinioPut i b n c (\<lambda>x. recover_prog (k x) d)"
| "recover_prog (MinioRemove i k) d = MinioRemove i (\<lambda>x. recover_prog (k x) d)"
| "recover_prog (MinioPresign g i e k) d = MinioPresign g i e (\<lambda>x. recover_prog (k x) d)"
| "recover_prog (PublishMsg i b k) d = PublishMsg i b (\<lambda>x. recover_prog (k x) d)"

lemma step_recover:
  "\<not> is_done p \<Longrightarrow> step_prog oc (recover_prog p r) w =
     (recover_prog (fst (step_prog oc p w)) r, snd (step_prog oc p w))"
  by (cases p) (simp_all add: on_db_def Let_def split: prod.splits)

lemma is_done_recover [simp]: "is_done (recover_prog p r) \<longleftrightarrow> is_done p"
  by (cases p) simp_all

section \<open>Running a program alone\<close>

text \<open>One call per oracle of the schedule, until the program is done.\<close>

fun run :: "outside list \<Rightarrow> 'r prog \<Rightarrow> world \<Rightarrow> 'r prog \<times> world" where
  "run [] p w = (p, w)"
| "run (oc # os) p w = (if is_done p then (p, w) else run os (fst (step_prog oc p w)) (snd (step_prog oc p w)))"

lemma run_done [simp]: "is_done p \<Longrightarrow> run os p w = (p, w)"
  by (cases os) auto

lemma run_append: "run (os @ os') p w = run os' (fst (run os p w)) (snd (run os p w))"
  by (induction os arbitrary: p w) auto

end
