(* ===== verification/Repository.thy ===== *)
theory Repository
  imports Effects
begin

text \<open>
  \<open>internal/repository/jobs.go\<close>: the methods of \<open>JobRepository\<close> as programs over the SQL
  of \<open>Database\<close>. A Go result \<open>(T, error)\<close> is a sum, \<open>Inl\<close> the error.
\<close>

section \<open>The methods\<close>

text \<open>The error of a query that finds no row, \<open>pgx.ErrNoRows\<close>, where it is passed on.\<close>

definition pgx_ErrNoRows :: err where
  "pgx_ErrNoRows = Foreign ''no rows in result set''"

definition insertJob :: "new_job_params \<Rightarrow> (err + job) prog" where
  "insertJob p = InsertJob p Return"

definition GetJob :: "uuid \<Rightarrow> (err + job) prog" where
  "GetJob i = SelectJob i (\<lambda>r. Return
     (case r of
        Inl e \<Rightarrow> Inl e
      | Inr None \<Rightarrow> Inl (Sentinel ErrNotFound)
      | Inr (Some job) \<Rightarrow> Inr job))"

definition resolveExisting :: "string \<Rightarrow> string \<Rightarrow> (err + job \<times> bool) prog" where
  "resolveExisting key requestHash = SelectKey key (\<lambda>r.
     case r of
       Inl e \<Rightarrow> Return (Inl (wrap_prefix ''lookup idempotency key'' e))
     | Inr None \<Rightarrow> Return (Inl (wrap_prefix ''lookup idempotency key'' pgx_ErrNoRows))
     | Inr (Some (existingID, storedHash)) \<Rightarrow>
         if storedHash \<noteq> requestHash then Return (Inl (Sentinel ErrIdempotencyConflict))
         else bind_prog (GetJob existingID) (\<lambda>g. Return
           (case g of Inl e \<Rightarrow> Inl e | Inr job \<Rightarrow> Inr (job, False))))"

definition repo_CreateJob :: "new_job_params \<Rightarrow> string \<Rightarrow> string \<Rightarrow> (err + job \<times> bool) prog" where
  "repo_CreateJob p idempotencyKey requestHash =
     (if idempotencyKey = '''' then
        bind_prog (insertJob p) (\<lambda>r. Return
          (case r of Inl e \<Rightarrow> Inl e | Inr job \<Rightarrow> Inr (job, True)))
      else InsertJobWithKey p idempotencyKey requestHash (\<lambda>r.
        case r of
          Inl (AtBegin, e) \<Rightarrow> Return (Inl (wrap_prefix ''begin tx'' e))
        | Inl (AtStatement n, e) \<Rightarrow>
            Return (Inl (if n = 0 then e else wrap_prefix ''claim idempotency key'' e))
        | Inl (AtCommit, e) \<Rightarrow> Return (Inl (wrap_prefix ''commit tx'' e))
        | Inr (Some job) \<Rightarrow> Return (Inr (job, True))
        | Inr None \<Rightarrow> resolveExisting idempotencyKey requestHash))"

definition classifyMissingUpdate :: "uuid \<Rightarrow> err prog" where
  "classifyMissingUpdate i = ExistsJob i (\<lambda>r. Return
     (case r of
        Inl e \<Rightarrow> wrap_prefix ''classify update'' e
      | Inr found \<Rightarrow> if found then Sentinel ErrConflict else Sentinel ErrNotFound))"

definition UpdateJobStatus :: "uuid \<Rightarrow> job_status \<Rightarrow> job_update \<Rightarrow> (err + job) prog" where
  "UpdateJobStatus i from_status u =
     (case ValidateTransition from_status (upd_To u) of
        Some e \<Rightarrow> Return (Inl e)
      | None \<Rightarrow> UpdateJob i from_status u (\<lambda>r.
          case r of
            Inl e \<Rightarrow> Return (Inl e)
          | Inr (Some job) \<Rightarrow> Return (Inr job)
          | Inr None \<Rightarrow> bind_prog (classifyMissingUpdate i) (\<lambda>e. Return (Inl e))))"

text \<open>
  The attempt's id is drawn inside the transaction, between its two statements; drawing it
  just before changes nothing that another program can see.
\<close>

definition BeginAttempt :: "uuid \<Rightarrow> (err + job \<times> attempt) prog" where
  "BeginAttempt jobID = NewUUID (\<lambda>aid. ClaimJob jobID aid (\<lambda>r.
     case r of
       Inl (AtBegin, e) \<Rightarrow> Return (Inl (wrap_prefix ''begin tx'' e))
     | Inl (AtStatement n, e) \<Rightarrow> Return (Inl (if n = 0 then e else wrap_prefix ''insert attempt'' e))
     | Inl (AtCommit, e) \<Rightarrow> Return (Inl (wrap_prefix ''commit tx'' e))
     | Inr None \<Rightarrow> bind_prog (classifyMissingUpdate jobID) (\<lambda>e. Return (Inl e))
     | Inr (Some (job, attempt)) \<Rightarrow> Return (Inr (job, attempt))))"

definition FinishAttempt :: "uuid \<Rightarrow> attempt_status \<Rightarrow> err_text \<Rightarrow> err option prog" where
  "FinishAttempt attemptID st errMsg = UpdateAttempt attemptID st errMsg (\<lambda>r. Return
     (case r of
        Inl e \<Rightarrow> Some (wrap_prefix ''finish attempt'' e)
      | Inr n \<Rightarrow> if n = 0 then Some (Sentinel ErrNotFound) else None))"

text \<open>Go's integer division truncates towards zero; \<open>Duration.Milliseconds\<close> divides by 10^6.\<close>

definition go_quot :: "int \<Rightarrow> int \<Rightarrow> int" where
  "go_quot n d = (let q = abs n div abs d in if (n < 0) = (d < 0) then q else - q)"

definition step_row_of :: "processing_step \<Rightarrow> uuid \<Rightarrow> step_row" where
  "step_row_of s i = \<lparr>srow_ID = i, srow_AttemptID = step_AttemptID s, srow_Name = step_Name s,
     srow_Status = step_Status s, srow_DurationMs = go_quot (step_Duration s) 1000000,
     srow_Error = step_Error s, srow_StartedAt = 0, srow_FinishedAt = step_FinishedAt s\<rparr>"

definition AddProcessingStep :: "processing_step \<Rightarrow> err option prog" where
  "AddProcessingStep s =
     (let insert_step = (\<lambda>i. InsertStep (step_row_of s i) (\<lambda>r. Return
            (case r of Inl e \<Rightarrow> Some (wrap_prefix ''insert processing step'' e) | Inr _ \<Rightarrow> None)))
      in if step_ID s = uuid_Nil then NewUUID insert_step else insert_step (step_ID s))"

definition AddArtifact :: "artifact \<Rightarrow> err option prog" where
  "AddArtifact a =
     (let upsert = (\<lambda>i. UpsertArtifact (a\<lparr>art_ID := i\<rparr>) (\<lambda>r. Return
            (case r of Inl e \<Rightarrow> Some (wrap_prefix ''insert artifact'' e) | Inr _ \<Rightarrow> None)))
      in if art_ID a = uuid_Nil then NewUUID upsert else upsert (art_ID a))"

fun rows_error :: "string \<Rightarrow> tx_stage \<times> err \<Rightarrow> err" where
  "rows_error what (AtBegin, e) = wrap_prefix (''query '' @ what) e"
| "rows_error what (AtStatement n, e) = wrap_prefix (''scan '' @ what) e"
| "rows_error what (AtCommit, e) = wrap_prefix (''iterate '' @ what) e"

definition repo_ListArtifacts :: "uuid \<Rightarrow> (err + artifact list) prog" where
  "repo_ListArtifacts jobID = SelectArtifacts jobID (\<lambda>r. Return
     (case r of
        Inl (AtStatement n, e) \<Rightarrow> Inl (wrap_prefix ''scan artifact'' e)
      | Inl se \<Rightarrow> Inl (rows_error ''artifacts'' se)
      | Inr out \<Rightarrow> Inr out))"

definition ListRequeueable :: "time \<Rightarrow> int \<Rightarrow> (err + job list) prog" where
  "ListRequeueable cutoff limit = SelectRequeueable cutoff limit (\<lambda>r. Return
     (case r of Inl se \<Rightarrow> Inl (rows_error ''requeueable'' se) | Inr out \<Rightarrow> Inr out))"

end
