(* ===== verification/ObjectStore.thy ===== *)
theory ObjectStore
  imports Keys Repository
begin

text \<open>
  \<open>internal/storage/minio.go\<close> over the interface of \<open>internal/storage/store.go\<close>: the
  object store as the program uses it, over the SDK's calls.
\<close>

text \<open>\<open>fmt.Errorf("<op> %q: %w", key, err)\<close>.\<close>

definition wrap_keyed :: "string \<Rightarrow> string \<Rightarrow> err \<Rightarrow> err" where
  "wrap_keyed op key e = WrapErr ([Lit op, Lit '' '', Quoted key, Lit '': ''] @ Error e) [e]"

definition isNotFound :: "err \<Rightarrow> bool" where
  "isNotFound e =
     (case as_MinioResponse e of
        Some (code, status) \<Rightarrow> code = ''NoSuchKey'' \<or> status = 404
      | None \<Rightarrow> False)"

definition store_Stat :: "string \<Rightarrow> (err + object_info) prog" where
  "store_Stat key = MinioStat key (\<lambda>r. Return
     (case r of
        Inl e \<Rightarrow> Inl (if isNotFound e then Sentinel ErrObjectNotFound else wrap_keyed ''stat'' key e)
      | Inr info \<Rightarrow> Inr \<lparr>oi_Key = key, oi_Size = om_Size info, oi_ContentType = om_ContentType info,
          oi_ETag = om_ETag info, oi_LastModified = om_LastModified info\<rparr>))"

text \<open>A successful \<open>Get\<close> yields a reader; the bytes come with \<open>ReadBody\<close>.\<close>

definition store_Get :: "string \<Rightarrow> err option prog" where
  "store_Get key = bind_prog (store_Stat key) (\<lambda>s.
     case s of
       Inl e \<Rightarrow> Return (Some e)
     | Inr _ \<Rightarrow> MinioGet key (\<lambda>r. Return
         (case r of Inl e \<Rightarrow> Some (wrap_keyed ''get'' key e) | Inr _ \<Rightarrow> None)))"

definition store_Put :: "string \<Rightarrow> string \<Rightarrow> int \<Rightarrow> string \<Rightarrow> err option prog" where
  "store_Put key body n contentType = MinioPut key body n contentType (\<lambda>r. Return
     (case r of Inl e \<Rightarrow> Some (wrap_keyed ''put'' key e) | Inr _ \<Rightarrow> None))"

definition store_Delete :: "string \<Rightarrow> err option prog" where
  "store_Delete key = MinioRemove key (\<lambda>r. Return
     (case r of Inl e \<Rightarrow> Some (wrap_keyed ''delete'' key e) | Inr _ \<Rightarrow> None))"

definition PresignUpload :: "string \<Rightarrow> duration \<Rightarrow> (err + string) prog" where
  "PresignUpload key expiry = MinioPresign True key expiry (\<lambda>r. Return
     (case r of Inl e \<Rightarrow> Inl (wrap_keyed ''presign upload'' key e) | Inr u \<Rightarrow> Inr u))"

definition PresignDownload :: "string \<Rightarrow> duration \<Rightarrow> (err + string) prog" where
  "PresignDownload key expiry = MinioPresign False key expiry (\<lambda>r. Return
     (case r of Inl e \<Rightarrow> Inl (wrap_keyed ''presign download'' key e) | Inr u \<Rightarrow> Inr u))"

lemma errors_Is_wrap_keyed [simp]: "errors_Is s (wrap_keyed op key e) \<longleftrightarrow> errors_Is s e"
  by (simp add: wrap_keyed_def)

end
