(* ===== verification/Messaging.thy ===== *)
theory Messaging
  imports Effects
begin

text \<open>
  The queue message and its publisher: \<open>internal/messaging/messaging.go\<close> and
  \<open>internal/messaging/publisher.go\<close>. The UUID library and the JSON encoding of a message
  are parameters, gathered in one record.
\<close>

record job_message =
  msg_JobID :: string
  msg_AttemptID :: string
  msg_Pipeline :: string
  msg_PipelineVersion :: string
  msg_CorrelationID :: string

record library =
  uuid_String :: "uuid \<Rightarrow> string"
  uuid_Parse :: "string \<Rightarrow> uuid option"
  json_Marshal :: "job_message \<Rightarrow> err + string"
  json_Unmarshal :: "string \<Rightarrow> job_message option"

text \<open>
  The message's identifier for the queue's deduplication is the job's identifier.
\<close>

definition Publish :: "library \<Rightarrow> job_message \<Rightarrow> err option prog" where
  "Publish lib m =
     (case json_Marshal lib m of
        Inl e \<Rightarrow> Return (Some (wrap_prefix ''marshal job message'' e))
      | Inr payload \<Rightarrow> PublishMsg (msg_JobID m) payload (\<lambda>r. Return
          (case r of
             Inl e \<Rightarrow> Some (WrapErr ([Lit ''publish job '', Lit (msg_JobID m), Lit '': ''] @ Error e) [e])
           | Inr _ \<Rightarrow> None)))"

text \<open>The message that points to a job, as the service and the requeuer build it.\<close>

definition message_for :: "library \<Rightarrow> job \<Rightarrow> job_message" where
  "message_for lib j = \<lparr>msg_JobID = uuid_String lib (job_ID j), msg_AttemptID = '''',
     msg_Pipeline = job_Pipeline j, msg_PipelineVersion = job_PipelineVersion j,
     msg_CorrelationID = job_CorrelationID j\<rparr>"

end
