(* ===== verification/Service.thy ===== *)
theory Service
  imports ObjectStore Messaging Sha256
begin

text \<open>
  \<open>internal/jobs/service.go\<close>: uploads, idempotent job creation and enqueuing, queries,
  cancellation.
\<close>

section \<open>The service\<close>

record service_config =
  cfg_MaxAttempts :: int
  cfg_PresignExpiry :: duration
  cfg_MaxUploadBytes :: int

record service =
  svc_lib :: library
  svc_maxAttempts :: int
  svc_presignExpiry :: duration
  svc_maxUploadBytes :: int

definition NewService :: "library \<Rightarrow> service_config \<Rightarrow> service" where
  "NewService lib cfg = \<lparr>svc_lib = lib,
     svc_maxAttempts = (if cfg_MaxAttempts cfg < 1 then 1 else cfg_MaxAttempts cfg),
     svc_presignExpiry = cfg_PresignExpiry cfg, svc_maxUploadBytes = cfg_MaxUploadBytes cfg\<rparr>"

record upload =
  up_UploadID :: string
  up_ObjectKey :: string
  up_UploadURL :: string
  up_ExpiresIn :: duration

record create_upload_input =
  cui_ContentType :: string
  cui_SizeBytes :: int

record create_job_input =
  cji_UploadID :: string
  cji_Pipeline :: string
  cji_PipelineVersion :: string
  cji_IdempotencyKey :: string
  cji_CorrelationID :: string

definition validation_error :: "err \<Rightarrow> err" where
  "validation_error e = wrap_both (Sentinel ErrValidation) e"

definition validation_message :: "string \<Rightarrow> err" where
  "validation_message m = wrap_suffix (Sentinel ErrValidation) [Lit m]"

definition CreateUpload :: "service \<Rightarrow> create_upload_input \<Rightarrow> (err + upload) prog" where
  "CreateUpload s inp =
     (case ValidateUploadRequest (cui_ContentType inp) (cui_SizeBytes inp) (svc_maxUploadBytes s) of
        Some e \<Rightarrow> Return (Inl (validation_error e))
      | None \<Rightarrow>
     (case ExtensionForContentType (cui_ContentType inp) of
        Inl e \<Rightarrow> Return (Inl (validation_error e))
      | Inr ext \<Rightarrow> YearMonth (\<lambda>(year, month). NewUUID (\<lambda>u.
          let key = GenerateInputKey year month (uuid_String (svc_lib s) u) ext in
          bind_prog (PresignUpload key (svc_presignExpiry s)) (\<lambda>r. Return
            (case r of
               Inl e \<Rightarrow> Inl (wrap_prefix ''presign upload'' e)
             | Inr url \<Rightarrow> Inr \<lparr>up_UploadID = EncodeUploadID key, up_ObjectKey = key, up_UploadURL = url,
                 up_ExpiresIn = svc_presignExpiry s\<rparr>))))))"

text \<open>The hash that binds an idempotency key to a request: length-prefixed fields.\<close>

definition length_prefixed :: "string \<Rightarrow> string" where
  "length_prefixed f = show_nat (length f) @ '':'' @ f"

definition hash_input :: "string list \<Rightarrow> string" where
  "hash_input fs = concat (map length_prefixed fs)"

definition requestHash :: "string \<Rightarrow> string \<Rightarrow> string \<Rightarrow> string" where
  "requestHash objectKey pipeline version =
     hex_EncodeToString (sha256_Sum (map of_char (hash_input [objectKey, pipeline, version])))"

text \<open>\<open>enqueue\<close> returns the job as far as it got, and an error or nil.\<close>

definition enqueue :: "service \<Rightarrow> job \<Rightarrow> (job \<times> err option) prog" where
  "enqueue s job =
     bind_prog (UpdateJobStatus (job_ID job) StatusPending (JobUpdate StatusQueued)) (\<lambda>r.
       case r of
         Inl e \<Rightarrow> Return (job, Some e)
       | Inr queued \<Rightarrow>
           bind_prog (Publish (svc_lib s) (message_for (svc_lib s) queued)) (\<lambda>p. Return (queued, p)))"

text \<open>A result of \<open>CreateJob\<close>: the job, whether it was created, the error.\<close>

type_synonym create_result = "(err + job \<times> bool)"

definition finish_create :: "service \<Rightarrow> job \<Rightarrow> bool \<Rightarrow> create_result prog" where
  "finish_create s job created =
     (if job_Status job = StatusPending then
        bind_prog (enqueue s job) (\<lambda>(queued, e).
          case e of
            None \<Rightarrow> Return (Inr (queued, created))
          | Some e \<Rightarrow>
              if errors_Is ErrConflict e then
                bind_prog (GetJob (job_ID job)) (\<lambda>g.
                  case g of
                    Inr cur \<Rightarrow> Return (Inr (cur, created))
                  | Inl _ \<Rightarrow> Return (Inl (wrap_prefix ''enqueue job'' e)))
              else Return (Inl (wrap_prefix ''enqueue job'' e)))
      else Return (Inr (job, created)))"

definition CreateJob :: "service \<Rightarrow> create_job_input \<Rightarrow> create_result prog" where
  "CreateJob s inp =
     (let pipeline = TrimSpace (cji_Pipeline inp);
          version = TrimSpace (cji_PipelineVersion inp) in
      if pipeline = '''' \<or> version = '''' then
        Return (Inl (validation_message ''pipeline and pipeline_version are required''))
      else if cji_UploadID inp = '''' then
        Return (Inl (validation_message ''upload_id is required''))
      else
     (case DecodeUploadID (cji_UploadID inp) of
        Inl _ \<Rightarrow> Return (Inl (validation_message ''invalid upload_id''))
      | Inr objectKey \<Rightarrow> bind_prog (store_Stat objectKey) (\<lambda>st.
     (case st of
        Inl e \<Rightarrow> Return (Inl (if errors_Is ErrObjectNotFound e then validation_message ''upload not found''
                              else wrap_prefix ''stat upload'' e))
      | Inr info \<Rightarrow>
     (case ValidateObject info (svc_maxUploadBytes s) of
        Some e \<Rightarrow> Return (Inl (validation_error e))
      | None \<Rightarrow> NewUUID (\<lambda>i.
          let params = \<lparr>par_ID = i, par_Pipeline = pipeline, par_PipelineVersion = version,
                par_InputObjectKey = objectKey, par_CorrelationID = cji_CorrelationID inp,
                par_MaxAttempts = svc_maxAttempts s\<rparr> in
          bind_prog (repo_CreateJob params (cji_IdempotencyKey inp) (requestHash objectKey pipeline version))
            (\<lambda>r. case r of
               Inl e \<Rightarrow> Return (Inl e)
             | Inr (job, created) \<Rightarrow> finish_create s job created)))))))"

definition svc_GetJob :: "uuid \<Rightarrow> (err + job) prog" where
  "svc_GetJob i = GetJob i"

definition svc_ListArtifacts :: "uuid \<Rightarrow> (err + artifact list) prog" where
  "svc_ListArtifacts i = repo_ListArtifacts i"

text \<open>The loop of \<open>CancelJob\<close>, with the number of tries left.\<close>

fun cancel_loop :: "nat \<Rightarrow> uuid \<Rightarrow> job \<Rightarrow> (err + job) prog" where
  "cancel_loop 0 i job = Return (Inl (Sentinel ErrNotCancellable))"
| "cancel_loop (Suc tries) i job =
     (if \<not> CanTransition (job_Status job) StatusCancelled then Return (Inl (Sentinel ErrNotCancellable))
      else bind_prog (UpdateJobStatus i (job_Status job) (JobUpdate StatusCancelled)) (\<lambda>r.
        case r of
          Inr updated \<Rightarrow> Return (Inr updated)
        | Inl e \<Rightarrow>
            if errors_Is ErrConflict e then
              bind_prog (GetJob i) (\<lambda>g.
                case g of
                  Inl e' \<Rightarrow> Return (Inl e')
                | Inr job' \<Rightarrow> cancel_loop tries i job')
            else Return (Inl e)))"

definition maxTries :: nat where
  "maxTries = 2"

definition CancelJob :: "uuid \<Rightarrow> (err + job) prog" where
  "CancelJob i = bind_prog (GetJob i) (\<lambda>g.
     case g of
       Inl e \<Rightarrow> Return (Inl e)
     | Inr job \<Rightarrow> cancel_loop maxTries i job)"

end
