(* ===== verification/Floats.thy ===== *)
theory Floats
  imports Main
begin

text \<open>
  The part of IEEE binary64 arithmetic the program's numbers depend on: rounding a natural
  number, or a quotient of two, to 53 significant bits, ties to even.
\<close>

fun bit_length :: "nat \<Rightarrow> nat" where
  "bit_length n = (if n = 0 then 0 else Suc (bit_length (n div 2)))"

declare bit_length.simps [simp del]

definition round_half_even :: "nat \<Rightarrow> nat \<Rightarrow> nat" where
  "round_half_even p dropped =
     (let q = p div 2 ^ dropped; r = p mod 2 ^ dropped; h = 2 ^ dropped div 2 in
      (if dropped = 0 then p
       else (if r > h \<or> r = h \<and> odd q then q + 1 else q) * 2 ^ dropped))"

text \<open>
  The quotient \<open>p / q\<close> rounded to a float64, as a numerator over \<open>2 ^ 129\<close>: 128 fractional
  bits of the exact quotient and a sticky bit for the rest decide the rounding, as long as
  the quotient is at least \<open>2 ^ (- 74)\<close>.
\<close>

definition float_quotient :: "nat \<Rightarrow> nat \<Rightarrow> nat" where
  "float_quotient p q =
     (let n = p * 2 ^ 128; s = 2 * (n div q) + (if n mod q = 0 then 0 else 1)
      in round_half_even s (bit_length s - 53))"

text \<open>
  \<open>uint64(float64(f) * (float64(u) / float64(s)))\<close> where \<open>u\<close> and \<open>s\<close> are exact float64
  values: two roundings, one of \<open>f\<close> and one of the product, besides the quotient's.
\<close>

definition float_mul_quotient :: "nat \<Rightarrow> nat \<Rightarrow> nat \<Rightarrow> nat" where
  "float_mul_quotient f u s =
     (let f' = round_half_even f (bit_length f - 53); p = f' * float_quotient u s
      in round_half_even p (bit_length p - 53) div 2 ^ 129)"

end
