(* ===== verification/Image.thy ===== *)
theory Image
  imports Complex_Main Effects GoStrings Floats Repository
begin

text \<open>
  \<open>internal/image\<close>: decoding with its size guards, the transforms, face detection. The
  imaging library and the Pigo classifier are parameters, gathered in one record; the
  rectangles of package \<open>image\<close>, the arithmetic on pixels and the guards are the program's.
  Finite floating-point numbers are rationals.
\<close>

section \<open>Rectangles\<close>

record rect =
  MinX :: int
  MinY :: int
  MaxX :: int
  MaxY :: int

definition Dx :: "rect \<Rightarrow> int" where
  "Dx r = MaxX r - MinX r"

definition Dy :: "rect \<Rightarrow> int" where
  "Dy r = MaxY r - MinY r"

definition Empty :: "rect \<Rightarrow> bool" where
  "Empty r \<longleftrightarrow> MinX r \<ge> MaxX r \<or> MinY r \<ge> MaxY r"

text \<open>\<open>image.Rect\<close> swaps coordinates so that the rectangle is well-formed.\<close>

definition Rect :: "int \<Rightarrow> int \<Rightarrow> int \<Rightarrow> int \<Rightarrow> rect" where
  "Rect x0 y0 x1 y1 = \<lparr>MinX = min x0 x1, MinY = min y0 y1, MaxX = max x0 x1, MaxY = max y0 y1\<rparr>"

definition zero_rect :: rect where
  "zero_rect = \<lparr>MinX = 0, MinY = 0, MaxX = 0, MaxY = 0\<rparr>"

definition Intersect :: "rect \<Rightarrow> rect \<Rightarrow> rect" where
  "Intersect r s =
     (let t = \<lparr>MinX = max (MinX r) (MinX s), MinY = max (MinY r) (MinY s),
               MaxX = min (MaxX r) (MaxX s), MaxY = min (MaxY r) (MaxY s)\<rparr>
      in if Empty t then zero_rect else t)"

definition rect_within :: "rect \<Rightarrow> rect \<Rightarrow> bool" where
  "rect_within r s \<longleftrightarrow> MinX s \<le> MinX r \<and> MinY s \<le> MinY r \<and> MaxX r \<le> MaxX s \<and> MaxY r \<le> MaxY s"

section \<open>The libraries\<close>

datatype format = JPEG | PNG

record cascade_params =
  cp_MinSize :: int
  cp_MaxSize :: int
  cp_ShiftFactor :: rat
  cp_ScaleFactor :: rat
  cp_Pixels :: "8 word list"
  cp_Rows :: int
  cp_Cols :: int
  cp_Dim :: int

record detection =
  det_Row :: int
  det_Col :: int
  det_Scale :: int
  det_Q :: rat

text \<open>
  \<open>lib_At\<close> is \<open>img.At(x, y).RGBA()\<close> without alpha: three 16-bit channels in 32-bit words.
\<close>

record 'img imaging =
  lib_Bounds :: "'img \<Rightarrow> rect"
  lib_At :: "'img \<Rightarrow> int \<Rightarrow> int \<Rightarrow> 32 word \<times> 32 word \<times> 32 word"
  lib_DecodeConfig :: "string \<Rightarrow> err + int \<times> int"
  lib_Decode :: "string \<Rightarrow> err + 'img"
  lib_Encode :: "'img \<Rightarrow> format \<Rightarrow> int \<Rightarrow> err + string"
  lib_Fit :: "'img \<Rightarrow> int \<Rightarrow> int \<Rightarrow> 'img"
  lib_AdjustBrightness :: "'img \<Rightarrow> rat \<Rightarrow> 'img"
  lib_AdjustContrast :: "'img \<Rightarrow> rat \<Rightarrow> 'img"
  lib_AdjustSaturation :: "'img \<Rightarrow> rat \<Rightarrow> 'img"
  lib_Blur :: "'img \<Rightarrow> rat \<Rightarrow> 'img"
  lib_Overlay :: "'img \<Rightarrow> 'img \<Rightarrow> int \<times> int \<Rightarrow> rat \<Rightarrow> 'img"
  lib_Crop :: "'img \<Rightarrow> rect \<Rightarrow> 'img"
  lib_Paste :: "'img \<Rightarrow> 'img \<Rightarrow> int \<times> int \<Rightarrow> 'img"
  lib_RunCascade :: "cascade_params \<Rightarrow> rat \<Rightarrow> detection list"
  lib_ClusterDetections :: "detection list \<Rightarrow> rat \<Rightarrow> detection list"

section \<open>Decoding and encoding\<close>

definition MaxDecodeBytes :: int where
  "MaxDecodeBytes = 67108864"

definition MaxPixels :: int where
  "MaxPixels = 30000000"

text \<open>Go's \<open>int64\<close> arithmetic wraps around.\<close>

definition int64_wrap :: "int \<Rightarrow> int" where
  "int64_wrap n = (n + 2 ^ 63) mod 2 ^ 64 - 2 ^ 63"

definition check_pixels :: "int \<Rightarrow> int \<Rightarrow> err option" where
  "check_pixels width height =
     (if int64_wrap (int64_wrap width * int64_wrap height) > MaxPixels then
        Some (wrap_suffix (Sentinel ErrImageTooLarge)
          [Lit (show_int width), Lit ''x'', Lit (show_int height), Lit '' exceeds '',
           Lit (show_int MaxPixels), Lit '' pixels''])
      else None)"

definition Decode :: "'img imaging \<Rightarrow> (err + 'img) prog" where
  "Decode lib = ReadBody (MaxDecodeBytes + 1) (\<lambda>r. Return
     (case r of
        Inl e \<Rightarrow> Inl (wrap_prefix ''read image'' e)
      | Inr body \<Rightarrow>
          if int (length body) > MaxDecodeBytes then
            Inl (wrap_suffix (Sentinel ErrImageTooLarge)
              [Lit ''encoded size exceeds '', Lit (show_int MaxDecodeBytes), Lit '' bytes''])
          else (case lib_DecodeConfig lib body of
            Inl e \<Rightarrow> Inl (wrap_prefix ''decode image header'' e)
          | Inr (width, height) \<Rightarrow>
              (case check_pixels width height of
                 Some e \<Rightarrow> Inl e
               | None \<Rightarrow>
                   (case lib_Decode lib body of
                      Inl e \<Rightarrow> Inl (wrap_prefix ''decode image'' e)
                    | Inr img \<Rightarrow> Inr img)))))"

definition Encode :: "'img imaging \<Rightarrow> 'img \<Rightarrow> format \<Rightarrow> int \<Rightarrow> err + string" where
  "Encode lib img fmt quality =
     (case fmt of
        PNG \<Rightarrow> lib_Encode lib img PNG 0
      | JPEG \<Rightarrow> lib_Encode lib img JPEG (if quality \<le> 0 \<or> quality > 100 then 90 else quality))"

section \<open>Transforms\<close>

definition Fit :: "'img imaging \<Rightarrow> 'img \<Rightarrow> int \<Rightarrow> int \<Rightarrow> 'img" where
  "Fit lib img maxW maxH =
     (let b = lib_Bounds lib img in
      if Dx b \<le> maxW \<and> Dy b \<le> maxH then img else lib_Fit lib img maxW maxH)"

definition AdjustColors :: "'img imaging \<Rightarrow> 'img \<Rightarrow> rat \<Rightarrow> rat \<Rightarrow> rat \<Rightarrow> 'img" where
  "AdjustColors lib img brightness contrast saturation =
     (let out1 = lib_AdjustBrightness lib img brightness;
          out2 = lib_AdjustContrast lib out1 contrast
      in lib_AdjustSaturation lib out2 saturation)"

definition Smooth :: "'img imaging \<Rightarrow> 'img \<Rightarrow> rat \<Rightarrow> rat \<Rightarrow> 'img" where
  "Smooth lib img sigma opacity = lib_Overlay lib img (lib_Blur lib img sigma) (0, 0) opacity"

text \<open>
  \<open>int(float64(n) * frac)\<close> for a fraction that is the float64 \<open>m / 2 ^ 54\<close>: the product is
  rounded to 53 significant bits, half to even, and then truncated towards zero.
\<close>

definition float_scale :: "nat \<Rightarrow> int \<Rightarrow> int" where
  "float_scale m n =
     (let p = nat \<bar>n\<bar> * m in
      sgn n * int (round_half_even p (bit_length p - 53) div 2 ^ 54))"

text \<open>The nearest float64 to 0.35 is \<open>6305039478318694 / 2 ^ 54\<close>.\<close>

definition frac_035 :: nat where
  "frac_035 = 6305039478318694"

definition expand :: "rect \<Rightarrow> nat \<Rightarrow> rect" where
  "expand r m =
     (let dx = float_scale m (Dx r); dy = float_scale m (Dy r)
      in Rect (MinX r - dx) (MinY r - dy) (MaxX r + dx) (MaxY r + dy))"

fun paste_faces :: "'img imaging \<Rightarrow> 'img \<Rightarrow> rect \<Rightarrow> rect list \<Rightarrow> 'img \<Rightarrow> 'img" where
  "paste_faces lib img bounds [] result = result"
| "paste_faces lib img bounds (face # faces) result =
     (let region = Intersect (expand face frac_035) bounds in
      if Empty region then paste_faces lib img bounds faces result
      else paste_faces lib img bounds faces
        (lib_Paste lib result (lib_Crop lib img region) (MinX region, MinY region)))"

definition BlurBackground :: "'img imaging \<Rightarrow> 'img \<Rightarrow> rect list \<Rightarrow> rat \<Rightarrow> 'img" where
  "BlurBackground lib img faces sigma =
     (if faces = [] then img
      else paste_faces lib img (lib_Bounds lib img) faces (lib_Blur lib img sigma))"

section \<open>Face detection\<close>

text \<open>Rec. 601 luma of three 16-bit channels, in 32-bit arithmetic, narrowed to a byte.\<close>

definition luma :: "32 word \<times> 32 word \<times> 32 word \<Rightarrow> 32 word" where
  "luma = (\<lambda>(r, g, b). (299 * drop_bit 8 r + 587 * drop_bit 8 g + 114 * drop_bit 8 b) div 1000)"

definition gray_pixel :: "'img imaging \<Rightarrow> 'img \<Rightarrow> rect \<Rightarrow> nat \<Rightarrow> nat \<Rightarrow> 8 word" where
  "gray_pixel lib img b y x = ucast (luma (lib_At lib img (MinX b + int x) (MinY b + int y)))"

text \<open>The two loops, row by row, writing \<open>pixels[y*w+x]\<close>.\<close>

definition gray_row :: "'img imaging \<Rightarrow> 'img \<Rightarrow> rect \<Rightarrow> nat \<Rightarrow> nat \<Rightarrow> 8 word list \<Rightarrow> 8 word list" where
  "gray_row lib img b w y px = fold (\<lambda>x px. px[y * w + x := gray_pixel lib img b y x]) [0..<w] px"

definition grayscale :: "'img imaging \<Rightarrow> 'img \<Rightarrow> 8 word list \<times> int \<times> int" where
  "grayscale lib img =
     (let b = lib_Bounds lib img; w = Dx b; h = Dy b in
      if w = 0 \<or> h = 0 then ([], 0, 0)
      else (fold (gray_row lib img b (nat w)) [0..<nat h] (replicate (nat w * nat h) 0), w, h))"

record detected_face =
  df_Rect :: rect
  df_Score :: rat

definition minQuality :: rat where
  "minQuality = 5"

definition face_of :: "detection \<Rightarrow> detected_face" where
  "face_of d =
     (let half = go_quot (det_Scale d) 2 in
      \<lparr>df_Rect = Rect (det_Col d - half) (det_Row d - half) (det_Col d + half) (det_Row d + half),
       df_Score = det_Q d\<rparr>)"

definition Detect :: "'img imaging \<Rightarrow> 'img \<Rightarrow> int \<Rightarrow> detected_face list" where
  "Detect lib img minSize =
     (case grayscale lib img of
        (pixels, w, h) \<Rightarrow>
          if w = 0 \<or> h = 0 then []
          else
            let params = \<lparr>cp_MinSize = (if minSize < 20 then 20 else minSize),
                  cp_MaxSize = (if w < h then w else h), cp_ShiftFactor = 1 / 10, cp_ScaleFactor = 11 / 10,
                  cp_Pixels = pixels, cp_Rows = h, cp_Cols = w, cp_Dim = w\<rparr>;
                dets = lib_ClusterDetections lib (lib_RunCascade lib params 0) (2 / 10)
            in map face_of (filter (\<lambda>d. \<not> det_Q d < minQuality) dets))"

end
