(* ===== verification/Pipeline.thy ===== *)
theory Pipeline
  imports Image
begin

text \<open>
  \<open>internal/pipeline\<close>: processors, the ordered run of a pipeline, the registry of versions
  and the shipped pipeline.
\<close>

section \<open>Processors and pipelines\<close>

text \<open>
  \<open>ProcessingInput\<close> and \<open>ProcessingOutput\<close> have the same fields and are converted into
  each other; one record models both.
\<close>

record face =
  face_Rect :: rect
  face_Score :: rat

record 'img stage_data =
  pd_Image :: 'img
  pd_Faces :: "face list"

record 'img processor =
  proc_Name :: string
  proc_Process :: "'img stage_data \<Rightarrow> (err + 'img stage_data) prog"

record step_result =
  sr_Name :: string
  sr_Status :: step_status
  sr_Duration :: duration
  sr_Err :: "err option"

record 'img pipeline =
  pipe_name :: string
  pipe_version :: string
  pipe_processors :: "'img processor list"

definition NewPipeline :: "string \<Rightarrow> string \<Rightarrow> 'img processor list \<Rightarrow> 'img pipeline" where
  "NewPipeline name version procs = \<lparr>pipe_name = name, pipe_version = version, pipe_processors = procs\<rparr>"

text \<open>\<open>fmt.Errorf("processor %q: %w", name, err)\<close>.\<close>

definition processor_error :: "string \<Rightarrow> err \<Rightarrow> err" where
  "processor_error name e = WrapErr ([Lit ''processor '', Quoted name, Lit '': ''] @ Error e) [e]"

text \<open>
  \<open>Run\<close>: the loop over the processors. The steps reported through \<open>onStep\<close> are returned
  with the result, in order; a cancelled context is noticed before each stage and adds no
  step, a failing stage adds a FAILED one and stops the run.
\<close>

primrec run_stages ::
    "'img processor list \<Rightarrow> 'img stage_data \<Rightarrow> step_result list \<Rightarrow> (step_result list \<times> 'img stage_data \<times> err option) prog" where
  "run_stages [] cur steps = Return (steps, cur, None)"
| "run_stages (p # ps) cur steps = CtxErr (\<lambda>c.
     case c of
       Some e \<Rightarrow> Return (steps, cur, Some e)
     | None \<Rightarrow> TimeNow (\<lambda>start. bind_prog (proc_Process p cur) (\<lambda>r. TimeNow (\<lambda>stop.
         case r of
           Inl e \<Rightarrow> Return
             (steps @ [\<lparr>sr_Name = proc_Name p, sr_Status = StepFailed, sr_Duration = stop - start, sr_Err = Some e\<rparr>],
              cur, Some (processor_error (proc_Name p) e))
         | Inr out \<Rightarrow> run_stages ps out
             (steps @ [\<lparr>sr_Name = proc_Name p, sr_Status = StepSucceeded, sr_Duration = stop - start, sr_Err = None\<rparr>])))))"

definition Run :: "'img pipeline \<Rightarrow> 'img stage_data \<Rightarrow> (step_result list \<times> 'img stage_data \<times> err option) prog" where
  "Run p inp = run_stages (pipe_processors p) inp []"

section \<open>The registry\<close>

text \<open>\<open>Registry.byKey\<close> as a map from \<open>name@version\<close>; registering a key twice panics.\<close>

type_synonym 'img registry = "string \<Rightarrow> 'img pipeline option"

definition NewRegistry :: "'img registry" where
  "NewRegistry = Map.empty"

definition registry_key :: "string \<Rightarrow> string \<Rightarrow> string" where
  "registry_key name version = name @ ''@'' @ version"

definition Register :: "'img registry \<Rightarrow> 'img pipeline \<Rightarrow> 'img registry option" where
  "Register r p =
     (let k = registry_key (pipe_name p) (pipe_version p) in
      if r k \<noteq> None then None else Some (r(k \<mapsto> p)))"

definition registry_Keys :: "'img registry \<Rightarrow> string list" where
  "registry_Keys r = sorted_list_of_set (dom r)"

definition registry_Get :: "'img registry \<Rightarrow> string \<Rightarrow> string \<Rightarrow> err + 'img pipeline" where
  "registry_Get r name version =
     (case r (registry_key name version) of
        None \<Rightarrow> Inl (wrap_suffix (Sentinel ErrUnknownPipeline) [Lit (registry_key name version)])
      | Some p \<Rightarrow> Inr p)"

section \<open>The shipped processors\<close>

text \<open>Every processor first asks the context, then computes.\<close>

definition unless_cancelled :: "('img stage_data) \<Rightarrow> (err + 'img stage_data) prog" where
  "unless_cancelled out = CtxErr (\<lambda>c. Return (case c of Some e \<Rightarrow> Inl e | None \<Rightarrow> Inr out))"

definition FaceDetectionProcessor :: "'img imaging \<Rightarrow> int \<Rightarrow> 'img processor" where
  "FaceDetectionProcessor lib minSize = \<lparr>proc_Name = ''face-detection'',
     proc_Process = (\<lambda>inp. unless_cancelled
       \<lparr>pd_Image = pd_Image inp,
        pd_Faces = map (\<lambda>f. \<lparr>face_Rect = df_Rect f, face_Score = df_Score f\<rparr>) (Detect lib (pd_Image inp) minSize)\<rparr>)\<rparr>"

definition ResizeProcessor :: "'img imaging \<Rightarrow> int \<Rightarrow> int \<Rightarrow> 'img processor" where
  "ResizeProcessor lib maxW maxH = \<lparr>proc_Name = ''resize'',
     proc_Process = (\<lambda>inp. unless_cancelled
       \<lparr>pd_Image = Fit lib (pd_Image inp) maxW maxH, pd_Faces = pd_Faces inp\<rparr>)\<rparr>"

definition ColorProcessor :: "'img imaging \<Rightarrow> rat \<Rightarrow> rat \<Rightarrow> rat \<Rightarrow> 'img processor" where
  "ColorProcessor lib brightness contrast saturation = \<lparr>proc_Name = ''color'',
     proc_Process = (\<lambda>inp. unless_cancelled
       \<lparr>pd_Image = AdjustColors lib (pd_Image inp) brightness contrast saturation, pd_Faces = pd_Faces inp\<rparr>)\<rparr>"

definition BeautyProcessor :: "'img imaging \<Rightarrow> rat \<Rightarrow> rat \<Rightarrow> 'img processor" where
  "BeautyProcessor lib sigma opacity = \<lparr>proc_Name = ''beauty'',
     proc_Process = (\<lambda>inp. unless_cancelled
       \<lparr>pd_Image = Smooth lib (pd_Image inp) sigma opacity, pd_Faces = pd_Faces inp\<rparr>)\<rparr>"

definition BackgroundProcessor :: "'img imaging \<Rightarrow> rat \<Rightarrow> 'img processor" where
  "BackgroundProcessor lib sigma = \<lparr>proc_Name = ''background'',
     proc_Process = (\<lambda>inp. unless_cancelled
       \<lparr>pd_Image = BlurBackground lib (pd_Image inp) (map face_Rect (pd_Faces inp)) sigma,
        pd_Faces = pd_Faces inp\<rparr>)\<rparr>"

definition default_pipeline :: "'img imaging \<Rightarrow> 'img pipeline" where
  "default_pipeline lib = NewPipeline ''portrait-enhance'' ''v1''
     [ResizeProcessor lib 1600 1600, FaceDetectionProcessor lib 60, ColorProcessor lib 5 8 6,
      BeautyProcessor lib 2 (35 / 100), BackgroundProcessor lib 6]"

definition DefaultRegistry :: "'img imaging \<Rightarrow> 'img registry option" where
  "DefaultRegistry lib = Register NewRegistry (default_pipeline lib)"

text \<open>Registering the first pipeline cannot panic; this is the registry it gives.\<close>

definition default_registry :: "'img imaging \<Rightarrow> 'img registry" where
  "default_registry lib = [registry_key ''portrait-enhance'' ''v1'' \<mapsto> default_pipeline lib]"

lemma registry_Keys_default: "registry_Keys (default_registry lib) = [''portrait-enhance@v1'']"
  by (simp add: registry_Keys_def default_registry_def registry_key_def)

lemma Register_Keys:
  assumes "Register r p = Some r'" and "finite (dom r)"
  shows "registry_Keys r' = insort (registry_key (pipe_name p) (pipe_version p)) (registry_Keys r)"
proof -
  let ?k = "registry_key (pipe_name p) (pipe_version p)"
  have "?k \<notin> dom r" "r' = r(?k \<mapsto> p)"
    using assms(1) by (auto simp: Register_def Let_def split: if_splits)
  then show ?thesis using assms(2) by (simp add: registry_Keys_def)
qed

lemma DefaultRegistry_Some: "DefaultRegistry lib = Some (default_registry lib)"
  by (simp add: DefaultRegistry_def Register_def NewRegistry_def default_registry_def
      default_pipeline_def NewPipeline_def)

end
