(* ===== verification/Retry.thy ===== *)
theory Retry
  imports Effects
begin

text \<open>
  \<open>internal/worker/retry.go\<close>: exponential backoff with equal jitter.
\<close>

definition backoffBase :: duration where
  "backoffBase = 2 * Second"

definition backoffCap :: duration where
  "backoffCap = 60 * Second"

text \<open>The capped exponential of an attempt number; attempts below 1 count as 1.\<close>

definition backoff_exp :: "int \<Rightarrow> duration" where
  "backoff_exp attempt =
     (let n = (if attempt < 1 then 1 else attempt);
          shift = (if n - 1 > 5 then 5 else n - 1);
          e = push_bit (nat shift) backoffBase
      in if e > backoffCap then backoffCap else e)"

definition backoff :: "int \<Rightarrow> duration prog" where
  "backoff attempt =
     (let half = backoff_exp attempt div 2
      in Int64N (half + 1) (\<lambda>r. Return (half + r)))"

lemma backoff_exp_values:
  "backoff_exp attempt =
     (if attempt \<le> 1 then 2 * Second else if attempt = 2 then 4 * Second
      else if attempt = 3 then 8 * Second else if attempt = 4 then 16 * Second
      else if attempt = 5 then 32 * Second else 60 * Second)"
proof -
  have "attempt \<le> 1 \<or> attempt = 2 \<or> attempt = 3 \<or> attempt = 4 \<or> attempt = 5 \<or> 6 \<le> attempt"
    by arith
  then show ?thesis
    by (elim disjE) (auto simp: backoff_exp_def Let_def push_bit_eq_mult backoffBase_def backoffCap_def Second_def)
qed

lemma backoff_exp_bounds: "2 * Second \<le> backoff_exp attempt \<and> backoff_exp attempt \<le> backoffCap"
  by (simp add: backoff_exp_values backoffCap_def Second_def)

text \<open>What one draw gives: the delay a run of \<open>backoff\<close> returns.\<close>

definition backoff_delay :: "int \<Rightarrow> int \<Rightarrow> duration" where
  "backoff_delay attempt draw =
     (let half = backoff_exp attempt div 2 in half + draw mod (half + 1))"

lemma run_backoff:
  "run (oc # os) (backoff attempt) w = (Return (backoff_delay attempt (o_rand oc)), w)"
  by (simp add: backoff_def backoff_delay_def Let_def)

lemma backoff_delay_bounds:
  "backoff_exp attempt div 2 \<le> backoff_delay attempt draw
   \<and> backoff_delay attempt draw \<le> backoff_exp attempt"
proof -
  let ?half = "backoff_exp attempt div 2"
  have "0 \<le> ?half" using backoff_exp_bounds [of attempt] by (simp add: Second_def)
  then have "0 \<le> draw mod (?half + 1)" "draw mod (?half + 1) < ?half + 1"
    by (intro pos_mod_sign pos_mod_bound; linarith)+
  moreover have "2 * ?half \<le> backoff_exp attempt" by simp
  ultimately show ?thesis
    unfolding backoff_delay_def Let_def by linarith
qed

text \<open>
  Backoff: whatever is drawn, the delay of attempt \<open>n\<close> lies between half and all of
  the capped exponential, so between one second and one minute; the exponential never
  shrinks from one attempt to the next and is constant from the sixth on; and no
  intermediate value leaves the range of \<open>int64\<close>.
\<close>

theorem backoff_bounds:
  "fst (run [oc] (backoff attempt) w) = Return (backoff_delay attempt (o_rand oc))
   \<and> backoff_exp attempt div 2 \<le> backoff_delay attempt (o_rand oc)
   \<and> backoff_delay attempt (o_rand oc) \<le> backoff_exp attempt
   \<and> Second \<le> backoff_delay attempt (o_rand oc)
   \<and> backoff_delay attempt (o_rand oc) \<le> Minute
   \<and> backoff_exp attempt \<le> backoff_exp (attempt + 1)
   \<and> backoff_exp 6 = backoff_exp (6 + int n)
   \<and> fits_int64 (push_bit 5 backoffBase)"
proof -
  have "Second \<le> backoff_exp attempt div 2" "backoff_exp attempt \<le> Minute"
    using backoff_exp_bounds [of attempt] unfolding Second_def Minute_def backoffCap_def by presburger+
  moreover have "backoff_exp attempt \<le> backoff_exp (attempt + 1)"
    by (simp add: backoff_exp_values Second_def)
  moreover have "fits_int64 (push_bit 5 backoffBase)"
    by (simp add: fits_int64_def push_bit_eq_mult backoffBase_def Second_def)
  ultimately show ?thesis
    using backoff_delay_bounds [of attempt "o_rand oc"] run_backoff [of oc "[]" attempt w]
    by (auto simp: backoff_exp_values)
qed

end
