(* ===== verification/Handler.thy ===== *)
theory Handler
  imports ObjectStore Messaging Pipeline Retry
begin

text \<open>
  \<open>internal/worker/handler.go\<close>: one job message, from the claim to the decision about the
  delivery; and the settling of a delivery in \<open>internal/worker/pool.go\<close>.
\<close>

section \<open>Decisions\<close>

datatype decision = Complete | Retry | Discard

record handler_result =
  res_Decision :: decision
  res_RetryAfter :: duration

definition decide :: "decision \<Rightarrow> handler_result" where
  "decide d = \<lparr>res_Decision = d, res_RetryAfter = 0\<rparr>"

record 'img handler_env =
  he_lib :: library
  he_registry :: "string \<Rightarrow> string \<Rightarrow> err + 'img pipeline"
  he_imaging :: "'img imaging"

section \<open>Running the pipeline for a job\<close>

definition artifact_for :: "library \<Rightarrow> job \<Rightarrow> string \<Rightarrow> int \<Rightarrow> artifact" where
  "artifact_for lib job outKey n = \<lparr>art_ID = uuid_Nil, art_JobID = job_ID job, art_Kind = ''output'',
     art_ObjectKey = outKey, art_ContentType = ''image/jpeg'', art_SizeBytes = n, art_CreatedAt = 0\<rparr>"

definition output_key :: "library \<Rightarrow> job \<Rightarrow> string" where
  "output_key lib job = GenerateOutputKey (uuid_String lib (job_ID job)) ''result.jpg''"

text \<open>Encode the result, store it, record the artifact.\<close>

definition store_output ::
    "'img handler_env \<Rightarrow> job \<Rightarrow> step_result list \<Rightarrow> 'img \<Rightarrow> (step_result list \<times> err option) prog" where
  "store_output h job steps img =
     (case Encode (he_imaging h) img JPEG 90 of
        Inl e \<Rightarrow> Return (steps, Transient ''encode'' (Some e))
      | Inr buf \<Rightarrow>
          let outKey = output_key (he_lib h) job; n = int (length buf) in
          bind_prog (store_Put outKey buf n ''image/jpeg'') (\<lambda>p.
            case p of
              Some e \<Rightarrow> Metric IncStorageError (Return (steps, Transient ''store-output'' (Some e)))
            | None \<Rightarrow> bind_prog (AddArtifact (artifact_for (he_lib h) job outKey n)) (\<lambda>a.
                Return (steps, Transient ''record-artifact'' a))))"

definition runPipeline :: "'img handler_env \<Rightarrow> job \<Rightarrow> (step_result list \<times> err option) prog" where
  "runPipeline h job =
     (case he_registry h (job_Pipeline job) (job_PipelineVersion job) of
        Inl e \<Rightarrow> Return ([], Permanent ''resolve-pipeline'' (Some e))
      | Inr pipe \<Rightarrow> bind_prog (store_Get (job_InputObjectKey job)) (\<lambda>g.
     (case g of
        Some e \<Rightarrow>
          if errors_Is ErrObjectNotFound e then Return ([], Permanent ''load-input'' (Some e))
          else Metric IncStorageError (Return ([], Transient ''load-input'' (Some e)))
      | None \<Rightarrow> bind_prog (Decode (he_imaging h)) (\<lambda>d.
     (case d of
        Inl e \<Rightarrow> Return ([], Permanent ''decode'' (Some e))
      | Inr srcImg \<Rightarrow> bind_prog (Run pipe \<lparr>pd_Image = srcImg, pd_Faces = []\<rparr>) (\<lambda>(steps, out, e).
     (case e of
        Some e \<Rightarrow>
          if IsCancellation (Some e) then Return (steps, Some e)
          else Return (steps, Transient ''pipeline'' (Some e))
      | None \<Rightarrow> store_output h job steps (pd_Image out))))))))"

section \<open>Recording the outcome\<close>

definition processing_step_of :: "attempt \<Rightarrow> time \<Rightarrow> step_result \<Rightarrow> processing_step" where
  "processing_step_of attempt now s = \<lparr>step_ID = uuid_Nil, step_AttemptID = att_ID attempt,
     step_Name = sr_Name s, step_Status = sr_Status s, step_Duration = sr_Duration s,
     step_Error = (case sr_Err s of Some e \<Rightarrow> Error e | None \<Rightarrow> []),
     step_StartedAt = 0, step_FinishedAt = Some now\<rparr>"

text \<open>A failure to record a step is ignored.\<close>

primrec persistSteps :: "attempt \<Rightarrow> step_result list \<Rightarrow> unit prog" where
  "persistSteps attempt [] = Return ()"
| "persistSteps attempt (s # ss) = TimeNow (\<lambda>now.
     bind_prog (AddProcessingStep (processing_step_of attempt now s)) (\<lambda>_. persistSteps attempt ss))"

definition finalizeSuccess :: "job \<Rightarrow> attempt \<Rightarrow> handler_result prog" where
  "finalizeSuccess job attempt =
     bind_prog (FinishAttempt (att_ID attempt) AttemptSucceeded []) (\<lambda>f.
       case f of
         Some _ \<Rightarrow> Return (decide Retry)
       | None \<Rightarrow> bind_prog (UpdateJobStatus (job_ID job) StatusProcessing (JobUpdate StatusCompleted)) (\<lambda>u.
           case u of
             Inl e \<Rightarrow> Return (decide (if errors_Is ErrConflict e then Complete else Retry))
           | Inr _ \<Rightarrow> Metric IncJobsCompleted (Return (decide Complete))))"

definition failed_update :: "err \<Rightarrow> job_update" where
  "failed_update cause = (JobUpdate StatusFailed)\<lparr>upd_SetLastError := True, upd_LastError := Error cause\<rparr>"

definition retrying_update :: "time \<Rightarrow> job_update" where
  "retrying_update t = (JobUpdate StatusRetrying)\<lparr>upd_SetNextRetryAt := True, upd_NextRetryAt := t\<rparr>"

definition requeued_update :: job_update where
  "requeued_update = (JobUpdate StatusQueued)\<lparr>upd_ClearNextRetry := True\<rparr>"

definition markFailed :: "uuid \<Rightarrow> err \<Rightarrow> unit prog" where
  "markFailed i cause =
     bind_prog (UpdateJobStatus i StatusProcessing (failed_update cause)) (\<lambda>_. Return ())"

text \<open>The walk PROCESSING, FAILED, RETRYING, QUEUED; nil when it got through.\<close>

definition scheduleRetry :: "uuid \<Rightarrow> err \<Rightarrow> duration \<Rightarrow> err option prog" where
  "scheduleRetry i cause delay =
     bind_prog (UpdateJobStatus i StatusProcessing (failed_update cause)) (\<lambda>r.
       case r of
         Inl e \<Rightarrow> Return (Some e)
       | Inr _ \<Rightarrow> TimeNow (\<lambda>now.
           bind_prog (UpdateJobStatus i StatusFailed (retrying_update (now + delay))) (\<lambda>r.
             case r of
               Inl e \<Rightarrow> Return (Some e)
             | Inr _ \<Rightarrow> bind_prog (UpdateJobStatus i StatusRetrying requeued_update) (\<lambda>r. Return
                 (case r of Inl e \<Rightarrow> Some e | Inr _ \<Rightarrow> None)))))"

text \<open>The decision of \<open>finalizeFailure\<close> once the attempt is recorded and no cancel was seen.\<close>

definition retry_or_fail :: "job \<Rightarrow> err \<Rightarrow> handler_result prog" where
  "retry_or_fail job procErr =
     (if IsPermanent (Some procErr) then
        bind_prog (markFailed (job_ID job) procErr) (\<lambda>_. Metric IncJobsFailed (Return (decide Complete)))
      else if CanRetry job then
        bind_prog (backoff (job_AttemptCount job)) (\<lambda>delay.
          bind_prog (scheduleRetry (job_ID job) procErr delay) (\<lambda>e.
            let result = \<lparr>res_Decision = Retry, res_RetryAfter = delay\<rparr> in
            case e of
              Some _ \<Rightarrow> Return result
            | None \<Rightarrow> Metric IncJobsRetried (Return result)))
      else
        bind_prog (markFailed (job_ID job) procErr) (\<lambda>_. Metric IncJobsFailed (Return (decide Complete))))"

definition finalizeFailure :: "job \<Rightarrow> attempt \<Rightarrow> err \<Rightarrow> handler_result prog" where
  "finalizeFailure job attempt procErr =
     Metric (IncProcessorError (kind_String (Classify (Some procErr))))
       (bind_prog (FinishAttempt (att_ID attempt)
          (if IsCancellation (Some procErr) then AttemptCancelled else AttemptFailed) (Error procErr)) (\<lambda>_.
        bind_prog (GetJob (job_ID job)) (\<lambda>g.
          case g of
            Inr cur \<Rightarrow>
              if job_Status cur = StatusCancelled then Return (decide Complete)
              else retry_or_fail job procErr
          | Inl _ \<Rightarrow> retry_or_fail job procErr)))"

section \<open>Handling a message\<close>

text \<open>
  The work after a successful claim. The watcher runs beside it and can only cancel the
  context, which the program sees through \<open>CtxErr\<close> and through failing calls.
\<close>

definition process_claimed :: "'img handler_env \<Rightarrow> job \<Rightarrow> attempt \<Rightarrow> handler_result prog" where
  "process_claimed h job attempt = TimeNow (\<lambda>now.
     Metric (ObserveQueueLatency (now - job_CreatedAt job)) (TimeNow (\<lambda>procStart.
       bind_prog (runPipeline h job) (\<lambda>(steps, procErr). TimeNow (\<lambda>t.
         Metric (ObserveProcessing (t - procStart))
           (bind_prog (persistSteps attempt steps) (\<lambda>_.
              case procErr of
                None \<Rightarrow> finalizeSuccess job attempt
              | Some e \<Rightarrow> finalizeFailure job attempt e)))))))"

definition Handle :: "'img handler_env \<Rightarrow> job_message \<Rightarrow> handler_result prog" where
  "Handle h msg =
     (case uuid_Parse (he_lib h) (msg_JobID msg) of
        None \<Rightarrow> Return (decide Discard)
      | Some i \<Rightarrow> bind_prog (GetJob i) (\<lambda>g.
     (case g of
        Inl e \<Rightarrow> Return (decide (if errors_Is ErrNotFound e then Discard else Retry))
      | Inr job \<Rightarrow>
          if IsTerminal (job_Status job) then Return (decide Complete)
          else bind_prog (BeginAttempt i) (\<lambda>b.
            case b of
              Inl e \<Rightarrow> Return (decide (if errors_Is ErrConflict e then Complete else Retry))
            | Inr (job, attempt) \<Rightarrow> process_claimed h job attempt))))"

text \<open>One tick of \<open>watchCancellation\<close>: cancel and stop, or go on polling.\<close>

definition watch_tick :: "uuid \<Rightarrow> bool prog" where
  "watch_tick i = bind_prog (GetJob i) (\<lambda>g. Return
     (case g of Inl _ \<Rightarrow> False | Inr job \<Rightarrow> job_Status job = StatusCancelled))"

section \<open>Settling a delivery\<close>

datatype settlement = Ack | Nak duration | Term

text \<open>A panic in the handler becomes a \<open>Retry\<close>.\<close>

definition handleWithRecovery :: "'img handler_env \<Rightarrow> job_message \<Rightarrow> handler_result prog" where
  "handleWithRecovery h msg = recover_prog (Handle h msg) (decide Retry)"

fun settle :: "handler_result \<Rightarrow> settlement" where
  "settle r = (case res_Decision r of
     Complete \<Rightarrow> Ack
   | Discard \<Rightarrow> Term
   | Retry \<Rightarrow> Nak (res_RetryAfter r))"

definition process :: "'img handler_env \<Rightarrow> string \<Rightarrow> settlement prog" where
  "process h payload =
     (case json_Unmarshal (he_lib h) payload of
        None \<Rightarrow> Return Term
      | Some msg \<Rightarrow> Metric WorkerStarted
          (bind_prog (handleWithRecovery h msg) (\<lambda>res. Metric WorkerFinished (Return (settle res)))))"

end
