(* ===== verification/Requeue.thy ===== *)
theory Requeue
  imports Messaging Repository
begin

text \<open>
  \<open>internal/worker/requeue.go\<close>: the sweep that republishes stuck QUEUED jobs.
\<close>

primrec sweep_jobs :: "library \<Rightarrow> job list \<Rightarrow> int \<Rightarrow> (err + int) prog" where
  "sweep_jobs lib [] requeued = Return (Inr requeued)"
| "sweep_jobs lib (j # js) requeued =
     bind_prog (Publish lib (message_for lib j)) (\<lambda>e.
       case e of
         Some _ \<Rightarrow> sweep_jobs lib js requeued
       | None \<Rightarrow> sweep_jobs lib js (requeued + 1))"

definition Sweep :: "library \<Rightarrow> duration \<Rightarrow> int \<Rightarrow> (err + int) prog" where
  "Sweep lib minAge limit = TimeNow (\<lambda>now.
     bind_prog (ListRequeueable (now - minAge) limit) (\<lambda>r.
       case r of
         Inl e \<Rightarrow> Return (Inl e)
       | Inr stuck \<Rightarrow> sweep_jobs lib stuck 0))"

end
