(* ===== verification/Integrity.thy ===== *)
theory Integrity
  imports Effects "HOL-Library.Sublist"
begin

text \<open>
  What no statement of the program can break: the constraints of the schema (keys,
  references, checks), and the facts that persist (jobs and idempotency keys are never
  deleted and their identifying columns never change). Both are shown once for every
  statement, and two interfaces carry them to whole programs.
\<close>

section \<open>The statements that write\<close>

inductive db_effect :: "db \<Rightarrow> db \<Rightarrow> bool" where
  no_effect: "db_effect d d"
| insert_job_effect: "db_effect d (snd (sql_insert_job now p d))"
| insert_key_effect: "db_effect d (snd (tx_insert_job_with_key now p k h d))"
| update_job_effect: "db_effect d (snd (sql_update_job now i s u d))"
| claim_effect: "db_effect d (snd (tx_claim now i a d))"
| finish_effect: "db_effect d (snd (sql_finish_attempt now a s m d))"
| insert_step_effect: "db_effect d (snd (sql_insert_step st d))"
| upsert_effect: "db_effect d (snd (sql_upsert_artifact now art d))"

lemma faulty_sql_effect: "(\<And>d. db_effect d (snd (g d))) \<Longrightarrow> db_effect d (snd (faulty_sql f g d))"
  by (cases f) (auto intro: no_effect)

lemma faulty_tx_effect: "(\<And>d. db_effect d (snd (g d))) \<Longrightarrow> db_effect d (snd (faulty_tx f g d))"
  by (cases f) (auto intro: no_effect)

text \<open>Whatever call a program makes and however it fails, the tables change by one statement.\<close>

lemma step_prog_effect: "db_effect (w_db w) (w_db (snd (step_prog oc p w)))"
  by (cases p)
    (auto simp: on_db_def split: prod.splits
      intro: db_effect.intros faulty_sql_effect faulty_tx_effect)

text \<open>
  An invariant of the statements is an invariant of every run, and a relation between
  before and after that composes relates the ends of every run.
\<close>

locale table_invariant =
  fixes I :: "db \<Rightarrow> bool"
  assumes effect_keeps: "db_effect d d' \<Longrightarrow> I d \<Longrightarrow> I d'"
begin

lemma call_keeps: "I (w_db w) \<Longrightarrow> I (w_db (snd (step_prog oc p w)))"
  using effect_keeps step_prog_effect by blast

lemma run_keeps: "I (w_db w) \<Longrightarrow> I (w_db (snd (run os p w)))"
  by (induction os p w rule: run.induct) (auto simp: call_keeps)

end

locale table_order =
  fixes R :: "db \<Rightarrow> db \<Rightarrow> bool"
  assumes effect_within: "db_effect d d' \<Longrightarrow> R d d'"
    and R_trans: "R a b \<Longrightarrow> R b c \<Longrightarrow> R a c"
begin

lemma R_refl: "R d d"
  by (rule effect_within) (rule no_effect)

lemma call_within: "R (w_db w) (w_db (snd (step_prog oc p w)))"
  by (rule effect_within) (rule step_prog_effect)

lemma run_within: "R (w_db w) (w_db (snd (run os p w)))"
proof (induction os p w rule: run.induct)
  case (2 oc os p w)
  then show ?case by (auto intro: R_refl R_trans [OF call_within])
qed (simp add: R_refl)

end

section \<open>The schema's constraints\<close>

definition job_row_valid :: "job \<Rightarrow> bool" where
  "job_row_valid r \<longleftrightarrow> Valid (job_Status r) \<and> 0 \<le> job_AttemptCount r \<and> 1 \<le> job_MaxAttempts r
     \<and> fits_int32 (job_AttemptCount r) \<and> fits_int32 (job_MaxAttempts r)"

definition wf_jobs :: "db \<Rightarrow> bool" where
  "wf_jobs d \<longleftrightarrow> distinct (map job_ID (jobs d)) \<and> list_all job_row_valid (jobs d)"

definition wf_attempts :: "db \<Rightarrow> bool" where
  "wf_attempts d \<longleftrightarrow> distinct (map att_ID (attempts d))
     \<and> distinct (map (\<lambda>a. (att_JobID a, att_Number a)) (attempts d))
     \<and> list_all (\<lambda>a. 1 \<le> att_Number a \<and> job_of d (att_JobID a) \<noteq> None) (attempts d)"

definition wf_steps :: "db \<Rightarrow> bool" where
  "wf_steps d \<longleftrightarrow> distinct (map srow_ID (processing_steps d))
     \<and> list_all (\<lambda>s. 0 \<le> srow_DurationMs s \<and> row_of att_ID (srow_AttemptID s) (attempts d) \<noteq> None)
         (processing_steps d)"

definition wf_artifacts :: "db \<Rightarrow> bool" where
  "wf_artifacts d \<longleftrightarrow> distinct (map art_ID (artifacts d)) \<and> distinct (map art_slot (artifacts d))
     \<and> list_all (\<lambda>a. 0 \<le> art_SizeBytes a \<and> job_of d (art_JobID a) \<noteq> None) (artifacts d)"

definition wf_keys :: "db \<Rightarrow> bool" where
  "wf_keys d \<longleftrightarrow> distinct (map ik_Key (idempotency_keys d))
     \<and> list_all (\<lambda>k. job_of d (ik_JobID k) \<noteq> None) (idempotency_keys d)"

definition wf_db :: "db \<Rightarrow> bool" where
  "wf_db d \<longleftrightarrow> wf_jobs d \<and> wf_attempts d \<and> wf_steps d \<and> wf_artifacts d \<and> wf_keys d"

section \<open>What persists\<close>

text \<open>The columns of a job that are set when it is created and never again.\<close>

definition same_origin :: "job \<Rightarrow> job \<Rightarrow> bool" where
  "same_origin a b \<longleftrightarrow> job_ID b = job_ID a \<and> job_Pipeline b = job_Pipeline a
     \<and> job_PipelineVersion b = job_PipelineVersion a \<and> job_InputObjectKey b = job_InputObjectKey a
     \<and> job_CorrelationID b = job_CorrelationID a \<and> job_MaxAttempts b = job_MaxAttempts a
     \<and> job_CreatedAt b = job_CreatedAt a \<and> job_AttemptCount a \<le> job_AttemptCount b"

abbreviation att_row :: "attempt \<Rightarrow> uuid \<times> uuid \<times> int" where
  "att_row a \<equiv> (att_ID a, att_JobID a, att_Number a)"

definition db_le :: "db \<Rightarrow> db \<Rightarrow> bool" where
  "db_le d d' \<longleftrightarrow>
     (\<forall>i j. job_of d i = Some j \<longrightarrow> (\<exists>j'. job_of d' i = Some j' \<and> same_origin j j'))
     \<and> (\<forall>k r. key_of d k = Some r \<longrightarrow> key_of d' k = Some r)
     \<and> prefix (map att_row (attempts d)) (map att_row (attempts d'))
     \<and> prefix (map art_slot (artifacts d)) (map art_slot (artifacts d'))"

lemma same_origin_refl [simp]: "same_origin j j"
  by (simp add: same_origin_def)

lemma same_origin_trans: "same_origin a b \<Longrightarrow> same_origin b c \<Longrightarrow> same_origin a c"
  by (simp add: same_origin_def)

lemma db_le_refl [simp]: "db_le d d"
  by (simp add: db_le_def)

lemma db_le_trans: "db_le a b \<Longrightarrow> db_le b c \<Longrightarrow> db_le a c"
  unfolding db_le_def by (meson prefix_order.trans same_origin_trans)

lemma db_le_job: "db_le d d' \<Longrightarrow> job_of d i = Some j \<Longrightarrow> \<exists>j'. job_of d' i = Some j' \<and> same_origin j j'"
  by (simp add: db_le_def)

lemma db_le_job_exists: "db_le d d' \<Longrightarrow> job_of d i \<noteq> None \<Longrightarrow> job_of d' i \<noteq> None"
  by (fastforce simp: db_le_def)

lemma db_le_key: "db_le d d' \<Longrightarrow> key_of d k = Some r \<Longrightarrow> key_of d' k = Some r"
  by (simp add: db_le_def)


section \<open>Statements and the persistent facts\<close>

lemma updated_row_same_origin [simp]: "same_origin j (updated_row now u j)"
  by (simp add: same_origin_def updated_row_def)

lemma claimed_row_same_origin [simp]: "same_origin j (claimed_row now j)"
  by (simp add: same_origin_def claimed_row_def)

lemma guarded_update_frame [simp]:
  "attempts (snd (guarded_update k s f d)) = attempts d"
  "processing_steps (snd (guarded_update k s f d)) = processing_steps d"
  "artifacts (snd (guarded_update k s f d)) = artifacts d"
  "idempotency_keys (snd (guarded_update k s f d)) = idempotency_keys d"
  by (simp_all add: guarded_update_def split: option.splits)

text \<open>What a guarded update does to the row of any job, hit or miss.\<close>

lemma job_of_guarded_update:
  assumes "keeps_ID f"
  shows "job_of (snd (guarded_update k s f d)) i =
    (case job_of d i of None \<Rightarrow> None | Some j \<Rightarrow> Some (if i = k \<and> job_Status j = s then f j else j))"
  using assms by (auto simp: guarded_update_def keeps_ID_def row_of_map_row split: option.splits)

lemma guarded_update_db_le:
  assumes "keeps_ID f" and "\<And>j. same_origin j (f j)"
  shows "db_le d (snd (guarded_update k s f d))"
  using assms(2) by (simp add: db_le_def job_of_guarded_update [OF assms(1)])

lemma sql_insert_job_cases:
  obtains e where "sql_insert_job now p d = (Inl e, d)"
  | "sql_insert_job now p d = (Inr (new_job_row now p), d\<lparr>jobs := jobs d @ [new_job_row now p]\<rparr>)"
    "job_of d (par_ID p) = None" "1 \<le> par_MaxAttempts p" "fits_int32 (par_MaxAttempts p)"
  by (force simp: sql_insert_job_def Let_def split: if_splits)

lemma tx_insert_cases:
  obtains r where "tx_insert_job_with_key now p k h d = (r, d)" "\<nexists>j. r = Inr (Some j)"
  | d' where "sql_insert_job now p d = (Inr (new_job_row now p), d')" "key_of d k = None"
    "tx_insert_job_with_key now p k h d = (Inr (Some (new_job_row now p)),
       d'\<lparr>idempotency_keys := idempotency_keys d @
         [\<lparr>ik_Key = k, ik_JobID = par_ID p, ik_RequestHash = h, ik_CreatedAt = now\<rparr>]\<rparr>)"
  by (rule sql_insert_job_cases [of now p d])
    (force simp: tx_insert_job_with_key_def split: option.splits)+

lemma sql_update_job_cases:
  obtains r where "sql_update_job now i s u d = (r, d)" "\<nexists>j. r = Inr (Some j)"
  | j d' where "guarded_update i s (updated_row now u) d = (Some j, d')" "job_row_ok j = None"
    "sql_update_job now i s u d = (Inr (Some j), d')"
  by (force simp: sql_update_job_def split: option.splits prod.splits)

lemma sql_insert_attempt_cases:
  obtains e where "sql_insert_attempt a d = (Inl e, d)"
  | "sql_insert_attempt a d = (Inr (), d\<lparr>attempts := attempts d @ [a]\<rparr>)"
    "1 \<le> att_Number a" "row_of att_ID (att_ID a) (attempts d) = None"
    "att_Number a \<notin> att_Number ` set (attempts_of d (att_JobID a))" "job_of d (att_JobID a) \<noteq> None"
  by (force simp: sql_insert_attempt_def split: if_splits)

lemma tx_claim_cases:
  obtains r where "tx_claim now i a d = (r, d)" "\<nexists>x. r = Inr (Some x)"
  | j d' where "guarded_update i StatusQueued (claimed_row now) d = (Some j, d')" "job_row_ok j = None"
    "sql_insert_attempt (new_attempt_row now a j) d' =
       (Inr (), d'\<lparr>attempts := attempts d @ [new_attempt_row now a j]\<rparr>)"
    "tx_claim now i a d = (Inr (Some (j, new_attempt_row now a j)),
       d'\<lparr>attempts := attempts d @ [new_attempt_row now a j]\<rparr>)"
    "1 \<le> job_AttemptCount j" "row_of att_ID a (attempts d) = None"
    "job_AttemptCount j \<notin> att_Number ` set (attempts_of d (job_ID j))" "job_of d' (job_ID j) \<noteq> None"
proof (cases "guarded_update i StatusQueued (claimed_row now) d")
  case (Pair r d')
  show thesis
  proof (cases r)
    case None
    with Pair that(1) show ?thesis by (simp add: tx_claim_def)
  next
    case (Some j)
    have at: "attempts d' = attempts d"
      using Pair guarded_update_frame(1) [of i StatusQueued "claimed_row now" d] by simp
    show ?thesis
    proof (cases "job_row_ok j")
      case None
      with Pair Some at that show ?thesis
        by (rule_tac sql_insert_attempt_cases [of "new_attempt_row now a j" d'])
          (auto simp: tx_claim_def new_attempt_row_def attempts_of_def Let_def)
    next
      case (Some e)
      with Pair \<open>r = Some j\<close> that(1) show ?thesis by (simp add: tx_claim_def)
    qed
  qed
qed

lemma sql_insert_job_db_le: "db_le d (snd (sql_insert_job now p d))"
  by (rule sql_insert_job_cases [of now p d]) (simp_all add: db_le_def row_of_append)

lemma tx_insert_db_le: "db_le d (snd (tx_insert_job_with_key now p k h d))"
proof (rule tx_insert_cases [of now p k h d])
  fix d' assume a: "sql_insert_job now p d = (Inr (new_job_row now p), d')" "key_of d k = None"
    "tx_insert_job_with_key now p k h d = (Inr (Some (new_job_row now p)),
       d'\<lparr>idempotency_keys := idempotency_keys d @
         [\<lparr>ik_Key = k, ik_JobID = par_ID p, ik_RequestHash = h, ik_CreatedAt = now\<rparr>]\<rparr>)"
  then have "db_le d d'" using sql_insert_job_db_le [of d now p] by simp
  then show ?thesis using a(3) by (simp add: db_le_def row_of_append)
qed simp

lemma sql_update_job_db_le: "db_le d (snd (sql_update_job now i s u d))"
proof (rule sql_update_job_cases [of now i s u d])
  fix j d' assume "guarded_update i s (updated_row now u) d = (Some j, d')"
    "sql_update_job now i s u d = (Inr (Some j), d')"
  then show ?thesis using guarded_update_db_le [of "updated_row now u" d i s] by simp
qed simp

lemma tx_claim_db_le: "db_le d (snd (tx_claim now i a d))"
proof (rule tx_claim_cases [of now i a d])
  fix j d'
  assume a: "guarded_update i StatusQueued (claimed_row now) d = (Some j, d')"
    "tx_claim now i a d = (Inr (Some (j, new_attempt_row now a j)),
       d'\<lparr>attempts := attempts d @ [new_attempt_row now a j]\<rparr>)"
  have le: "db_le d d'" using a(1) guarded_update_db_le [of "claimed_row now" d i StatusQueued] by simp
  have "attempts d' = attempts d"
    using a(1) guarded_update_frame(1) [of i StatusQueued "claimed_row now" d] by simp
  with le show ?thesis using a(2) by (simp add: db_le_def)
qed simp

lemma sql_finish_attempt_db_le: "db_le d (snd (sql_finish_attempt now a s m d))"
proof -
  have "map att_row (map_row att_ID a (\<lambda>a. a\<lparr>att_Status := s, att_Error := m, att_FinishedAt := Some now\<rparr>) rows)
      = map att_row rows" for rows
    by (rule map_map_row) simp
  then show ?thesis by (simp add: db_le_def sql_finish_attempt_def)
qed

lemma sql_insert_step_db_le: "db_le d (snd (sql_insert_step s d))"
  by (simp add: sql_insert_step_def db_le_def)

lemma sql_upsert_artifact_db_le: "db_le d (snd (sql_upsert_artifact now a d))"
proof -
  have "map art_slot (map_row art_slot (art_slot a)
          (\<lambda>r. r\<lparr>art_Kind := k, art_ContentType := c, art_SizeBytes := n\<rparr>) rows) = map art_slot rows" for k c n rows
    by (rule map_map_row) simp
  then show ?thesis by (simp add: db_le_def sql_upsert_artifact_def)
qed

section \<open>Statements and the constraints\<close>

lemma wf_frame:
  assumes "wf_db d" and "db_le d d'" and "wf_jobs d'" and "attempts d' = attempts d"
    and "processing_steps d' = processing_steps d" and "artifacts d' = artifacts d"
    and "idempotency_keys d' = idempotency_keys d"
  shows "wf_db d'"
  using assms db_le_job_exists [OF assms(2)]
  by (auto simp: wf_db_def wf_attempts_def wf_steps_def wf_artifacts_def wf_keys_def list_all_iff
      simp del: not_None_eq)

lemma sql_insert_job_wf:
  assumes "wf_db d"
  shows "wf_db (snd (sql_insert_job now p d))"
proof (rule sql_insert_job_cases [of now p d])
  assume a: "sql_insert_job now p d = (Inr (new_job_row now p), d\<lparr>jobs := jobs d @ [new_job_row now p]\<rparr>)"
    "job_of d (par_ID p) = None" "1 \<le> par_MaxAttempts p" "fits_int32 (par_MaxAttempts p)"
  have "job_row_valid (new_job_row now p)" "par_ID p \<notin> job_ID ` set (jobs d)"
    using a(2-4) by (simp_all add: job_row_valid_def new_job_row_def fits_int32_def row_of_None_iff)
  then have "wf_jobs (d\<lparr>jobs := jobs d @ [new_job_row now p]\<rparr>)"
    using assms by (simp add: wf_db_def wf_jobs_def new_job_row_def)
  then show ?thesis
    using a(1) assms sql_insert_job_db_le [of d now p] by (rule_tac d = d in wf_frame) simp_all
qed (use assms in simp)

lemma tx_insert_wf:
  assumes "wf_db d"
  shows "wf_db (snd (tx_insert_job_with_key now p k h d))"
proof (rule tx_insert_cases [of now p k h d])
  fix d'
  assume a: "sql_insert_job now p d = (Inr (new_job_row now p), d')" "key_of d k = None"
    "tx_insert_job_with_key now p k h d = (Inr (Some (new_job_row now p)),
       d'\<lparr>idempotency_keys := idempotency_keys d @
         [\<lparr>ik_Key = k, ik_JobID = par_ID p, ik_RequestHash = h, ik_CreatedAt = now\<rparr>]\<rparr>)"
  have d': "wf_db d'" "jobs d' = jobs d @ [new_job_row now p]" "idempotency_keys d' = idempotency_keys d"
    using sql_insert_job_wf [OF assms, of now p] a(1)
    by (auto simp: sql_insert_job_def Let_def split: if_splits)
  have "job_of d' (par_ID p) \<noteq> None"
    using d'(2) by (simp add: row_of_append new_job_row_def split: option.split)
  then show ?thesis
    using d' a(2,3) unfolding wf_db_def wf_jobs_def wf_attempts_def wf_steps_def wf_artifacts_def wf_keys_def
    by (simp add: row_of_None_iff)
qed (use assms in simp)

lemma guarded_update_wf:
  assumes "wf_db d" and "keeps_ID f" and "\<And>j. same_origin j (f j)"
    and "guarded_update k s f d = (Some j, d')" and "job_row_ok j = None"
  shows "wf_db d'"
proof -
  obtain r where r: "job_of d k = Some r" "j = f r" "d' = d\<lparr>jobs := map_row job_ID k f (jobs d)\<rparr>"
    using assms(4) by (auto simp: guarded_update_def split: option.splits if_splits)
  have dist: "distinct (map job_ID (jobs d))" and valid: "\<forall>x \<in> set (jobs d). job_row_valid x"
    using assms(1) by (auto simp: wf_db_def wf_jobs_def list_all_iff)
  have "job_row_valid j"
    using assms(3) [of r] assms(5) r(1,2) valid [rule_format, of r] row_of_SomeD [OF r(1)]
    by (auto simp: job_row_ok_def job_row_valid_def same_origin_def split: if_splits)
  moreover have "x = r" if "x \<in> set (jobs d)" "job_ID x = k" for x
    using row_of_Some_if_distinct [OF dist that(1)] that(2) r(1) by simp
  ultimately have "job_row_valid x" if "x \<in> set (map_row job_ID k f (jobs d))" for x
    using set_map_rowD [OF that] valid r(2) by auto
  then have "wf_jobs d'"
    using dist r(3) assms(2) by (simp add: wf_jobs_def list_all_iff map_map_row keeps_ID_def)
  then show ?thesis
    using assms(1,4) guarded_update_db_le [OF assms(2,3), of d k s] guarded_update_frame [of k s f d]
    by (rule_tac d = d in wf_frame) simp_all
qed

lemma sql_update_job_wf:
  assumes "wf_db d"
  shows "wf_db (snd (sql_update_job now i s u d))"
proof (rule sql_update_job_cases [of now i s u d])
  fix j d' assume "guarded_update i s (updated_row now u) d = (Some j, d')" "job_row_ok j = None"
    "sql_update_job now i s u d = (Inr (Some j), d')"
  then show ?thesis using guarded_update_wf [OF assms, of "updated_row now u" i s j d'] by simp
qed (use assms in simp)

lemma attempts_append_wf:
  assumes "wf_db d" and "1 \<le> att_Number a" and "row_of att_ID (att_ID a) (attempts d) = None"
    and "att_Number a \<notin> att_Number ` set (attempts_of d (att_JobID a))" and "job_of d (att_JobID a) \<noteq> None"
  shows "wf_db (d\<lparr>attempts := attempts d @ [a]\<rparr>)"
proof -
  have "(att_JobID a, att_Number a) \<notin> (\<lambda>a. (att_JobID a, att_Number a)) ` set (attempts d)"
    using assms(4) by (auto simp: attempts_of_def)
  then have "wf_attempts (d\<lparr>attempts := attempts d @ [a]\<rparr>)"
    using assms(1-3,5) by (simp add: wf_db_def wf_attempts_def row_of_None_iff)
  moreover have "wf_steps (d\<lparr>attempts := attempts d @ [a]\<rparr>)"
    using assms(1) by (auto simp: wf_db_def wf_steps_def list_all_iff row_of_append split: option.split)
  ultimately show ?thesis
    using assms(1) by (simp add: wf_db_def wf_jobs_def wf_artifacts_def wf_keys_def)
qed

lemma tx_claim_wf:
  assumes "wf_db d"
  shows "wf_db (snd (tx_claim now i a d))"
proof (rule tx_claim_cases [of now i a d])
  fix j d'
  assume a: "guarded_update i StatusQueued (claimed_row now) d = (Some j, d')" "job_row_ok j = None"
    "tx_claim now i a d = (Inr (Some (j, new_attempt_row now a j)),
       d'\<lparr>attempts := attempts d @ [new_attempt_row now a j]\<rparr>)"
    "1 \<le> job_AttemptCount j" "row_of att_ID a (attempts d) = None"
    "job_AttemptCount j \<notin> att_Number ` set (attempts_of d (job_ID j))" "job_of d' (job_ID j) \<noteq> None"
  have "wf_db d'" using guarded_update_wf [OF assms, of "claimed_row now" i StatusQueued j d'] a(1,2) by simp
  moreover have "attempts d' = attempts d"
    using a(1) guarded_update_frame(1) [of i StatusQueued "claimed_row now" d] by simp
  ultimately show ?thesis
    using a(3-7) attempts_append_wf [of d' "new_attempt_row now a j"]
    by (simp add: new_attempt_row_def attempts_of_def del: not_None_eq)
qed (use assms in simp)

lemma sql_finish_attempt_wf: "wf_db d \<Longrightarrow> wf_db (snd (sql_finish_attempt now a s m d))"
proof -
  assume wf: "wf_db d"
  let ?f = "\<lambda>a. a\<lparr>att_Status := s, att_Error := m, att_FinishedAt := Some now\<rparr>"
  let ?rows = "map_row att_ID a ?f (attempts d)"
  have "1 \<le> att_Number x \<and> job_of d (att_JobID x) \<noteq> None" if "x \<in> set ?rows" for x
    using set_map_rowD [OF that] wf by (auto simp: wf_db_def wf_attempts_def list_all_iff)
  then have "wf_attempts (d\<lparr>attempts := ?rows\<rparr>)"
    using wf by (simp add: wf_db_def wf_attempts_def map_map_row list_all_iff)
  moreover have "wf_steps (d\<lparr>attempts := ?rows\<rparr>)"
    using wf by (auto simp: wf_db_def wf_steps_def list_all_iff row_of_map_row)
  ultimately show ?thesis
    using wf by (simp add: wf_db_def wf_jobs_def wf_artifacts_def wf_keys_def sql_finish_attempt_def)
qed

lemma sql_insert_step_wf: "wf_db d \<Longrightarrow> wf_db (snd (sql_insert_step s d))"
  by (auto simp: sql_insert_step_def wf_db_def wf_jobs_def wf_attempts_def wf_steps_def wf_artifacts_def
      wf_keys_def row_of_None_iff)

lemma sql_upsert_artifact_wf:
  assumes wf: "wf_db d"
  shows "wf_db (snd (sql_upsert_artifact now a d))"
proof -
  let ?f = "\<lambda>r. r\<lparr>art_Kind := art_Kind a, art_ContentType := art_ContentType a, art_SizeBytes := art_SizeBytes a\<rparr>"
  let ?rows = "map_row art_slot (art_slot a) ?f (artifacts d)"
  have "0 \<le> art_SizeBytes x \<and> job_of d (art_JobID x) \<noteq> None"
    if "x \<in> set ?rows" "0 \<le> art_SizeBytes a" for x
    using set_map_rowD [OF that(1)] that(2) wf by (auto simp: wf_db_def wf_artifacts_def list_all_iff)
  then have upd: "wf_artifacts (d\<lparr>artifacts := ?rows\<rparr>)" if "0 \<le> art_SizeBytes a"
    using wf that by (simp add: wf_db_def wf_artifacts_def map_map_row list_all_iff)
  have ins: "wf_artifacts (d\<lparr>artifacts := artifacts d @ [a\<lparr>art_CreatedAt := now\<rparr>]\<rparr>)"
    if "0 \<le> art_SizeBytes a" "job_of d (art_JobID a) \<noteq> None" "row_of art_slot (art_slot a) (artifacts d) = None"
      "row_of art_ID (art_ID a) (artifacts d) = None"
    using wf that by (simp add: wf_db_def wf_artifacts_def row_of_None_iff)
  show ?thesis
    using wf upd ins by (auto simp: sql_upsert_artifact_def wf_db_def wf_jobs_def wf_attempts_def wf_steps_def wf_keys_def)
qed

section \<open>The two facts as instances of the interfaces\<close>

interpretation schema: table_invariant wf_db
proof
  fix d d' assume "db_effect d d'" "wf_db d"
  then show "wf_db d'"
    by (induction rule: db_effect.induct)
      (simp_all add: sql_insert_job_wf tx_insert_wf sql_update_job_wf tx_claim_wf
        sql_finish_attempt_wf sql_insert_step_wf sql_upsert_artifact_wf)
qed

interpretation persist: table_order db_le
proof
  fix d d' assume "db_effect d d'"
  then show "db_le d d'"
    by (induction rule: db_effect.induct)
      (simp_all add: sql_insert_job_db_le tx_insert_db_le sql_update_job_db_le tx_claim_db_le
        sql_finish_attempt_db_le sql_insert_step_db_le sql_upsert_artifact_db_le)
qed (rule db_le_trans)

lemma wf_empty_db [simp]: "wf_db empty_db"
  by (simp add: wf_db_def wf_jobs_def wf_attempts_def wf_steps_def wf_artifacts_def wf_keys_def empty_db_def)

end
