(* ===== verification/Protocol.thy ===== *)
theory Protocol
  imports Integrity
begin

text \<open>
  The abstract specification of the job lifecycle under concurrency. What matters of the
  tables is a view (status, attempt counter, budget and recorded attempt numbers of each
  job); what matters of a running goroutine is the lease it holds on the job it claimed.
  \<open>lease_step\<close> says which moves an actor may make, \<open>lease_inv\<close> what every combination of
  such moves preserves. \<open>Concurrency\<close> shows that the programs make only these moves.
\<close>

section \<open>Views and leases\<close>

record jview =
  jv_status :: job_status
  jv_count :: int
  jv_max :: int
  jv_attempts :: "int list"

type_synonym jobs_view = "uuid \<Rightarrow> jview option"

definition view :: "db \<Rightarrow> jobs_view" where
  "view d i = map_option
     (\<lambda>j. \<lparr>jv_status = job_Status j, jv_count = job_AttemptCount j, jv_max = job_MaxAttempts j,
            jv_attempts = map att_Number (attempts_of d i)\<rparr>) (job_of d i)"

text \<open>
  The lease of a worker: the job, where it stands in the protocol, and the attempt number
  and budget it read when it claimed the job.
\<close>

datatype phase = Working | Failing | Requeueing

type_synonym lease = "(uuid \<times> phase \<times> int \<times> int) option"

section \<open>The moves\<close>

inductive lease_step :: "lease \<Rightarrow> lease \<Rightarrow> jobs_view \<Rightarrow> jobs_view \<Rightarrow> bool" where
  idle: "lease_step g g v v"
| release: "lease_step g g' v v' \<Longrightarrow> lease_step g None v v'"
| abandon: "lease_step None g' v v' \<Longrightarrow> lease_step g g' v v'"
| create: "v i = None \<Longrightarrow> 1 \<le> m \<Longrightarrow> lease_step g g v
    (v(i \<mapsto> \<lparr>jv_status = StatusPending, jv_count = 0, jv_max = m, jv_attempts = []\<rparr>))"
| enqueue: "v i = Some j \<Longrightarrow> jv_status j = StatusPending \<Longrightarrow>
    lease_step g g v (v(i \<mapsto> j\<lparr>jv_status := StatusQueued\<rparr>))"
| cancel: "v i = Some j \<Longrightarrow> CanTransition (jv_status j) StatusCancelled \<Longrightarrow>
    lease_step g g v (v(i \<mapsto> j\<lparr>jv_status := StatusCancelled\<rparr>))"
| claim: "v i = Some j \<Longrightarrow> jv_status j = StatusQueued \<Longrightarrow>
    lease_step None (Some (i, Working, jv_count j + 1, jv_max j)) v
      (v(i \<mapsto> j\<lparr>jv_status := StatusProcessing, jv_count := jv_count j + 1,
                jv_attempts := jv_attempts j @ [jv_count j + 1]\<rparr>))"
| complete: "v i = Some j \<Longrightarrow> jv_status j = StatusProcessing \<Longrightarrow>
    lease_step (Some (i, Working, n, m)) None v (v(i \<mapsto> j\<lparr>jv_status := StatusCompleted\<rparr>))"
| fail: "v i = Some j \<Longrightarrow> jv_status j = StatusProcessing \<Longrightarrow>
    lease_step (Some (i, Working, n, m)) (Some (i, Failing, n, m)) v (v(i \<mapsto> j\<lparr>jv_status := StatusFailed\<rparr>))"
| retry: "v i = Some j \<Longrightarrow> jv_status j = StatusFailed \<Longrightarrow> n < m \<Longrightarrow>
    lease_step (Some (i, Failing, n, m)) (Some (i, Requeueing, n, m)) v (v(i \<mapsto> j\<lparr>jv_status := StatusRetrying\<rparr>))"
| requeue: "v i = Some j \<Longrightarrow> jv_status j = StatusRetrying \<Longrightarrow>
    lease_step (Some (i, Requeueing, n, m)) None v (v(i \<mapsto> j\<lparr>jv_status := StatusQueued\<rparr>))"

section \<open>What the moves preserve\<close>

definition job_fits :: "jview \<Rightarrow> bool" where
  "job_fits j \<longleftrightarrow> Valid (jv_status j) \<and> 1 \<le> jv_max j \<and> 0 \<le> jv_count j \<and> jv_count j \<le> jv_max j
     \<and> (jv_status j \<in> {StatusPending, StatusQueued, StatusRetrying} \<longrightarrow> jv_count j < jv_max j)
     \<and> (jv_status j = StatusPending \<longrightarrow> jv_count j = 0)
     \<and> (jv_status j \<in> {StatusProcessing, StatusCompleted, StatusFailed, StatusRetrying} \<longrightarrow> 1 \<le> jv_count j)
     \<and> jv_attempts j = [1..jv_count j]"

fun phase_allows :: "phase \<Rightarrow> job_status \<Rightarrow> bool" where
  "phase_allows Working s \<longleftrightarrow> s = StatusProcessing \<or> s = StatusCancelled"
| "phase_allows Failing s \<longleftrightarrow> s = StatusFailed"
| "phase_allows Requeueing s \<longleftrightarrow> s = StatusRetrying \<or> s = StatusCancelled"

fun lease_ok :: "jobs_view \<Rightarrow> lease \<Rightarrow> bool" where
  "lease_ok v None \<longleftrightarrow> True"
| "lease_ok v (Some (i, ph, n, m)) \<longleftrightarrow>
     (\<exists>j. v i = Some j \<and> jv_count j = n \<and> jv_max j = m \<and> phase_allows ph (jv_status j))"

definition leases_unique :: "('t \<Rightarrow> lease) \<Rightarrow> bool" where
  "leases_unique g \<longleftrightarrow> (\<forall>t t' i a b. g t = Some (i, a) \<longrightarrow> g t' = Some (i, b) \<longrightarrow> t = t')"

definition lease_inv :: "jobs_view \<Rightarrow> ('t \<Rightarrow> lease) \<Rightarrow> bool" where
  "lease_inv v g \<longleftrightarrow> (\<forall>i j. v i = Some j \<longrightarrow> job_fits j) \<and> (\<forall>t. lease_ok v (g t)) \<and> leases_unique g"

lemma lease_inv_drop: "lease_inv v g \<Longrightarrow> lease_inv v (g(t := None))"
  by (auto simp: lease_inv_def leases_unique_def)

lemma lease_inv_keep: "lease_inv v g \<Longrightarrow> g t = l \<Longrightarrow> lease_inv v (g(t := l))"
  by (auto simp: fun_upd_triv)

text \<open>A move on job \<open>i\<close> by \<open>t\<close> concerns no lease on another job.\<close>

lemma lease_inv_update:
  assumes inv: "lease_inv v g" and fits: "job_fits j'" and mine: "lease_ok (v(i \<mapsto> j')) l"
    and others: "\<And>t' a. t' \<noteq> t \<Longrightarrow> g t' = Some (i, a) \<Longrightarrow> lease_ok (v(i \<mapsto> j')) (g t')"
    and unique: "\<And>k a t' b. l = Some (k, a) \<Longrightarrow> t' \<noteq> t \<Longrightarrow> g t' \<noteq> Some (k, b)"
  shows "lease_inv (v(i \<mapsto> j')) (g(t := l))"
proof -
  have "lease_ok (v(i \<mapsto> j')) (g t')" if "t' \<noteq> t" for t'
  proof (cases "g t'")
    case (Some l')
    obtain k ph n m where l': "l' = (k, ph, n, m)" by (cases l')
    have "lease_ok v (g t')" using inv by (simp add: lease_inv_def)
    then show ?thesis
      using Some l' others [OF that, of "(ph, n, m)"] by (cases "k = i") auto
  qed simp
  moreover have "leases_unique (g(t := l))"
  proof (unfold leases_unique_def, intro allI impI)
    fix s s' k a b
    assume s: "(g(t := l)) s = Some (k, a)" "(g(t := l)) s' = Some (k, b)"
    consider "s = s'" | "s = t" "s' \<noteq> t" | "s \<noteq> t" "s' = t" | "s \<noteq> t" "s' \<noteq> t" by blast
    then show "s = s'"
    proof cases
      case 2 then show ?thesis using s unique [of k a s' b] by simp
    next
      case 3 then show ?thesis using s unique [of k b s a] by simp
    next
      case 4
      then have "g s = Some (k, a)" "g s' = Some (k, b)" using s by simp_all
      with inv show ?thesis unfolding lease_inv_def leases_unique_def by blast
    qed
  qed
  moreover have "\<forall>k j. (v(i \<mapsto> j')) k = Some j \<longrightarrow> job_fits j"
    using inv fits by (simp add: lease_inv_def)
  ultimately show ?thesis
    using mine by (simp add: lease_inv_def)
qed

lemma lease_inv_fits: "lease_inv v g \<Longrightarrow> v i = Some j \<Longrightarrow> job_fits j"
  by (simp add: lease_inv_def)

lemma lease_inv_lease: "lease_inv v g \<Longrightarrow> g t = Some (i, ph, n, m) \<Longrightarrow>
    \<exists>j. v i = Some j \<and> jv_count j = n \<and> jv_max j = m \<and> phase_allows ph (jv_status j)"
  unfolding lease_inv_def by (metis lease_ok.simps(2))

lemma lease_inv_other:
  "lease_inv v g \<Longrightarrow> g t = Some (i, a) \<Longrightarrow> t' \<noteq> t \<Longrightarrow> g t' \<noteq> Some (i, b)"
  unfolding lease_inv_def leases_unique_def by blast

text \<open>A job that no phase allows to be in its present state is leased by nobody.\<close>

lemma lease_inv_unleased:
  assumes "lease_inv v g" and "v i = Some j" and "\<And>ph. \<not> phase_allows ph (jv_status j)"
  shows "g t \<noteq> Some (i, a)"
proof
  assume "g t = Some (i, a)"
  then obtain ph n m where "g t = Some (i, ph, n, m)" by (cases a) auto
  then show False using lease_inv_lease [OF assms(1)] assms(2,3) by fastforce
qed

lemma phase_allows_none [simp]:
  "\<not> phase_allows ph StatusPending" "\<not> phase_allows ph StatusQueued" "\<not> phase_allows ph StatusCompleted"
  by (cases ph; simp)+

text \<open>A move of the lease holder leaves every other lease alone.\<close>

lemma lease_inv_holder_step:
  assumes inv: "lease_inv v g" and hold: "g t = Some (i, a)"
    and fits: "job_fits j'" and l: "l = None \<or> (\<exists>b. l = Some (i, b))" and mine: "lease_ok (v(i \<mapsto> j')) l"
  shows "lease_inv (v(i \<mapsto> j')) (g(t := l))"
  using lease_inv_other [OF inv hold] l
  by (intro lease_inv_update [OF inv fits mine]) auto

lemma lease_inv_same:
  assumes inv: "lease_inv v g" and fits: "job_fits j'"
    and ok: "\<And>s. lease_ok (v(i \<mapsto> j')) (g s)"
  shows "lease_inv (v(i \<mapsto> j')) g"
proof -
  have "lease_inv (v(i \<mapsto> j')) (g(t := g t))" for t
    using lease_inv_other [OF inv] by (intro lease_inv_update [OF inv fits ok ok]) blast
  then show ?thesis by simp
qed

text \<open>A change of status that every lease on the job survives.\<close>

lemma lease_inv_status:
  assumes inv: "lease_inv v g" and j: "v i = Some j" and fits: "job_fits j'"
    and same: "jv_count j' = jv_count j" "jv_max j' = jv_max j"
    and ph: "\<And>ph. phase_allows ph (jv_status j) \<Longrightarrow> phase_allows ph (jv_status j')"
  shows "lease_inv (v(i \<mapsto> j')) g"
proof (rule lease_inv_same [OF inv fits])
  fix s
  show "lease_ok (v(i \<mapsto> j')) (g s)"
  proof (cases "g s")
    case (Some l)
    then obtain k q n m where l: "g s = Some (k, q, n, m)" by (cases l) auto
    from lease_inv_lease [OF inv l] show ?thesis using l j same ph by auto
  qed simp
qed

theorem lease_step_inv:
  assumes "lease_step l l' v v'" and "lease_inv v g" and "g t = l"
  shows "lease_inv v' (g(t := l'))"
  using assms
proof (induction arbitrary: g rule: lease_step.induct)
  case (idle l v)
  from idle.prems show ?case by (rule lease_inv_keep)
next
  case (release l l' v v')
  have "lease_inv v' (g(t := l'))" using release.prems by (rule release.IH)
  from lease_inv_drop [OF this, of t] show ?case by (simp only: fun_upd_upd)
next
  case (abandon l' v v' l)
  have "lease_inv v (g(t := None))" using abandon.prems(1) by (rule lease_inv_drop)
  from abandon.IH [OF this] show ?case by (simp only: fun_upd_upd fun_upd_same simp_thms)
next
  case (create v i m l)
  then have "g s \<noteq> Some (i, a)" for s a
    using lease_inv_lease [OF create.prems(1), of s i] by (cases a) auto
  then have "lease_ok (v(i \<mapsto> \<lparr>jv_status = StatusPending, jv_count = 0, jv_max = m, jv_attempts = []\<rparr>)) (g s)" for s
    using lease_inv_lease [OF create.prems(1), of s] by (cases "g s") auto
  then have "lease_inv (v(i \<mapsto> \<lparr>jv_status = StatusPending, jv_count = 0, jv_max = m, jv_attempts = []\<rparr>)) g"
    using create.hyps(2) by (intro lease_inv_same [OF create.prems(1)]) (simp_all add: job_fits_def)
  then show ?case using create.prems(2) by (rule lease_inv_keep)
next
  case (enqueue v i j l)
  then have "lease_inv (v(i \<mapsto> j\<lparr>jv_status := StatusQueued\<rparr>)) g"
    using lease_inv_fits [of v g i j] by (intro lease_inv_status) (auto simp: job_fits_def)
  then show ?case using enqueue.prems(2) by (rule lease_inv_keep)
next
  case (cancel v i j l)
  have "phase_allows ph StatusCancelled" if "phase_allows ph (jv_status j)" for ph
    using cancel.hyps(2) that by (cases ph) auto
  then have "lease_inv (v(i \<mapsto> j\<lparr>jv_status := StatusCancelled\<rparr>)) g"
    using cancel lease_inv_fits [of v g i j] by (intro lease_inv_status) (auto simp: job_fits_def)
  then show ?case using cancel.prems(2) by (rule lease_inv_keep)
next
  case (claim v i j)
  have free: "g s \<noteq> Some (i, a)" for s a
    using lease_inv_unleased [OF claim.prems(1) claim.hyps(1)] claim.hyps(2) by simp
  have "job_fits j" using lease_inv_fits [OF claim.prems(1) claim.hyps(1)] .
  then have "job_fits (j\<lparr>jv_status := StatusProcessing, jv_count := jv_count j + 1,
      jv_attempts := jv_attempts j @ [jv_count j + 1]\<rparr>)"
    using claim.hyps(2) by (simp add: job_fits_def upto_rec2)
  then show ?case using free by (intro lease_inv_update [OF claim.prems(1)]) auto
next
  case (complete v i j n m)
  then show ?case
    using lease_inv_fits [of v g i j] by (intro lease_inv_holder_step) (auto simp: job_fits_def)
next
  case (fail v i j n m)
  then show ?case
    using lease_inv_fits [of v g i j] lease_inv_lease [OF fail.prems]
    by (intro lease_inv_holder_step) (auto simp: job_fits_def)
next
  case (retry v i j n m)
  then show ?case
    using lease_inv_fits [of v g i j] lease_inv_lease [OF retry.prems]
    by (intro lease_inv_holder_step) (auto simp: job_fits_def)
next
  case (requeue v i j n m)
  then show ?case
    using lease_inv_fits [of v g i j] by (intro lease_inv_holder_step) (auto simp: job_fits_def)
qed

text \<open>
  What a move does to a job that exists: nothing, or one transition of the state machine;
  the budget is fixed, the counter and the recorded attempts only grow. A job that appears
  is PENDING.
\<close>

definition view_grows :: "jview \<Rightarrow> jview \<Rightarrow> bool" where
  "view_grows j j' \<longleftrightarrow> (j' = j \<or> CanTransition (jv_status j) (jv_status j')) \<and> jv_max j' = jv_max j
     \<and> jv_count j \<le> jv_count j' \<and> prefix (jv_attempts j) (jv_attempts j')"

lemma view_grows_refl [simp]: "view_grows j j"
  by (simp add: view_grows_def)

lemma lease_step_grows:
  assumes "lease_step l l' v v'" and "v i = Some j"
  shows "\<exists>j'. v' i = Some j' \<and> view_grows j j'"
  using assms by (induction rule: lease_step.induct) (auto simp: view_grows_def)

lemma lease_step_new:
  assumes "lease_step l l' v v'" and "v i = None" and "v' i = Some j"
  shows "jv_status j = StatusPending"
  using assms by (induction rule: lease_step.induct) (auto split: if_splits)

section \<open>The view of each statement\<close>

lemma view_cong:
  assumes "jobs d' = jobs d" and "\<And>i. map att_Number (attempts_of d' i) = map att_Number (attempts_of d i)"
  shows "view d' = view d"
  using assms by (intro ext) (simp add: view_def)

lemma view_insert_job:
  assumes "wf_db d" and "sql_insert_job now p d = (Inr row, d')"
  shows "view d (par_ID p) = None" and "1 \<le> par_MaxAttempts p"
    and "view d' = (view d)(par_ID p \<mapsto>
      \<lparr>jv_status = StatusPending, jv_count = 0, jv_max = par_MaxAttempts p, jv_attempts = []\<rparr>)"
proof -
  have new: "job_of d (par_ID p) = None" "1 \<le> par_MaxAttempts p"
      "d' = d\<lparr>jobs := jobs d @ [new_job_row now p]\<rparr>"
    using assms(2) by (auto simp: sql_insert_job_def Let_def split: if_splits)
  have none: "attempts_of d (par_ID p) = []"
    using assms(1) new(1) unfolding wf_db_def wf_attempts_def attempts_of_def list_all_iff filter_empty_conv
    by fastforce
  show "view d (par_ID p) = None" "1 \<le> par_MaxAttempts p"
    using new by (simp_all add: view_def)
  show "view d' = (view d)(par_ID p \<mapsto>
      \<lparr>jv_status = StatusPending, jv_count = 0, jv_max = par_MaxAttempts p, jv_attempts = []\<rparr>)"
    using new none
    by (intro ext) (auto simp: view_def attempts_of_def row_of_append new_job_row_def split: option.split)
qed

lemma view_guarded_update:
  assumes "keeps_ID f" and "guarded_update i s f d = (Some j, d')"
  obtains r where "job_of d i = Some r" "job_Status r = s" "j = f r" "job_ID r = i"
    "view d' = (view d)(i \<mapsto> \<lparr>jv_status = job_Status (f r), jv_count = job_AttemptCount (f r),
       jv_max = job_MaxAttempts (f r), jv_attempts = map att_Number (attempts_of d i)\<rparr>)"
proof -
  obtain r where r: "job_of d i = Some r" "job_Status r = s" "j = f r"
      "d' = d\<lparr>jobs := map_row job_ID i f (jobs d)\<rparr>"
    using assms(2) by (auto simp: guarded_update_def split: option.splits if_splits)
  have "job_of d' k = (if k = i then Some (f r) else job_of d k)" for k
    using r assms(1) by (simp add: row_of_map_row keeps_ID_def)
  then have "view d' = (view d)(i \<mapsto> \<lparr>jv_status = job_Status (f r), jv_count = job_AttemptCount (f r),
       jv_max = job_MaxAttempts (f r), jv_attempts = map att_Number (attempts_of d i)\<rparr>)"
    using r(4) by (intro ext) (simp add: view_def attempts_of_def)
  with r that row_of_key [OF r(1)] show thesis by simp
qed

lemma view_finish_attempt [simp]: "view (snd (sql_finish_attempt now a s m d)) = view d"
proof -
  have "map att_Number (filter (\<lambda>a. att_JobID a = i) (map_row att_ID a
      (\<lambda>a. a\<lparr>att_Status := s, att_Error := m, att_FinishedAt := Some now\<rparr>) rows))
    = map att_Number (filter (\<lambda>a. att_JobID a = i) rows)" for i rows
    by (induction rows) auto
  then show ?thesis by (intro view_cong) (simp_all add: sql_finish_attempt_def attempts_of_def)
qed

lemma view_insert_step [simp]: "view (snd (sql_insert_step s d)) = view d"
  by (rule view_cong) (simp_all add: sql_insert_step_def attempts_of_def)

lemma view_upsert_artifact [simp]: "view (snd (sql_upsert_artifact now a d)) = view d"
  by (rule view_cong) (simp_all add: sql_upsert_artifact_def attempts_of_def)

lemma view_tx_insert:
  assumes "wf_db d"
  obtains "view (snd (tx_insert_job_with_key now p k h d)) = view d"
  | "view d (par_ID p) = None" "1 \<le> par_MaxAttempts p"
    "view (snd (tx_insert_job_with_key now p k h d)) = (view d)(par_ID p \<mapsto>
      \<lparr>jv_status = StatusPending, jv_count = 0, jv_max = par_MaxAttempts p, jv_attempts = []\<rparr>)"
proof (rule tx_insert_cases [of now p k h d])
  fix d' assume a: "sql_insert_job now p d = (Inr (new_job_row now p), d')"
    "tx_insert_job_with_key now p k h d = (Inr (Some (new_job_row now p)),
       d'\<lparr>idempotency_keys := idempotency_keys d @
         [\<lparr>ik_Key = k, ik_JobID = par_ID p, ik_RequestHash = h, ik_CreatedAt = now\<rparr>]\<rparr>)"
  have "view (snd (tx_insert_job_with_key now p k h d)) = view d'"
    unfolding a(2) by (rule view_cong) (simp_all add: attempts_of_def)
  then show thesis using view_insert_job [OF assms a(1)] that(2) by simp
qed (use that(1) in simp)

text \<open>A claim counts the attempt and records its row in one move.\<close>

lemma view_tx_claim:
  obtains r where "tx_claim now i a d = (r, d)" "\<nexists>x. r = Inr (Some x)"
  | q j d' where "view d i = Some q" "jv_status q = StatusQueued" "job_ID j = i"
    "job_AttemptCount j = jv_count q + 1" "job_MaxAttempts j = jv_max q"
    "tx_claim now i a d = (Inr (Some (j, new_attempt_row now a j)), d')"
    "view d' = (view d)(i \<mapsto> q\<lparr>jv_status := StatusProcessing, jv_count := jv_count q + 1,
       jv_attempts := jv_attempts q @ [jv_count q + 1]\<rparr>)"
proof (rule tx_claim_cases [of now i a d])
  fix j d'
  assume a: "guarded_update i StatusQueued (claimed_row now) d = (Some j, d')"
    "tx_claim now i a d = (Inr (Some (j, new_attempt_row now a j)),
       d'\<lparr>attempts := attempts d @ [new_attempt_row now a j]\<rparr>)"
  obtain r where r: "job_of d i = Some r" "job_Status r = StatusQueued" "j = claimed_row now r" "job_ID r = i"
    "view d' = (view d)(i \<mapsto> \<lparr>jv_status = job_Status j, jv_count = job_AttemptCount j,
       jv_max = job_MaxAttempts j, jv_attempts = map att_Number (attempts_of d i)\<rparr>)"
    using view_guarded_update [OF _ a(1)] by auto
  define q where "q = \<lparr>jv_status = job_Status r, jv_count = job_AttemptCount r, jv_max = job_MaxAttempts r,
    jv_attempts = map att_Number (attempts_of d i)\<rparr>"
  have at: "attempts d' = attempts d"
    using a(1) guarded_update_frame(1) [of i StatusQueued "claimed_row now" d] by simp
  have "view (d'\<lparr>attempts := attempts d @ [new_attempt_row now a j]\<rparr>) k =
      ((view d)(i \<mapsto> q\<lparr>jv_status := StatusProcessing, jv_count := jv_count q + 1,
       jv_attempts := jv_attempts q @ [jv_count q + 1]\<rparr>)) k" for k
    using fun_cong [OF r(5), of k] r(3,4) at
    by (cases "k = i") (auto simp: view_def attempts_of_def q_def new_attempt_row_def claimed_row_def)
  then show thesis
    using that(2) [of q j] a(2) r q_def by (simp add: view_def claimed_row_def fun_eq_iff)
qed (use that(1) in blast)

end
