(* ===== verification/Safety.thy ===== *)
theory Safety
  imports Service Handler Requeue Protocol
begin

text \<open>
  Every call of every program is a move of the lifecycle protocol. \<open>safe l p\<close> says that a
  goroutine that holds lease \<open>l\<close> and has program \<open>p\<close> left to run makes only protocol moves,
  whatever other goroutines do between its calls and however its calls fail;
  \<open>neutral p\<close> that none of its calls touches a job's view.
\<close>

section \<open>Neutral and safe programs\<close>

inductive neutral :: "'r prog \<Rightarrow> bool" where
  neutral_done: "is_done p \<Longrightarrow> neutral p"
| neutral_call: "(\<And>oc w. view (w_db (snd (step_prog oc p w))) = view (w_db w)
    \<and> neutral (fst (step_prog oc p w))) \<Longrightarrow> neutral p"

inductive safe :: "lease \<Rightarrow> 'r prog \<Rightarrow> bool" where
  safe_done: "is_done p \<Longrightarrow> safe l p"
| safe_call: "(\<And>oc w. wf_db (w_db w) \<Longrightarrow>
      \<exists>l'. lease_step l l' (view (w_db w)) (view (w_db (snd (step_prog oc p w))))
         \<and> safe l' (fst (step_prog oc p w))) \<Longrightarrow> safe l p"

inductive_cases safe_callE: "safe l p"

lemma safe_stepD:
  "safe l p \<Longrightarrow> \<not> is_done p \<Longrightarrow> wf_db (w_db w) \<Longrightarrow>
    \<exists>l'. lease_step l l' (view (w_db w)) (view (w_db (snd (step_prog oc p w))))
       \<and> safe l' (fst (step_prog oc p w))"
  by (erule safe_callE) auto

lemma neutral_Return [simp, neutral_intros]: "neutral (Return r)" "neutral Panic"
  by (simp_all add: neutral_done)

lemma view_faulty_sql:
  "(\<And>d. view (snd (g d)) = view d) \<Longrightarrow> view (snd (faulty_sql f g d)) = view d"
  by (cases f) auto

lemma neutral_calls [neutral_intros]:
  "(\<And>x. neutral (k1 x)) \<Longrightarrow> neutral (NewUUID k1)"
  "(\<And>x. neutral (k2 x)) \<Longrightarrow> neutral (TimeNow k2)"
  "(\<And>x. neutral (k3 x)) \<Longrightarrow> neutral (YearMonth k3)"
  "(\<And>x. neutral (k4 x)) \<Longrightarrow> neutral (CtxErr k4)"
  "(\<And>x. neutral (k5 x)) \<Longrightarrow> neutral (Int64N n k5)"
  "neutral k6 \<Longrightarrow> neutral (Metric m k6)"
  "(\<And>x. neutral (k7 x)) \<Longrightarrow> neutral (SelectKey i k7)"
  "(\<And>x. neutral (k8 x)) \<Longrightarrow> neutral (SelectJob u k8)"
  "(\<And>x. neutral (k9 x)) \<Longrightarrow> neutral (ExistsJob u k9)"
  "(\<And>x. neutral (k10 x)) \<Longrightarrow> neutral (UpdateAttempt u as em k10)"
  "(\<And>x. neutral (k11 x)) \<Longrightarrow> neutral (InsertStep st k11)"
  "(\<And>x. neutral (k12 x)) \<Longrightarrow> neutral (UpsertArtifact art k12)"
  "(\<And>x. neutral (k13 x)) \<Longrightarrow> neutral (SelectArtifacts u k13)"
  "(\<And>x. neutral (k14 x)) \<Longrightarrow> neutral (SelectRequeueable c l k14)"
  by (rule neutral_call; auto simp: on_db_def view_faulty_sql)+

lemma neutral_service_calls [neutral_intros]:
  "(\<And>x. neutral (k1 x)) \<Longrightarrow> neutral (MinioStat i k1)"
  "(\<And>x. neutral (k2 x)) \<Longrightarrow> neutral (MinioGet i k2)"
  "(\<And>x. neutral (k3 x)) \<Longrightarrow> neutral (ReadBody n k3)"
  "(\<And>x. neutral (k4 x)) \<Longrightarrow> neutral (MinioPut i b n c k4)"
  "(\<And>x. neutral (k5 x)) \<Longrightarrow> neutral (MinioRemove i k5)"
  "(\<And>x. neutral (k6 x)) \<Longrightarrow> neutral (MinioPresign g i e k6)"
  "(\<And>x. neutral (k7 x)) \<Longrightarrow> neutral (PublishMsg i b k7)"
  by (rule neutral_call; auto split: prod.splits)+

lemma neutral_cases [neutral_intros]:
  "(\<And>a. neutral (f1 a)) \<Longrightarrow> (\<And>b. neutral (g1 b)) \<Longrightarrow> neutral (case_sum f1 g1 s)"
  "neutral p2 \<Longrightarrow> (\<And>b. neutral (g2 b)) \<Longrightarrow> neutral (case_option p2 g2 opt)"
  "(\<And>a b. neutral (f3 a b)) \<Longrightarrow> neutral (case_prod f3 ab)"
  "neutral p4 \<Longrightarrow> neutral q4 \<Longrightarrow> neutral (if c then p4 else q4)"
  by (cases s; cases opt; cases ab; simp)+

lemma neutral_bind [neutral_intros]:
  assumes "neutral p" and "\<And>r. neutral (f r)"
  shows "neutral (bind_prog p f)"
  using assms(1)
proof (induction rule: neutral.induct)
  case (neutral_done p)
  then show ?case using assms(2) by (auto simp: is_done_cases)
next
  case (neutral_call p)
  show ?case
  proof (cases "is_done p")
    case True
    then show ?thesis using assms(2) by (auto simp: is_done_cases)
  next
    case False
    then show ?thesis
      using neutral_call.IH by (intro neutral.neutral_call) (simp add: step_prog_bind)
  qed
qed

lemma neutral_safe: "neutral p \<Longrightarrow> safe l p"
proof (induction rule: neutral.induct)
  case (neutral_call p)
  show ?case
  proof (rule safe_call)
    fix oc :: outside and w
    have "lease_step l l (view (w_db w)) (view (w_db (snd (step_prog oc p w))))"
      using neutral_call.IH [of oc w] by (simp add: lease_step.idle)
    then show "\<exists>l'. lease_step l l' (view (w_db w)) (view (w_db (snd (step_prog oc p w))))
        \<and> safe l' (fst (step_prog oc p w))"
      using neutral_call.IH by blast
  qed
qed (rule safe_done)

text \<open>A program that needs no lease may hold one.\<close>

lemma safe_abandon: "safe None p \<Longrightarrow> safe l p"
proof (erule safe_callE)
  assume "\<And>oc w. wf_db (w_db w) \<Longrightarrow>
    \<exists>l'. lease_step None l' (view (w_db w)) (view (w_db (snd (step_prog oc p w))))
       \<and> safe l' (fst (step_prog oc p w))"
  then show ?thesis by (meson safe_call lease_step.abandon)
qed (rule safe_done)

lemma safe_bind_neutral:
  assumes "neutral p" and "\<And>r. safe l (f r)"
  shows "safe l (bind_prog p f)"
  using assms(1)
proof (induction rule: neutral.induct)
  case (neutral_done p)
  then show ?case using assms(2) by (auto simp: is_done_cases safe_done)
next
  case (neutral_call p)
  show ?case
  proof (cases "is_done p")
    case True
    then show ?thesis using assms(2) by (auto simp: is_done_cases safe_done)
  next
    case False
    show ?thesis
    proof (rule safe_call)
      fix oc :: outside and w
      show "\<exists>l'. lease_step l l' (view (w_db w)) (view (w_db (snd (step_prog oc (bind_prog p f) w))))
          \<and> safe l' (fst (step_prog oc (bind_prog p f) w))"
        using neutral_call.IH [of oc w] lease_step.idle by (auto simp: step_prog_bind [OF False])
    qed
  qed
qed

text \<open>A program that gives its lease up before it returns may be followed by one that needs none.\<close>

lemma safe_bind:
  assumes "safe l p" and "\<And>r. safe None (f r)"
  shows "safe l (bind_prog p f)"
  using assms(1)
proof (induction rule: safe.induct)
  case (safe_done p l)
  then show ?case using safe_abandon [OF assms(2)] by (auto simp: is_done_cases safe.safe_done)
next
  case (safe_call l p)
  show ?case
  proof (cases "is_done p")
    case True
    then show ?thesis using safe_abandon [OF assms(2)] by (auto simp: is_done_cases safe.safe_done)
  next
    case False
    then show ?thesis
      using safe_call.IH by (intro safe.safe_call) (force simp: step_prog_bind)
  qed
qed

lemma safe_recover: "safe l p \<Longrightarrow> safe l (recover_prog p r)"
proof (induction rule: safe.induct)
  case (safe_call l p)
  show ?case
  proof (cases "is_done p")
    case False
    then show ?thesis
      using safe_call.IH by (intro safe.safe_call) (force simp: step_recover)
  qed (simp add: safe.safe_done)
qed (simp add: safe.safe_done)

section \<open>The calls that move a job\<close>

lemma lease_drop: "lease_step l None v v"
  by (rule lease_step.release) (rule lease_step.idle)

text \<open>
  Under a fault it is enough to consider the reply of the successful call, and a goroutine
  that has seen an error and given its lease up.
\<close>

lemma faulty_sql_moves:
  assumes "\<exists>l'. lease_step l l' (view d) (view (snd (f d))) \<and> safe l' (k (fst (f d)))"
    and "\<And>e. safe None (k (Inl e))"
  shows "\<exists>l'. lease_step l l' (view d) (view (snd (faulty_sql ft f d))) \<and> safe l' (k (fst (faulty_sql ft f d)))"
  using assms lease_drop lease_step.release by (cases ft) (simp_all, blast+)

lemma faulty_tx_moves:
  assumes "\<exists>l'. lease_step l l' (view d) (view (snd (f d))) \<and> safe l' (k (fst (f d)))"
    and "\<And>e. safe None (k (Inl e))"
  shows "\<exists>l'. lease_step l l' (view d) (view (snd (faulty_tx ft f d))) \<and> safe l' (k (fst (faulty_tx ft f d)))"
  using assms lease_drop lease_step.release by (cases ft) (simp_all, blast+)

lemma safe_InsertJob:
  assumes "\<And>r. safe None (k r)"
  shows "safe None (InsertJob p k)"
proof (rule safe_call)
  fix oc :: outside and w :: world assume wf: "wf_db (w_db w)"
  have "lease_step None None (view (w_db w)) (view (snd (sql_insert_job (o_now oc) p (w_db w))))"
  proof (rule sql_insert_job_cases [of "o_now oc" p "w_db w"])
    assume a: "sql_insert_job (o_now oc) p (w_db w) =
      (Inr (new_job_row (o_now oc) p), w_db w\<lparr>jobs := jobs (w_db w) @ [new_job_row (o_now oc) p]\<rparr>)"
    from view_insert_job [OF wf a] show ?thesis unfolding a by (simp add: lease_step.create)
  qed (simp add: lease_step.idle)
  with assms faulty_sql_moves [of None "w_db w" "sql_insert_job (o_now oc) p" k "o_fault oc"]
  show "\<exists>l'. lease_step None l' (view (w_db w)) (view (w_db (snd (step_prog oc (InsertJob p k) w))))
      \<and> safe l' (fst (step_prog oc (InsertJob p k) w))"
    by (auto simp: on_db_def)
qed

lemma safe_InsertJobWithKey:
  assumes "\<And>r. safe None (k r)"
  shows "safe None (InsertJobWithKey p key h k)"
proof (rule safe_call)
  fix oc :: outside and w :: world assume wf: "wf_db (w_db w)"
  have "lease_step None None (view (w_db w)) (view (snd (tx_insert_job_with_key (o_now oc) p key h (w_db w))))"
    by (rule view_tx_insert [OF wf, of "o_now oc" p key h]) (simp_all add: lease_step.idle lease_step.create)
  with assms faulty_tx_moves [of None "w_db w" "tx_insert_job_with_key (o_now oc) p key h" k "o_fault oc"]
  show "\<exists>l'. lease_step None l' (view (w_db w)) (view (w_db (snd (step_prog oc (InsertJobWithKey p key h k) w))))
      \<and> safe l' (fst (step_prog oc (InsertJobWithKey p key h k) w))"
    by (auto simp: on_db_def)
qed

lemma view_sql_update_job:
  assumes "\<not> upd_IncAttempt u"
  obtains r where "sql_update_job now i s u d = (r, d)" "\<nexists>j. r = Inr (Some j)"
  | q j d' where "sql_update_job now i s u d = (Inr (Some j), d')" "job_ID j = i"
    "view d i = Some q" "jv_status q = s" "view d' = (view d)(i \<mapsto> q\<lparr>jv_status := upd_To u\<rparr>)"
proof (rule sql_update_job_cases [of now i s u d])
  fix j d' assume a: "guarded_update i s (updated_row now u) d = (Some j, d')"
    "sql_update_job now i s u d = (Inr (Some j), d')"
  obtain r where r: "job_of d i = Some r" "job_Status r = s" "j = updated_row now u r" "job_ID r = i"
    "view d' = (view d)(i \<mapsto> \<lparr>jv_status = job_Status j, jv_count = job_AttemptCount j,
       jv_max = job_MaxAttempts j, jv_attempts = map att_Number (attempts_of d i)\<rparr>)"
    using view_guarded_update [OF _ a(1)] by auto
  with a(2) assms that(2) [of j d' "\<lparr>jv_status = s, jv_count = job_AttemptCount r,
       jv_max = job_MaxAttempts r, jv_attempts = map att_Number (attempts_of d i)\<rparr>"]
  show thesis by (simp add: view_def updated_row_def)
qed (use that(1) in blast)

lemma no_row_cases: "\<nexists>j. r = Inr (Some j) \<Longrightarrow> (\<exists>e. r = Inl e) \<or> r = Inr None"
  by (cases r) auto

text \<open>
  A guarded transition: when it hits, the lease changes as the protocol says; when it does
  not, or when its reply is lost, the goroutine goes on without a lease.
\<close>

lemma safe_UpdateJob:
  assumes inc: "\<not> upd_IncAttempt u"
    and move: "\<And>v q. v i = Some q \<Longrightarrow> jv_status q = s \<Longrightarrow>
        lease_step l l' v (v(i \<mapsto> q\<lparr>jv_status := upd_To u\<rparr>))"
    and hit: "\<And>j. job_ID j = i \<Longrightarrow> safe l' (k (Inr (Some j)))"
    and miss: "\<And>e. safe None (k (Inl e))" "safe None (k (Inr None))"
  shows "safe l (UpdateJob i s u k)"
proof (rule safe_call)
  fix oc :: outside and w :: world
  let ?f = "sql_update_job (o_now oc) i s u"
  have "\<exists>l'. lease_step l l' (view (w_db w)) (view (snd (?f (w_db w)))) \<and> safe l' (k (fst (?f (w_db w))))"
  proof (rule view_sql_update_job [OF inc, of "o_now oc" i s "w_db w"])
    fix r assume "?f (w_db w) = (r, w_db w)" "\<nexists>j. r = Inr (Some j)"
    then show ?thesis using no_row_cases [of r] miss lease_drop by (intro exI [where x = None]) auto
  next
    fix q j d' assume a: "?f (w_db w) = (Inr (Some j), d')" "job_ID j = i" "view (w_db w) i = Some q"
      "jv_status q = s" "view d' = (view (w_db w))(i \<mapsto> q\<lparr>jv_status := upd_To u\<rparr>)"
    from move [of "view (w_db w)", OF a(3,4)] show ?thesis using a(1,5) hit [OF a(2)] by auto
  qed
  with miss(1) faulty_sql_moves [of l "w_db w" ?f k "o_fault oc"]
  show "\<exists>l'. lease_step l l' (view (w_db w)) (view (w_db (snd (step_prog oc (UpdateJob i s u k) w))))
      \<and> safe l' (fst (step_prog oc (UpdateJob i s u k) w))"
    by (simp add: on_db_def)
qed

lemma safe_ClaimJob:
  assumes won: "\<And>j a. job_ID j = i \<Longrightarrow> safe (Some (i, Working, job_AttemptCount j, job_MaxAttempts j)) (k (Inr (Some (j, a))))"
    and lost: "\<And>e. safe None (k (Inl e))" "safe None (k (Inr None))"
  shows "safe None (ClaimJob i a k)"
proof (rule safe_call)
  fix oc :: outside and w :: world
  let ?f = "tx_claim (o_now oc) i a"
  have "\<exists>l'. lease_step None l' (view (w_db w)) (view (snd (?f (w_db w)))) \<and> safe l' (k (fst (?f (w_db w))))"
  proof (rule view_tx_claim [of "o_now oc" i a "w_db w"])
    fix r assume "?f (w_db w) = (r, w_db w)" "\<nexists>x. r = Inr (Some x)"
    then show ?thesis using no_row_cases [of r] lost lease_drop by (intro exI [where x = None]) auto
  next
    fix q j d' assume a: "view (w_db w) i = Some q" "jv_status q = StatusQueued" "job_ID j = i"
      "job_AttemptCount j = jv_count q + 1" "job_MaxAttempts j = jv_max q"
      "?f (w_db w) = (Inr (Some (j, new_attempt_row (o_now oc) a j)), d')"
      "view d' = (view (w_db w))(i \<mapsto> q\<lparr>jv_status := StatusProcessing, jv_count := jv_count q + 1,
         jv_attempts := jv_attempts q @ [jv_count q + 1]\<rparr>)"
    have "lease_step None (Some (i, Working, job_AttemptCount j, job_MaxAttempts j)) (view (w_db w)) (view d')"
      unfolding a(4,5,7) using a(1,2) by (rule lease_step.claim)
    then show ?thesis using a(6) won [OF a(3)] by auto
  qed
  with lost(1) faulty_tx_moves [of None "w_db w" ?f k "o_fault oc"]
  show "\<exists>l'. lease_step None l' (view (w_db w)) (view (w_db (snd (step_prog oc (ClaimJob i a k) w))))
      \<and> safe l' (fst (step_prog oc (ClaimJob i a k) w))"
    by (simp add: on_db_def)
qed

section \<open>The neutral parts of the programs\<close>

lemma neutral_GetJob [neutral_intros]: "neutral (GetJob i)"
  unfolding GetJob_def by (intro neutral_intros)

lemma neutral_classify [neutral_intros]: "neutral (classifyMissingUpdate i)"
  unfolding classifyMissingUpdate_def by (intro neutral_intros)

lemma neutral_FinishAttempt [neutral_intros]: "neutral (FinishAttempt a s m)"
  unfolding FinishAttempt_def by (intro neutral_intros)

lemma neutral_AddProcessingStep [neutral_intros]: "neutral (AddProcessingStep s)"
  unfolding AddProcessingStep_def Let_def by (intro neutral_intros)

lemma neutral_AddArtifact [neutral_intros]: "neutral (AddArtifact a)"
  unfolding AddArtifact_def Let_def by (intro neutral_intros)

lemma neutral_ListArtifacts [neutral_intros]: "neutral (repo_ListArtifacts i)"
  unfolding repo_ListArtifacts_def by (intro neutral_intros)

lemma neutral_ListRequeueable [neutral_intros]: "neutral (ListRequeueable c n)"
  unfolding ListRequeueable_def by (intro neutral_intros)

lemma neutral_store_Stat [neutral_intros]: "neutral (store_Stat key)"
  unfolding store_Stat_def by (intro neutral_intros)

lemma neutral_store_Get [neutral_intros]: "neutral (store_Get key)"
  unfolding store_Get_def by (intro neutral_intros)

lemma neutral_store_Put [neutral_intros]: "neutral (store_Put key b n c)"
  unfolding store_Put_def by (intro neutral_intros)

lemma neutral_PresignUpload [neutral_intros]: "neutral (PresignUpload key e)"
  unfolding PresignUpload_def by (intro neutral_intros)

lemma neutral_Publish [neutral_intros]: "neutral (Publish lib m)"
  unfolding Publish_def by (intro neutral_intros)

lemma neutral_resolveExisting [neutral_intros]: "neutral (resolveExisting key h)"
  unfolding resolveExisting_def by (intro neutral_intros)

lemma neutral_CreateUpload: "neutral (CreateUpload s inp)"
  unfolding CreateUpload_def Let_def by (intro neutral_intros)

lemma neutral_sweep_jobs: "neutral (sweep_jobs lib js n)"
  by (induction js arbitrary: n) (simp_all add: neutral_intros)

lemma neutral_Sweep: "neutral (Sweep lib a n)"
  unfolding Sweep_def by (intro neutral_intros neutral_sweep_jobs)

lemma neutral_Decode [neutral_intros]: "neutral (Decode lib)"
  unfolding Decode_def by (intro neutral_intros)

lemma neutral_run_stages:
  assumes "\<And>p cur. p \<in> set ps \<Longrightarrow> neutral (proc_Process p cur)"
  shows "neutral (run_stages ps cur steps)"
  using assms by (induction ps arbitrary: cur steps) (simp_all add: neutral_intros)

lemma neutral_unless_cancelled [neutral_intros]: "neutral (unless_cancelled out)"
  unfolding unless_cancelled_def by (intro neutral_intros)

lemma neutral_default_pipeline: "p \<in> set (pipe_processors (default_pipeline lib)) \<Longrightarrow> neutral (proc_Process p cur)"
  by (auto simp: default_pipeline_def NewPipeline_def ResizeProcessor_def neutral_unless_cancelled
      FaceDetectionProcessor_def ColorProcessor_def BeautyProcessor_def BackgroundProcessor_def)

text \<open>
  The worker's pipelines are neutral when their processors are; those of the default
  registry only ask the context.
\<close>

definition registry_neutral :: "'img handler_env \<Rightarrow> bool" where
  "registry_neutral h \<longleftrightarrow> (\<forall>name version pipe p cur. he_registry h name version = Inr pipe \<longrightarrow>
     p \<in> set (pipe_processors pipe) \<longrightarrow> neutral (proc_Process p cur))"

lemma registry_neutral_default:
  "registry_neutral \<lparr>he_lib = lib, he_registry = registry_Get (default_registry img), he_imaging = img\<rparr>"
  using neutral_default_pipeline
  by (auto simp: registry_neutral_def registry_Get_def default_registry_def split: option.splits if_splits)

lemma neutral_store_output: "neutral (store_output h job steps img)"
  unfolding store_output_def Let_def by (intro neutral_intros)

lemma neutral_runPipeline:
  assumes "registry_neutral h"
  shows "neutral (runPipeline h job)"
proof -
  have "neutral (Run pipe d)" if "he_registry h n v = Inr pipe" for pipe d n v
    unfolding Run_def using assms that by (intro neutral_run_stages) (auto simp: registry_neutral_def)
  then show ?thesis
    unfolding runPipeline_def
    by (auto intro!: neutral_intros neutral_store_output split: sum.split)
qed

lemma neutral_persistSteps [neutral_intros]: "neutral (persistSteps a ss)"
  by (induction ss) (simp_all add: neutral_intros)

lemma neutral_backoff [neutral_intros]: "neutral (backoff n)"
  unfolding backoff_def Let_def by (intro neutral_intros)

section \<open>The transitions of the programs\<close>

lemma safe_UpdateJobStatus:
  assumes inc: "\<not> upd_IncAttempt u"
    and move: "\<And>v q. v i = Some q \<Longrightarrow> jv_status q = s \<Longrightarrow>
        lease_step l l' v (v(i \<mapsto> q\<lparr>jv_status := upd_To u\<rparr>))"
    and hit: "\<And>j. job_ID j = i \<Longrightarrow> safe l' (f (Inr j))"
    and miss: "\<And>e. safe None (f (Inl e))"
  shows "safe l (bind_prog (UpdateJobStatus i s u) f)"
proof (cases "ValidateTransition s (upd_To u)")
  case None
  have "safe None (bind_prog (classifyMissingUpdate i) (\<lambda>e. f (Inl e)))"
    by (rule safe_bind_neutral) (simp_all add: miss neutral_intros)
  then show ?thesis
    using None miss hit
    by (auto simp: UpdateJobStatus_def bind_prog_assoc intro!: safe_UpdateJob [OF inc move])
next
  case (Some e)
  then show ?thesis using safe_abandon [OF miss] by (simp add: UpdateJobStatus_def)
qed

lemma safe_done_intros [safe_intros]:
  "safe l (Return r)" "safe l Panic"
  by (simp_all add: safe_done)

lemma safe_Metric [safe_intros]: "safe l p \<Longrightarrow> safe l (Metric m p)"
  using safe_bind_neutral [of "Metric m (Return ())" l "\<lambda>_. p"] by (simp add: neutral_intros)

lemma safe_TimeNow [safe_intros]: "(\<And>t. safe l (k t)) \<Longrightarrow> safe l (TimeNow k)"
  using safe_bind_neutral [of "TimeNow Return" l k] by (simp add: neutral_intros)

lemma safe_NewUUID [safe_intros]: "(\<And>u. safe l (k u)) \<Longrightarrow> safe l (NewUUID k)"
  using safe_bind_neutral [of "NewUUID Return" l k] by (simp add: neutral_intros)

lemma safe_cases [safe_intros]:
  "(\<And>a. safe l (f1 a)) \<Longrightarrow> (\<And>b. safe l (g1 b)) \<Longrightarrow> safe l (case_sum f1 g1 s)"
  "safe l p2 \<Longrightarrow> (\<And>b. safe l (g2 b)) \<Longrightarrow> safe l (case_option p2 g2 opt)"
  "(\<And>a b. safe l (f3 a b)) \<Longrightarrow> safe l (case_prod f3 ab)"
  "(c \<Longrightarrow> safe l p4) \<Longrightarrow> (\<not> c \<Longrightarrow> safe l q4) \<Longrightarrow> safe l (if c then p4 else q4)"
  by (cases s; cases opt; cases ab; simp)+

subsection \<open>Creating and cancelling\<close>

lemma JobUpdate_sels [simp]: "upd_To (JobUpdate s) = s" "\<not> upd_IncAttempt (JobUpdate s)"
  by (simp_all add: JobUpdate_def)

lemma safe_repo_CreateJob: "safe None (repo_CreateJob p key h)"
  unfolding repo_CreateJob_def insertJob_def
  by (auto intro!: safe_intros safe_InsertJob safe_InsertJobWithKey
      neutral_safe [OF neutral_resolveExisting] split: sum.split option.split tx_stage.split)

lemma safe_enqueue: "safe None (enqueue s job)"
  unfolding enqueue_def
  by (intro safe_UpdateJobStatus [where l' = None]; simp add: lease_step.enqueue)
    (intro safe_bind_neutral safe_intros neutral_intros)+

lemma safe_finish_create: "safe None (finish_create s job created)"
  unfolding finish_create_def
  by (intro safe_intros safe_bind [OF safe_enqueue] safe_bind_neutral neutral_intros)

lemma safe_CreateJob: "safe None (CreateJob s inp)"
  unfolding CreateJob_def Let_def
  by (intro safe_intros safe_bind_neutral [OF neutral_store_Stat] safe_bind [OF safe_repo_CreateJob]
      safe_finish_create)

lemma safe_cancel_loop: "safe None (cancel_loop n i job)"
proof (induction n arbitrary: job)
  case (Suc n)
  have reload: "safe None (bind_prog (GetJob i) (\<lambda>g. case g of Inl e' \<Rightarrow> Return (Inl e') | Inr job' \<Rightarrow> cancel_loop n i job'))"
    by (intro safe_bind_neutral neutral_intros safe_intros Suc)
  show ?case
    by (simp, intro conjI impI safe_intros safe_UpdateJobStatus [where l' = None])
      (simp_all add: lease_step.cancel reload safe_intros)
qed (simp add: safe_intros)

lemma safe_CancelJob: "safe None (CancelJob i)"
  unfolding CancelJob_def by (intro safe_bind_neutral neutral_intros safe_intros safe_cancel_loop)

subsection \<open>Handling a message\<close>

lemma update_sels [simp]:
  "upd_To (failed_update e) = StatusFailed" "\<not> upd_IncAttempt (failed_update e)"
  "upd_To (retrying_update t) = StatusRetrying" "\<not> upd_IncAttempt (retrying_update t)"
  "upd_To requeued_update = StatusQueued" "\<not> upd_IncAttempt requeued_update"
  by (simp_all add: failed_update_def retrying_update_def requeued_update_def)

lemma safe_finalizeSuccess: "safe (Some (job_ID job, Working, n, m)) (finalizeSuccess job attempt)"
  unfolding finalizeSuccess_def
  by (intro safe_bind_neutral neutral_intros safe_intros safe_UpdateJobStatus [where l' = None])
    (simp_all add: lease_step.complete)

lemma safe_markFailed: "safe (Some (i, Working, n, m)) (markFailed i cause)"
  unfolding markFailed_def
  by (intro safe_intros safe_UpdateJobStatus [where l' = "Some (i, Failing, n, m)"])
    (simp_all add: lease_step.fail)

lemma safe_requeue:
  "safe (Some (i, Requeueing, n, m)) (bind_prog (UpdateJobStatus i StatusRetrying requeued_update)
     (\<lambda>r. Return (f r)))"
  by (rule safe_UpdateJobStatus [where l' = None]) (simp_all add: lease_step.requeue safe_intros)

lemma safe_scheduleRetry:
  assumes "n < m"
  shows "safe (Some (i, Working, n, m)) (scheduleRetry i cause delay)"
  unfolding scheduleRetry_def
proof (rule safe_UpdateJobStatus [where l' = "Some (i, Failing, n, m)"], goal_cases)
  case (3 j)
  have "safe (Some (i, Failing, n, m)) (bind_prog (UpdateJobStatus i StatusFailed (retrying_update t))
      (\<lambda>r. case r of Inl e \<Rightarrow> Return (Some e)
        | Inr _ \<Rightarrow> bind_prog (UpdateJobStatus i StatusRetrying requeued_update)
            (\<lambda>r. Return (case r of Inl e \<Rightarrow> Some e | Inr _ \<Rightarrow> None))))" for t
    by (rule safe_UpdateJobStatus [where l' = "Some (i, Requeueing, n, m)"])
      (simp_all add: lease_step.retry assms safe_requeue safe_intros)
  then show ?case by (simp add: safe_TimeNow)
qed (simp_all add: lease_step.fail safe_intros)

lemma safe_retry_or_fail:
  "safe (Some (job_ID job, Working, job_AttemptCount job, job_MaxAttempts job)) (retry_or_fail job e)"
proof -
  let ?l = "Some (job_ID job, Working, job_AttemptCount job, job_MaxAttempts job)"
  have give_up: "safe ?l (bind_prog (markFailed (job_ID job) e) (\<lambda>_. Metric IncJobsFailed (Return (decide Complete))))"
    by (intro safe_bind safe_markFailed safe_intros)
  have again: "safe ?l (bind_prog (backoff (job_AttemptCount job)) (\<lambda>delay.
      bind_prog (scheduleRetry (job_ID job) e delay) (\<lambda>e.
        case e of Some _ \<Rightarrow> Return \<lparr>res_Decision = Retry, res_RetryAfter = delay\<rparr>
        | None \<Rightarrow> Metric IncJobsRetried (Return \<lparr>res_Decision = Retry, res_RetryAfter = delay\<rparr>))))"
    if "CanRetry job"
    using that
    by (intro safe_bind_neutral neutral_intros safe_bind safe_scheduleRetry safe_intros) (simp add: CanRetry_def)
  show ?thesis
    unfolding retry_or_fail_def Let_def by (intro safe_intros give_up again)
qed

lemma safe_finalizeFailure:
  "safe (Some (job_ID job, Working, job_AttemptCount job, job_MaxAttempts job)) (finalizeFailure job attempt e)"
  unfolding finalizeFailure_def
  by (intro safe_intros safe_bind_neutral neutral_intros safe_retry_or_fail)

lemma safe_process_claimed:
  assumes "registry_neutral h"
  shows "safe (Some (job_ID job, Working, job_AttemptCount job, job_MaxAttempts job)) (process_claimed h job attempt)"
  unfolding process_claimed_def
  by (intro safe_intros safe_bind_neutral neutral_intros neutral_runPipeline [OF assms]
      safe_finalizeSuccess safe_finalizeFailure)

lemma safe_BeginAttempt:
  assumes won: "\<And>j a. job_ID j = i \<Longrightarrow>
      safe (Some (i, Working, job_AttemptCount j, job_MaxAttempts j)) (f (Inr (j, a)))"
    and lost: "\<And>e. safe None (f (Inl e))"
  shows "safe None (bind_prog (BeginAttempt i) f)"
proof -
  have miss: "safe None (bind_prog (classifyMissingUpdate i) (\<lambda>e. f (Inl e)))"
    by (intro safe_bind_neutral neutral_intros lost)
  show ?thesis
    unfolding BeginAttempt_def
    by (simp, intro safe_NewUUID safe_ClaimJob)
      (auto simp: won lost miss bind_prog_assoc split: tx_stage.split)
qed

lemma safe_Handle:
  assumes "registry_neutral h"
  shows "safe None (Handle h msg)"
proof -
  have claim: "safe None (bind_prog (BeginAttempt i) (\<lambda>b. case b of
      Inl e \<Rightarrow> Return (decide (if errors_Is ErrConflict e then Complete else Retry))
    | Inr (job, attempt) \<Rightarrow> process_claimed h job attempt))" for i
    using safe_process_claimed [OF assms] by (intro safe_BeginAttempt) (auto simp: safe_intros)
  then show ?thesis
    unfolding Handle_def by (intro safe_intros safe_bind_neutral [OF neutral_GetJob] claim)
qed

lemma safe_process:
  assumes "registry_neutral h"
  shows "safe None (process h payload)"
  unfolding process_def handleWithRecovery_def
  by (intro safe_intros safe_bind safe_recover safe_Handle assms)

end
