(* ===== verification/Concurrency.thy ===== *)
theory Concurrency
  imports Safety
begin

text \<open>
  The running system: any number of API requests, deliveries, cancellation watchers and
  requeue sweeps, in any number of replicas, interleaved call by call over one database,
  object store and queue. Any call may fail before or after it took effect and any
  goroutine may die between two calls. A delivery may carry any payload at any time, so
  duplicated, redelivered, reordered and lost messages are all included.
\<close>

section \<open>Requests and goroutines\<close>

datatype request =
    CallCreateUpload create_upload_input
  | CallCreateJob create_job_input
  | CallGetJob uuid
  | CallListArtifacts uuid
  | CallCancelJob uuid
  | Deliver string
  | WatchTick uuid
  | CallSweep duration int

datatype outcome =
    UploadDone "err + upload"
  | CreateDone "err + job \<times> bool"
  | JobDone "err + job"
  | ArtifactsDone "err + artifact list"
  | DeliveryDone settlement
  | WatchDone bool
  | SweepDone "err + int"

text \<open>What a deployment is configured with: the service and the worker's imaging library.\<close>

record 'img deployment =
  dep_service :: service
  dep_imaging :: "'img imaging"

definition worker_env :: "'img deployment \<Rightarrow> 'img handler_env" where
  "worker_env dep = \<lparr>he_lib = svc_lib (dep_service dep),
     he_registry = registry_Get (default_registry (dep_imaging dep)), he_imaging = dep_imaging dep\<rparr>"

fun entry :: "'img deployment \<Rightarrow> request \<Rightarrow> outcome prog" where
  "entry dep (CallCreateUpload inp) = bind_prog (CreateUpload (dep_service dep) inp) (\<lambda>r. Return (UploadDone r))"
| "entry dep (CallCreateJob inp) = bind_prog (CreateJob (dep_service dep) inp) (\<lambda>r. Return (CreateDone r))"
| "entry dep (CallGetJob i) = bind_prog (svc_GetJob i) (\<lambda>r. Return (JobDone r))"
| "entry dep (CallListArtifacts i) = bind_prog (svc_ListArtifacts i) (\<lambda>r. Return (ArtifactsDone r))"
| "entry dep (CallCancelJob i) = bind_prog (CancelJob i) (\<lambda>r. Return (JobDone r))"
| "entry dep (Deliver payload) = bind_prog (process (worker_env dep) payload) (\<lambda>r. Return (DeliveryDone r))"
| "entry dep (WatchTick i) = bind_prog (watch_tick i) (\<lambda>r. Return (WatchDone r))"
| "entry dep (CallSweep minAge limit) =
     bind_prog (Sweep (svc_lib (dep_service dep)) minAge limit) (\<lambda>r. Return (SweepDone r))"

section \<open>The system's steps\<close>

type_synonym tid = nat

record system =
  sys_world :: world
  sys_calls :: "tid \<Rightarrow> request option"
  sys_threads :: "tid \<Rightarrow> outcome prog option"

definition initial_system :: system where
  "initial_system = \<lparr>sys_world = empty_world, sys_calls = Map.empty, sys_threads = Map.empty\<rparr>"

definition started :: "'img deployment \<Rightarrow> tid \<Rightarrow> request \<Rightarrow> system \<Rightarrow> system" where
  "started dep t r s = s\<lparr>sys_calls := (sys_calls s)(t \<mapsto> r), sys_threads := (sys_threads s)(t \<mapsto> entry dep r)\<rparr>"

definition called :: "tid \<Rightarrow> outside \<Rightarrow> outcome prog \<Rightarrow> system \<Rightarrow> system" where
  "called t oc p s = s\<lparr>sys_world := snd (step_prog oc p (sys_world s)),
     sys_threads := (sys_threads s)(t \<mapsto> fst (step_prog oc p (sys_world s)))\<rparr>"

definition crashed :: "tid \<Rightarrow> system \<Rightarrow> system" where
  "crashed t s = s\<lparr>sys_threads := (sys_threads s)(t := None)\<rparr>"

inductive sys_step :: "'img deployment \<Rightarrow> system \<Rightarrow> system \<Rightarrow> bool" for dep where
  start: "sys_calls s t = None \<Longrightarrow> sys_step dep s (started dep t r s)"
| call: "sys_threads s t = Some p \<Longrightarrow> \<not> is_done p \<Longrightarrow> sys_step dep s (called t oc p s)"
| crash: "sys_step dep s (crashed t s)"

inductive reachable :: "'img deployment \<Rightarrow> system \<Rightarrow> bool" for dep where
  reachable_init: "reachable dep initial_system"
| reachable_step: "reachable dep s \<Longrightarrow> sys_step dep s s' \<Longrightarrow> reachable dep s'"

inductive_cases sys_stepE: "sys_step dep s s'"

abbreviation sys_db :: "system \<Rightarrow> db" where
  "sys_db s \<equiv> w_db (sys_world s)"

lemma system_sels [simp]:
  "sys_world (started dep t r s) = sys_world s"
  "sys_world (crashed t s) = sys_world s"
  "sys_world (called t oc p s) = snd (step_prog oc p (sys_world s))"
  "sys_threads (started dep t r s) = (sys_threads s)(t \<mapsto> entry dep r)"
  "sys_threads (crashed t s) = (sys_threads s)(t := None)"
  "sys_threads (called t oc p s) = (sys_threads s)(t \<mapsto> fst (step_prog oc p (sys_world s)))"
  "sys_calls (started dep t r s) = (sys_calls s)(t \<mapsto> r)"
  "sys_calls (crashed t s) = sys_calls s"
  "sys_calls (called t oc p s) = sys_calls s"
  by (simp_all add: started_def crashed_def called_def)

text \<open>Executable scenarios: a list of actions, each of which must be possible.\<close>

datatype action = Start tid request | Call tid outside | Crash tid

fun perform :: "'img deployment \<Rightarrow> action \<Rightarrow> system \<Rightarrow> system option" where
  "perform dep (Start t r) s = (if sys_calls s t = None then Some (started dep t r s) else None)"
| "perform dep (Call t oc) s =
     (case sys_threads s t of
        None \<Rightarrow> None
      | Some p \<Rightarrow> if is_done p then None else Some (called t oc p s))"
| "perform dep (Crash t) s = Some (crashed t s)"

fun perform_all :: "'img deployment \<Rightarrow> action list \<Rightarrow> system \<Rightarrow> system option" where
  "perform_all dep [] s = Some s"
| "perform_all dep (a # as) s = (case perform dep a s of None \<Rightarrow> None | Some s' \<Rightarrow> perform_all dep as s')"

lemma perform_step: "perform dep a s = Some s' \<Longrightarrow> sys_step dep s s'"
  by (cases a) (auto intro: sys_step.intros split: if_splits option.splits)

lemma perform_all_reachable:
  "reachable dep s \<Longrightarrow> perform_all dep as s = Some s' \<Longrightarrow> reachable dep s'"
  by (induction as arbitrary: s) (auto intro: reachable_step dest: perform_step split: option.splits)

section \<open>Invariants of the tables\<close>

context table_invariant
begin

lemma reachable_keeps: "I empty_db \<Longrightarrow> reachable dep s \<Longrightarrow> I (sys_db s)"
  by (erule reachable.induct) (auto simp: initial_system_def empty_world_def call_keeps elim!: sys_stepE)

end

context table_order
begin

lemma sys_step_within: "sys_step dep s s' \<Longrightarrow> R (sys_db s) (sys_db s')"
  by (auto simp: R_refl call_within elim!: sys_stepE)

lemma sys_steps_within: "(sys_step dep)\<^sup>*\<^sup>* s s' \<Longrightarrow> R (sys_db s) (sys_db s')"
  by (induction rule: rtranclp_induct) (auto intro: R_refl R_trans sys_step_within)

end

section \<open>Refinement of the protocol\<close>

lemma registry_neutral_worker: "registry_neutral (worker_env dep)"
  unfolding worker_env_def by (rule registry_neutral_default)

lemma safe_entry: "safe None (entry dep r)"
proof (cases r)
  case (CallCreateJob inp)
  then show ?thesis by (simp add: safe_bind safe_CreateJob safe_intros)
next
  case (CallCancelJob i)
  then show ?thesis by (simp add: safe_bind safe_CancelJob safe_intros)
next
  case (Deliver payload)
  then show ?thesis by (simp add: safe_bind safe_process registry_neutral_worker safe_intros)
qed (simp_all add: svc_GetJob_def svc_ListArtifacts_def watch_tick_def neutral_safe neutral_intros
    neutral_CreateUpload neutral_Sweep)

text \<open>
  The simulation: every goroutine follows the protocol from the lease a ghost assignment
  gives it.
\<close>

fun thread_ok :: "lease \<Rightarrow> outcome prog option \<Rightarrow> bool" where
  "thread_ok l None \<longleftrightarrow> l = None"
| "thread_ok l (Some p) \<longleftrightarrow> safe l p"

definition follows :: "system \<Rightarrow> (tid \<Rightarrow> lease) \<Rightarrow> bool" where
  "follows s g \<longleftrightarrow> (\<forall>t. thread_ok (g t) (sys_threads s t))"

lemma follows_update:
  assumes "follows s g" and "sys_threads s' = (sys_threads s)(t := x)"
    and "thread_ok l x"
  shows "follows s' (g(t := l))"
  unfolding follows_def
proof
  fix u
  show "thread_ok ((g(t := l)) u) (sys_threads s' u)"
    using assms by (cases "u = t") (simp_all add: follows_def)
qed

definition simulates :: "system \<Rightarrow> (tid \<Rightarrow> lease) \<Rightarrow> bool" where
  "simulates s g \<longleftrightarrow> wf_db (sys_db s) \<and> lease_inv (view (sys_db s)) g \<and> follows s g"

definition protocol_move :: "jobs_view \<times> (tid \<Rightarrow> lease) \<Rightarrow> jobs_view \<times> (tid \<Rightarrow> lease) \<Rightarrow> bool" where
  "protocol_move = (\<lambda>(v, g) (v', g'). \<exists>t l'. lease_step (g t) l' v v' \<and> g' = g(t := l'))"

lemma protocol_move_inv:
  "protocol_move (v, g) (v', g') \<Longrightarrow> lease_inv v g \<Longrightarrow> lease_inv v' g'"
  by (auto simp: protocol_move_def intro: lease_step_inv)

lemma simulates_step:
  assumes "simulates s g" and "sys_step dep s s'"
  shows "\<exists>g'. protocol_move (view (sys_db s), g) (view (sys_db s'), g') \<and> simulates s' g'"
proof -
  have wf: "wf_db (sys_db s)" and inv: "lease_inv (view (sys_db s)) g" and fol: "follows s g"
    using assms(1) by (simp_all add: simulates_def)
  have ex: "\<exists>t l'. lease_step (g t) l' (view (sys_db s)) (view (sys_db s')) \<and> follows s' (g(t := l'))"
    using assms(2)
  proof cases
    case (start t r)
    then have "follows s' (g(t := g t))"
      by (intro follows_update [OF fol, where x = "Some (entry dep r)"]) (simp_all add: safe_abandon [OF safe_entry])
    moreover have "lease_step (g t) (g t) (view (sys_db s)) (view (sys_db s'))"
      using start by (simp add: lease_step.idle)
    ultimately show ?thesis by blast
  next
    case (call t p oc)
    have "safe (g t) p"
      using fol call(2) unfolding follows_def by (metis thread_ok.simps(2))
    from safe_stepD [OF this call(3) wf, of oc] obtain l' where
        l': "lease_step (g t) l' (view (sys_db s)) (view (sys_db s'))"
        "safe l' (fst (step_prog oc p (sys_world s)))"
      using call(1) by auto
    have "follows s' (g(t := l'))"
      using l'(2) call(1)
      by (intro follows_update [OF fol, where x = "Some (fst (step_prog oc p (sys_world s)))"]) simp_all
    then show ?thesis using l'(1) by blast
  next
    case (crash t)
    then have "follows s' (g(t := None))"
      by (intro follows_update [OF fol, where x = None]) simp_all
    then show ?thesis using crash lease_drop by auto
  qed
  then obtain t l' where t: "lease_step (g t) l' (view (sys_db s)) (view (sys_db s'))" "follows s' (g(t := l'))"
    by blast
  have "wf_db (sys_db s')"
    using assms(2) wf by (auto simp: schema.call_keeps elim!: sys_stepE)
  then show ?thesis
    using t lease_step_inv [OF t(1) inv refl] unfolding protocol_move_def simulates_def by auto
qed

lemma simulates_initial: "simulates initial_system (\<lambda>_. None)"
  by (simp add: simulates_def follows_def lease_inv_def leases_unique_def initial_system_def
      empty_world_def view_def empty_db_def wf_db_def wf_jobs_def wf_attempts_def wf_steps_def
      wf_artifacts_def wf_keys_def)

lemma reachable_simulates: "reachable dep s \<Longrightarrow> \<exists>g. simulates s g"
proof (induction rule: reachable.induct)
  case (reachable_step s s')
  then show ?case using simulates_step by blast
qed (rule exI, rule simulates_initial)

section \<open>What holds in every reachable state\<close>

lemma reachable_wf: "reachable dep s \<Longrightarrow> wf_db (sys_db s)"
  using schema.reachable_keeps wf_empty_db by blast

lemma reachable_fits:
  assumes "reachable dep s" and "view (sys_db s) i = Some j"
  shows "job_fits j"
  using reachable_simulates [OF assms(1)] lease_inv_fits assms(2) by (auto simp: simulates_def)

lemma sys_step_grows:
  assumes "reachable dep s" and "sys_step dep s s'" and "view (sys_db s) i = Some j"
  shows "\<exists>j'. view (sys_db s') i = Some j' \<and> view_grows j j'"
proof -
  obtain g where "simulates s g" using reachable_simulates [OF assms(1)] by blast
  from simulates_step [OF this assms(2)] obtain t l' where "lease_step (g t) l' (view (sys_db s)) (view (sys_db s'))"
    by (auto simp: protocol_move_def)
  from lease_step_grows [OF this assms(3)] show ?thesis .
qed

lemma reachable_steps: "(sys_step dep)\<^sup>*\<^sup>* s s' \<Longrightarrow> reachable dep s \<Longrightarrow> reachable dep s'"
  by (induction rule: rtranclp_induct) (auto intro: reachable_step)

lemma sys_steps_status:
  assumes "(sys_step dep)\<^sup>*\<^sup>* s s'" and "reachable dep s" and "view (sys_db s) i = Some j"
  shows "\<exists>j'. view (sys_db s') i = Some j' \<and> CanTransition\<^sup>*\<^sup>* (jv_status j) (jv_status j')
    \<and> jv_max j' = jv_max j \<and> jv_count j \<le> jv_count j' \<and> prefix (jv_attempts j) (jv_attempts j')"
  using assms(1)
proof (induction rule: rtranclp_induct)
  case base
  then show ?case using assms(3) by simp
next
  case (step s1 s2)
  then obtain j1 where j1: "view (sys_db s1) i = Some j1" "CanTransition\<^sup>*\<^sup>* (jv_status j) (jv_status j1)"
      "jv_max j1 = jv_max j" "jv_count j \<le> jv_count j1" "prefix (jv_attempts j) (jv_attempts j1)" by blast
  from sys_step_grows [OF reachable_steps [OF step.hyps(1) assms(2)] step.hyps(2) j1(1)]
  obtain j2 where "view (sys_db s2) i = Some j2" "view_grows j1 j2" by blast
  with j1 show ?case
    by (auto simp: view_grows_def intro: rtranclp.rtrancl_into_rtrancl order_trans prefix_order.trans)
qed

lemma view_job_of: "job_of d i = Some j \<Longrightarrow>
    view d i = Some \<lparr>jv_status = job_Status j, jv_count = job_AttemptCount j, jv_max = job_MaxAttempts j,
      jv_attempts = map att_Number (attempts_of d i)\<rparr>"
  by (simp add: view_def)

lemma view_SomeD: "view d i = Some v \<Longrightarrow> \<exists>j. job_of d i = Some j \<and> jv_status v = job_Status j
    \<and> jv_count v = job_AttemptCount j \<and> jv_max v = job_MaxAttempts j \<and> jv_attempts v = map att_Number (attempts_of d i)"
  by (auto simp: view_def)

end
