(* ===== verification/Scenario.thy ===== *)
theory Scenario
  imports Concurrency
begin

text \<open>
  A concrete deployment and concrete replies of the outside world, on which the properties
  are exercised: the UUID, JSON and imaging libraries are small functions.
\<close>

definition demo_lib :: library where
  "demo_lib = \<lparr>uuid_String = (\<lambda>u. if u = 1 then ''job1'' else ''other''),
     uuid_Parse = (\<lambda>s. if s = ''job1'' then Some 1 else None),
     json_Marshal = (\<lambda>m. Inr (msg_JobID m)),
     json_Unmarshal = (\<lambda>s. if s = '''' then None else Some
       \<lparr>msg_JobID = s, msg_AttemptID = '''', msg_Pipeline = '''', msg_PipelineVersion = '''',
        msg_CorrelationID = ''''\<rparr>)\<rparr>"

text \<open>Images are their dimensions; an encoded image is any text that starts with \<open>I\<close>.\<close>

definition demo_imaging :: "(int \<times> int) imaging" where
  "demo_imaging = \<lparr>lib_Bounds = (\<lambda>(w, h). \<lparr>MinX = 0, MinY = 0, MaxX = w, MaxY = h\<rparr>),
     lib_At = (\<lambda>_ _ _. (0, 0, 0)),
     lib_DecodeConfig = (\<lambda>b. if HasPrefix b ''I'' then Inr (0, 0) else Inl (Foreign ''unknown format'')),
     lib_Decode = (\<lambda>b. Inr (0, 0)),
     lib_Encode = (\<lambda>_ _ _. Inr ''J''),
     lib_Fit = (\<lambda>i _ _. i), lib_AdjustBrightness = (\<lambda>i _. i), lib_AdjustContrast = (\<lambda>i _. i),
     lib_AdjustSaturation = (\<lambda>i _. i), lib_Blur = (\<lambda>i _. i), lib_Overlay = (\<lambda>i _ _ _. i),
     lib_Crop = (\<lambda>i _. i), lib_Paste = (\<lambda>i _ _. i), lib_RunCascade = (\<lambda>_ _. []),
     lib_ClusterDetections = (\<lambda>d _. d)\<rparr>"

definition demo_config :: service_config where
  "demo_config = \<lparr>cfg_MaxAttempts = 2, cfg_PresignExpiry = 15 * Minute, cfg_MaxUploadBytes = 1000\<rparr>"

definition demo_dep :: "(int \<times> int) deployment" where
  "demo_dep = \<lparr>dep_service = NewService demo_lib demo_config, dep_imaging = demo_imaging\<rparr>"

definition calm :: outside where
  "calm = \<lparr>o_fault = NoFault, o_now = 5, o_uuid = 1, o_date = (2026, 7), o_ctx = CtxLive, o_rand = 0,
     o_meta = \<lparr>om_Size = 3, om_ContentType = ''image/png'', om_ETag = '''', om_LastModified = 0\<rparr>,
     o_bytes = ''IMG'', o_url = ''https://store/put''\<rparr>"

text \<open>A reply to a call that failed and had no effect.\<close>

definition down :: outside where
  "down = calm\<lparr>o_fault := Lost (AtStatement 0) (ExtOther ''down'')\<rparr>"

text \<open>\<open>dXBsb2Fkcy9hLnBuZw\<close> is the token of \<open>uploads/a.png\<close>.\<close>

definition demo_input :: create_job_input where
  "demo_input = \<lparr>cji_UploadID = ''dXBsb2Fkcy9hLnBuZw'', cji_Pipeline = ''portrait-enhance'',
     cji_PipelineVersion = ''v1'', cji_IdempotencyKey = '''', cji_CorrelationID = ''c''\<rparr>"

definition demo_job :: job where
  "demo_job = \<lparr>job_ID = 1, job_Status = StatusQueued, job_Pipeline = ''portrait-enhance'',
     job_PipelineVersion = ''v1'', job_InputObjectKey = ''uploads/a.png'', job_CorrelationID = ''c'',
     job_AttemptCount = 0, job_MaxAttempts = 2, job_LastError = [], job_NextRetryAt = None,
     job_CreatedAt = 5, job_UpdatedAt = 5\<rparr>"

definition demo_attempt :: attempt where
  "demo_attempt = \<lparr>att_ID = 1, att_JobID = 1, att_Number = 1, att_Status = AttemptRunning, att_Error = [],
     att_StartedAt = 5, att_FinishedAt = None\<rparr>"

definition demo_world :: "metric list \<Rightarrow> job list \<Rightarrow> attempt list \<Rightarrow> world" where
  "demo_world ms js as = \<lparr>w_db = empty_db\<lparr>jobs := js, attempts := as\<rparr>, published = [(''job1'', ''job1'')],
     stored = [], metrics = ms\<rparr>"

section \<open>Reachable states\<close>

text \<open>A job was created and queued; then a worker claimed it; then a client cancelled it.\<close>

definition queued_system :: system where
  "queued_system = \<lparr>sys_world = demo_world [] [demo_job] [],
     sys_calls = [0 \<mapsto> CallCreateJob demo_input],
     sys_threads = [0 \<mapsto> Return (CreateDone (Inr (demo_job, True)))]\<rparr>"

definition claimed_job :: job where
  "claimed_job = demo_job\<lparr>job_Status := StatusProcessing, job_AttemptCount := 1\<rparr>"

definition claimed_system :: system where
  "claimed_system = \<lparr>sys_world = demo_world [WorkerStarted] [claimed_job] [demo_attempt],
     sys_calls = [0 \<mapsto> CallCreateJob demo_input, 1 \<mapsto> Deliver ''job1''],
     sys_threads = [0 \<mapsto> Return (CreateDone (Inr (demo_job, True)))]\<rparr>"

definition cancelled_job :: job where
  "cancelled_job = claimed_job\<lparr>job_Status := StatusCancelled\<rparr>"

definition cancelled_system :: system where
  "cancelled_system = \<lparr>sys_world = demo_world [WorkerStarted] [cancelled_job] [demo_attempt],
     sys_calls = [0 \<mapsto> CallCreateJob demo_input, 1 \<mapsto> Deliver ''job1'', 2 \<mapsto> CallCancelJob 1],
     sys_threads = [0 \<mapsto> Return (CreateDone (Inr (demo_job, True))), 2 \<mapsto> Return (JobDone (Inr cancelled_job))]\<rparr>"

lemma demo_sels [simp]:
  "svc_lib (dep_service demo_dep) = demo_lib" "svc_maxAttempts (dep_service demo_dep) = 2"
  "svc_maxUploadBytes (dep_service demo_dep) = 1000" "dep_imaging demo_dep = demo_imaging"
  "uuid_String demo_lib 1 = ''job1''" "uuid_Parse demo_lib ''job1'' = Some 1"
  "json_Marshal demo_lib m = Inr (msg_JobID m)"
  "json_Unmarshal demo_lib ''job1'' = Some
       \<lparr>msg_JobID = ''job1'', msg_AttemptID = '''', msg_Pipeline = '''', msg_PipelineVersion = '''',
        msg_CorrelationID = ''''\<rparr>"
  by (simp_all add: demo_dep_def demo_lib_def demo_config_def NewService_def)

lemma calm_sels [simp]:
  "o_fault calm = NoFault" "o_now calm = 5" "o_uuid calm = 1" "o_ctx calm = CtxLive" "o_rand calm = 0"
  "om_Size (o_meta calm) = 3" "om_ContentType (o_meta calm) = ''image/png''" "o_bytes calm = ''IMG''"
  by (simp_all add: calm_def)

lemmas demo_states = queued_system_def claimed_system_def cancelled_system_def demo_world_def demo_job_def
  claimed_job_def cancelled_job_def demo_attempt_def initial_system_def empty_world_def empty_db_def

lemmas demo_programs = CreateJob_def Let_def store_Stat_def ValidateObject_def SupportedContentType_def
  contentTypeExt_def repo_CreateJob_def insertJob_def finish_create_def enqueue_def UpdateJobStatus_def
  ValidateTransition_def Publish_def message_for_def process_def handleWithRecovery_def Handle_def GetJob_def
  BeginAttempt_def CancelJob_def worker_env_def

lemmas demo_sql = on_db_def faulty_write_def sql_insert_job_def new_job_row_def fits_int32_def
  sql_update_job_def guarded_update_def updated_row_def job_row_ok_def JobUpdate_def tx_claim_def
  claimed_row_def new_attempt_row_def sql_insert_attempt_def attempts_of_def started_def called_def crashed_def

lemma maxTries_Suc: "maxTries = Suc (Suc 0)"
  by (simp add: maxTries_def)

lemma demo_token: "DecodeUploadID ''dXBsb2Fkcy9hLnBuZw'' = Inr ''uploads/a.png''"
  by code_simp

lemma demo_trims: "TrimSpace ''portrait-enhance'' = ''portrait-enhance''" "TrimSpace ''v1'' = ''v1''"
  by (rule TrimSpace_printing; simp add: printing_def)+

lemma perform_create:
  "perform_all demo_dep [Start 0 (CallCreateJob demo_input), Call 0 calm, Call 0 calm, Call 0 calm, Call 0 calm, Call 0 calm] initial_system
     = Some queued_system"
  by (simp add: demo_input_def demo_states demo_programs demo_sql demo_token demo_trims)

lemma perform_claim:
  "perform_all demo_dep [Start 1 (Deliver ''job1''), Call 1 calm, Call 1 calm, Call 1 calm, Call 1 calm, Crash 1] queued_system
     = Some claimed_system"
  by (simp add: demo_input_def demo_states demo_programs demo_sql)

lemma perform_cancel:
  "perform_all demo_dep [Start 2 (CallCancelJob 1), Call 2 calm, Call 2 calm] claimed_system
     = Some cancelled_system"
  by (simp add: demo_input_def demo_states demo_programs demo_sql maxTries_Suc)

lemma reachable_queued: "reachable demo_dep queued_system"
  by (rule perform_all_reachable [OF reachable_init perform_create])

lemma reachable_claimed: "reachable demo_dep claimed_system"
  by (rule perform_all_reachable [OF reachable_queued perform_claim])

lemma reachable_cancelled: "reachable demo_dep cancelled_system"
  by (rule perform_all_reachable [OF reachable_claimed perform_cancel])

end
