(* ===== verification/Guarantees.thy ===== *)
theory Guarantees
  imports Scenario
begin

text \<open>
  What the protocol guarantees for the running system: in every reachable state, whatever
  the interleaving, the faults and the crashes.
\<close>

section \<open>Refinement\<close>

text \<open>
  C1. Refinement: the running system implements the lifecycle protocol. The initial state
  is simulated without leases, and whenever a state is simulated, each step of the system
  (a request or delivery arriving, one call of any goroutine with any reply or fault, a
  crash) is one protocol move of one goroutine, after which the new state is simulated.
\<close>

theorem system_refines_protocol:
  assumes "simulates s g" and "sys_step dep s s'"
  shows "simulates initial_system (\<lambda>_. None)
    \<and> (\<exists>g'. protocol_move (view (sys_db s), g) (view (sys_db s'), g') \<and> simulates s' g')"
  using simulates_step [OF assms] simulates_initial by blast

theorem system_refines_protocol_witness:
  "\<exists>s' g'. sys_step demo_dep queued_system s' \<and> simulates s' g'"
proof -
  have "sys_step demo_dep queued_system (started demo_dep 1 (Deliver ''job1'') queued_system)"
    by (rule sys_step.start) (simp add: queued_system_def)
  moreover obtain g where "simulates queued_system g"
    using reachable_simulates [OF reachable_queued] by blast
  ultimately show ?thesis using system_refines_protocol by blast
qed

section \<open>Attempts\<close>

text \<open>
  C7. The attempt budget: in every reachable state a job has between one and
  \<open>max_attempts\<close> as budget, its attempt counter never exceeds it, its attempt rows carry
  exactly the numbers from one to the counter, in order, and a job that a worker could
  still claim (PENDING, QUEUED, RETRYING) has an attempt left.
\<close>

theorem attempt_budget:
  assumes "reachable dep s" and "job_of (sys_db s) i = Some j"
  shows "0 \<le> job_AttemptCount j \<and> job_AttemptCount j \<le> job_MaxAttempts j \<and> 1 \<le> job_MaxAttempts j
    \<and> map att_Number (attempts_of (sys_db s) i) = [1..job_AttemptCount j]
    \<and> int (length (attempts_of (sys_db s) i)) = job_AttemptCount j
    \<and> (job_Status j \<in> {StatusPending, StatusQueued, StatusRetrying} \<longrightarrow> CanRetry j)"
proof -
  have fits: "job_fits \<lparr>jv_status = job_Status j, jv_count = job_AttemptCount j, jv_max = job_MaxAttempts j,
      jv_attempts = map att_Number (attempts_of (sys_db s) i)\<rparr>"
    using reachable_fits [OF assms(1)] view_job_of [OF assms(2)] by blast
  then have nums: "map att_Number (attempts_of (sys_db s) i) = [1..job_AttemptCount j]"
    by (simp add: job_fits_def)
  have "int (length (attempts_of (sys_db s) i)) = job_AttemptCount j"
    using arg_cong [OF nums, of length] fits by (simp add: job_fits_def)
  then show ?thesis
    using fits by (simp add: job_fits_def CanRetry_def)
qed

theorem attempt_budget_witness:
  "reachable demo_dep claimed_system \<and> job_of (sys_db claimed_system) 1 = Some claimed_job
   \<and> map att_Number (attempts_of (sys_db claimed_system) 1) = [1..1] \<and> \<not> CanRetry claimed_job = False"
proof -
  have j: "job_of (sys_db claimed_system) 1 = Some claimed_job"
    by (simp add: demo_states)
  show ?thesis
    using attempt_budget [OF reachable_claimed j] reachable_claimed j
    by (simp add: demo_states CanRetry_def)
qed



section \<open>The life of a job\<close>

text \<open>
  C11. Legal histories: along any run of the system a job never disappears, keeps the fields
  it was created with, and its status moves only along transitions of the state machine;
  its attempt counter and its list of attempts only grow. A finished job (COMPLETED or
  CANCELLED) keeps its status for ever.
\<close>

theorem legal_histories:
  assumes "reachable dep s" and "(sys_step dep)\<^sup>*\<^sup>* s s'" and "job_of (sys_db s) i = Some j"
  shows "\<exists>j'. job_of (sys_db s') i = Some j' \<and> same_origin j j'
    \<and> CanTransition\<^sup>*\<^sup>* (job_Status j) (job_Status j')
    \<and> prefix (map att_Number (attempts_of (sys_db s) i)) (map att_Number (attempts_of (sys_db s') i))
    \<and> (job_Status j \<in> {StatusCompleted, StatusCancelled} \<longrightarrow> job_Status j' = job_Status j)"
proof -
  obtain j' where j': "job_of (sys_db s') i = Some j'" "same_origin j j'"
    using db_le_job [OF persist.sys_steps_within [OF assms(2)] assms(3)] by blast
  from sys_steps_status [OF assms(2,1) view_job_of [OF assms(3)]] view_job_of [OF j'(1)]
  have "CanTransition\<^sup>*\<^sup>* (job_Status j) (job_Status j')"
    "prefix (map att_Number (attempts_of (sys_db s) i)) (map att_Number (attempts_of (sys_db s') i))"
    by auto
  then show ?thesis
    using j' absorbing_rtranclp [of "job_Status j" "job_Status j'"] by auto
qed

theorem legal_histories_witness:
  "reachable demo_dep cancelled_system
   \<and> (sys_step demo_dep)\<^sup>*\<^sup>* cancelled_system (started demo_dep 3 (Deliver ''job1'') cancelled_system)
   \<and> (\<exists>j'. job_of (sys_db (started demo_dep 3 (Deliver ''job1'') cancelled_system)) 1 = Some j'
        \<and> job_Status j' = StatusCancelled)"
proof -
  have step: "sys_step demo_dep cancelled_system (started demo_dep 3 (Deliver ''job1'') cancelled_system)"
    by (rule sys_step.start) (simp add: cancelled_system_def)
  have j: "job_of (sys_db cancelled_system) 1 = Some cancelled_job" "job_Status cancelled_job = StatusCancelled"
    by (simp_all add: demo_states)
  show ?thesis
    using legal_histories [OF reachable_cancelled r_into_rtranclp [of "sys_step demo_dep", OF step] j(1)]
      reachable_cancelled r_into_rtranclp [of "sys_step demo_dep", OF step] j(2) by auto
qed

text \<open>
  C15. Schema integrity: in every reachable state the tables satisfy the schema's keys,
  references and checks; and each single step leaves every job row in place with the same
  identifying columns and every idempotency key bound to the same job.
\<close>

theorem schema_integrity:
  assumes "reachable dep s" and "sys_step dep s s'"
  shows "wf_db (sys_db s) \<and> wf_db (sys_db s') \<and> db_le (sys_db s) (sys_db s')"
  using assms reachable_wf reachable_step persist.sys_step_within by blast

theorem schema_integrity_witness:
  "sys_step demo_dep claimed_system (crashed 0 claimed_system) \<and> wf_db (sys_db claimed_system)"
  using schema_integrity [OF reachable_claimed sys_step.crash [of demo_dep claimed_system 0]] sys_step.crash
  by blast

end
