(* ===== verification/Knowledge.thy ===== *)
theory Knowledge
  imports Concurrency
begin

text \<open>
  What a goroutine may conclude from its replies although others change the tables between
  its calls: facts that persist. \<open>yields Q K p\<close> says that program \<open>p\<close>, started when \<open>K\<close> holds,
  returns only results \<open>r\<close> for which \<open>Q r\<close> holds of the tables, whatever happens in between.
\<close>

section \<open>Persistent facts\<close>

definition persistent :: "(db \<Rightarrow> bool) \<Rightarrow> bool" where
  "persistent K \<longleftrightarrow> (\<forall>d d'. K d \<longrightarrow> db_le d d' \<longrightarrow> K d')"

lemma persistentD: "persistent K \<Longrightarrow> K d \<Longrightarrow> db_le d d' \<Longrightarrow> K d'"
  by (simp add: persistent_def)

lemma persistent_intros [intro]:
  "persistent (\<lambda>d. c)"
  "persistent K1 \<Longrightarrow> persistent K2 \<Longrightarrow> persistent (\<lambda>d. K1 d \<and> K2 d)"
  "(c \<Longrightarrow> persistent K3) \<Longrightarrow> persistent (\<lambda>d. c \<longrightarrow> K3 d)"
  by (auto simp: persistent_def)

inductive yields :: "('r \<Rightarrow> db \<Rightarrow> bool) \<Rightarrow> (db \<Rightarrow> bool) \<Rightarrow> 'r prog \<Rightarrow> bool" for Q where
  yields_Return: "(\<And>d. K d \<Longrightarrow> Q r d) \<Longrightarrow> yields Q K (Return r)"
| yields_Panic: "yields Q K Panic"
| yields_call: "\<not> is_done p \<Longrightarrow> (\<And>oc w. K (w_db w) \<Longrightarrow>
      \<exists>K'. persistent K' \<and> K' (w_db (snd (step_prog oc p w))) \<and> yields Q K' (fst (step_prog oc p w)))
    \<Longrightarrow> yields Q K p"

inductive_cases yields_ReturnE: "yields Q K (Return r)"

lemma yields_weaken: "yields Q K p \<Longrightarrow> (\<And>d. L d \<Longrightarrow> K d) \<Longrightarrow> yields Q L p"
proof (induction arbitrary: L rule: yields.induct)
  case (yields_call p K)
  show ?case
  proof (rule yields.yields_call [OF yields_call.hyps(1)])
    fix oc :: outside and w :: world assume "L (w_db w)"
    from yields_call.IH [OF yields_call.prems [OF this], of oc] show
      "\<exists>K'. persistent K' \<and> K' (w_db (snd (step_prog oc p w))) \<and> yields Q K' (fst (step_prog oc p w))"
      by blast
  qed
qed (auto intro: yields.intros)

lemma yields_consequence:
  "yields Q K p \<Longrightarrow> (\<And>r d. Q r d \<Longrightarrow> Q' r d) \<Longrightarrow> yields Q' K p"
proof (induction rule: yields.induct)
  case (yields_call p K)
  show ?case
  proof (rule yields.yields_call [OF yields_call.hyps(1)])
    fix oc :: outside and w :: world assume "K (w_db w)"
    from yields_call.IH [OF this, of oc] yields_call.prems show
      "\<exists>K'. persistent K' \<and> K' (w_db (snd (step_prog oc p w))) \<and> yields Q' K' (fst (step_prog oc p w))"
      by auto
  qed
qed (auto intro: yields.intros)

lemma yields_bind:
  assumes "yields Q1 K p" and "\<And>r. yields Q (Q1 r) (f r)"
  shows "yields Q K (bind_prog p f)"
  using assms(1)
proof (induction rule: yields.induct)
  case (yields_Return K r)
  then show ?case by (auto intro: yields_weaken [OF assms(2)])
next
  case (yields_call p K)
  show ?case
  proof (rule yields.yields_call [OF is_done_bind [OF yields_call.hyps(1)]])
    fix oc :: outside and w :: world assume "K (w_db w)"
    from yields_call.IH [OF this, of oc] show "\<exists>K'. persistent K' \<and> K' (w_db (snd (step_prog oc (bind_prog p f) w)))
        \<and> yields Q K' (fst (step_prog oc (bind_prog p f) w))"
      by (auto simp: step_prog_bind [OF yields_call.hyps(1)])
  qed
qed (simp add: yields.yields_Panic)

text \<open>A persistent fact may be carried along any program.\<close>

lemma yields_frame:
  assumes "yields Q K p" and "persistent F"
  shows "yields (\<lambda>r d. Q r d \<and> F d) (\<lambda>d. K d \<and> F d) p"
  using assms(1)
proof (induction rule: yields.induct)
  case (yields_call p K)
  show ?case
  proof (rule yields.yields_call [OF yields_call.hyps(1)])
    fix oc :: outside and w :: world assume k: "K (w_db w) \<and> F (w_db w)"
    then have "F (w_db (snd (step_prog oc p w)))"
      using persistentD [OF assms(2)] persist.call_within by blast
    with yields_call.IH [of w oc] k show "\<exists>K'. persistent K' \<and> K' (w_db (snd (step_prog oc p w)))
        \<and> yields (\<lambda>r d. Q r d \<and> F d) K' (fst (step_prog oc p w))"
      using persistent_intros(2) [OF _ assms(2)] by blast
  qed
qed (auto intro: yields.intros)

text \<open>A call whose reply is not looked at keeps what is known.\<close>

lemma yields_any:
  assumes "persistent K" and "\<not> is_done p" and "\<And>oc w. yields Q K (fst (step_prog oc p w))"
  shows "yields Q K p"
proof (rule yields_call [OF assms(2)])
  fix oc :: outside and w :: world assume "K (w_db w)"
  then have "K (w_db (snd (step_prog oc p w)))"
    using persistentD [OF assms(1)] persist.call_within by blast
  then show "\<exists>K'. persistent K' \<and> K' (w_db (snd (step_prog oc p w))) \<and> yields Q K' (fst (step_prog oc p w))"
    using assms(1,3) by blast
qed

lemma yields_trivial: "yields (\<lambda>_ _. True) (\<lambda>_. True) p"
  by (induction p)
    ((rule yields.yields_Return yields.yields_Panic yields_any;
      auto simp: on_db_def persistent_def split: prod.splits); fail)+

section \<open>Promises of requests\<close>

text \<open>
  A promise relates a request, its outcome and the tables; when the request's program
  yields it, it holds of every outcome in every reachable state from then on.
\<close>

locale promise =
  fixes Q :: "request \<Rightarrow> outcome \<Rightarrow> db \<Rightarrow> bool" and dep :: "'img deployment"
  assumes persistent_Q: "persistent (Q r x)"
    and entry_yields: "yields (Q r) (\<lambda>_. True) (entry dep r)"
begin

definition kept :: "system \<Rightarrow> bool" where
  "kept s \<longleftrightarrow> (\<forall>t p. sys_threads s t = Some p \<longrightarrow>
     (\<exists>r K. sys_calls s t = Some r \<and> persistent K \<and> K (sys_db s) \<and> yields (Q r) K p))"

lemma kept_step:
  assumes "kept s" and "sys_step dep s s'"
  shows "kept s'"
  using assms(2)
proof cases
  case (start t r)
  have "\<exists>r' K. sys_calls s' u = Some r' \<and> persistent K \<and> K (sys_db s') \<and> yields (Q r') K p"
    if "sys_threads s' u = Some p" for u p
  proof (cases "u = t")
    case True
    then show ?thesis
      using that start entry_yields [of r] by (intro exI [where x = r] exI [where x = "\<lambda>_. True"]) auto
  next
    case False
    then show ?thesis using that start assms(1) by (simp add: kept_def)
  qed
  then show ?thesis by (simp add: kept_def)
next
  case (call t p oc)
  have "\<exists>r' K. sys_calls s' u = Some r' \<and> persistent K \<and> K (sys_db s') \<and> yields (Q r') K q"
    if u: "sys_threads s' u = Some q" for u q
  proof (cases "u = t")
    case True
    obtain r K where r: "sys_calls s t = Some r" "K (sys_db s)" "yields (Q r) K p"
      using assms(1) call(2) unfolding kept_def by blast
    from r(3) show ?thesis
    proof cases
      case yields_call
      then show ?thesis using yields_call(2) [OF r(2), of oc] r(1) u True call(1) by auto
    qed (use call(3) in simp_all)
  next
    case False
    then obtain r K where r: "sys_calls s u = Some r" "persistent K" "K (sys_db s)" "yields (Q r) K q"
      using assms(1) u call(1) unfolding kept_def by (metis fun_upd_other system_sels(6))
    have "K (sys_db s')" using persistentD [OF r(2,3)] persist.sys_step_within [OF assms(2)] by blast
    then show ?thesis using r call(1) by auto
  qed
  then show ?thesis by (simp add: kept_def)
next
  case (crash t)
  then show ?thesis using assms(1) by (auto simp: kept_def split: if_splits)
qed

lemma reachable_kept: "reachable dep s \<Longrightarrow> kept s"
  by (induction rule: reachable.induct) (auto simp: kept_step, simp add: kept_def initial_system_def)

lemma promise_holds:
  assumes "reachable dep s" and "sys_calls s t = Some r" and "sys_threads s t = Some (Return x)"
  shows "Q r x (sys_db s)"
proof -
  obtain K where "K (sys_db s)" "yields (Q r) K (Return x)"
    using reachable_kept [OF assms(1)] assms(2,3) unfolding kept_def by force
  then show ?thesis by (auto elim: yields_ReturnE)
qed

end

end
