(* ===== verification/Idempotency.thy ===== *)
theory Idempotency
  imports Knowledge Scenario
begin

text \<open>
  Idempotent creation under concurrency: what \<open>CreateJob\<close> promises about the job it
  returns, the idempotency key it was given and the hash of the request.
\<close>

section \<open>What a job's row tells for ever\<close>

definition known :: "job \<Rightarrow> db \<Rightarrow> bool" where
  "known j d \<longleftrightarrow> (\<exists>r. job_of d (job_ID j) = Some r \<and> same_origin j r)"

lemma persistent_known [intro]: "persistent (known j)"
  by (auto simp: persistent_def known_def dest: db_le_job intro: same_origin_trans)

lemma known_row: "job_of d i = Some j \<Longrightarrow> known j d"
  using row_of_key [of job_ID i "jobs d" j] by (auto simp: known_def)

definition bound :: "string \<Rightarrow> uuid \<Rightarrow> string \<Rightarrow> db \<Rightarrow> bool" where
  "bound key i h d \<longleftrightarrow> (\<exists>r. key_of d key = Some r \<and> ik_JobID r = i \<and> ik_RequestHash r = h)"

lemma persistent_bound [intro]: "persistent (bound key i h)"
  by (auto simp: persistent_def bound_def dest: db_le_key)

text \<open>The job \<open>q\<close> is a later version of \<open>j\<close>, as far as the tables go.\<close>

definition later :: "job \<Rightarrow> job \<Rightarrow> db \<Rightarrow> bool" where
  "later j q d \<longleftrightarrow> same_origin j q \<and> known q d"

lemma persistent_later [intro]: "persistent (later j q)"
  unfolding later_def by (intro persistent_intros persistent_known)

fun if_job :: "(job \<Rightarrow> db \<Rightarrow> bool) \<Rightarrow> err + job \<Rightarrow> db \<Rightarrow> bool" where
  "if_job P (Inl e) d \<longleftrightarrow> True"
| "if_job P (Inr j) d \<longleftrightarrow> P j d"

section \<open>Replies of the queries and transitions\<close>

lemma yields_call_read:
  assumes "\<not> is_done p" and "\<And>oc w. K (w_db w) \<Longrightarrow> w_db (snd (step_prog oc p w)) = w_db w
      \<and> (\<exists>K'. persistent K' \<and> K' (w_db w) \<and> yields Q K' (fst (step_prog oc p w)))"
  shows "yields Q K p"
  using assms by (intro yields_call) metis+

lemma yields_SelectJob:
  assumes K: "persistent K"
    and err: "\<And>e. yields Q (\<lambda>_. True) (k (Inl e))" and none: "yields Q (\<lambda>_. True) (k (Inr None))"
    and some: "\<And>r d. job_ID r = i \<Longrightarrow> K d \<Longrightarrow> job_of d i = Some r \<Longrightarrow>
      \<exists>K'. persistent K' \<and> K' d \<and> yields Q K' (k (Inr (Some r)))"
  shows "yields Q K (SelectJob i k)"
proof (rule yields_call_read, goal_cases)
  case (2 oc w)
  have "\<exists>K'. persistent K' \<and> K' (w_db w) \<and> yields Q K' (k (Inr (job_of (w_db w) i)))"
  proof (cases "job_of (w_db w) i")
    case None
    then show ?thesis using none persistent_intros(1) by (intro exI [where x = "\<lambda>_. True"]) auto
  next
    case (Some r)
    then show ?thesis using some [of r "w_db w"] 2 row_of_key [OF Some] by auto
  qed
  then show ?case using err persistent_intros(1) by (cases "o_fault oc") auto
qed simp

lemma yields_SelectKey:
  assumes K: "persistent K"
    and err: "\<And>e. yields Q (\<lambda>_. True) (k (Inl e))" and none: "yields Q (\<lambda>_. True) (k (Inr None))"
    and some: "\<And>j h. yields Q (bound key j h) (k (Inr (Some (j, h))))"
  shows "yields Q K (SelectKey key k)"
proof (rule yields_call_read, goal_cases)
  case (2 oc w)
  have "\<exists>K'. persistent K' \<and> K' (w_db w)
      \<and> yields Q K' (k (Inr (map_option (\<lambda>r. (ik_JobID r, ik_RequestHash r)) (key_of (w_db w) key))))"
  proof (cases "key_of (w_db w) key")
    case None
    then show ?thesis using none persistent_intros(1) by (intro exI [where x = "\<lambda>_. True"]) auto
  next
    case (Some r)
    then have "bound key (ik_JobID r) (ik_RequestHash r) (w_db w)" by (simp add: bound_def)
    then show ?thesis using some [of "ik_JobID r" "ik_RequestHash r"] persistent_bound Some by auto
  qed
  then show ?case using err persistent_intros(1) by (cases "o_fault oc") auto
qed simp

lemma yields_GetJob:
  "yields (if_job (\<lambda>q. later j q)) (known j) (GetJob (job_ID j))"
  unfolding GetJob_def
proof (rule yields_SelectJob [OF persistent_known])
  fix r d assume "known j d" "job_of d (job_ID j) = Some r"
  then have "later j r d" using known_row [where d = d and i = "job_ID j" and j = r] by (auto simp: later_def known_def)
  then show "\<exists>K'. persistent K' \<and> K' d \<and> yields (if_job (later j)) K' (Return (case Inr (Some r) of
      Inl e \<Rightarrow> Inl e | Inr None \<Rightarrow> Inl (Sentinel ErrNotFound) | Inr (Some job) \<Rightarrow> Inr job))"
    by (intro exI [where x = "later j r"]) (auto intro: yields_Return)
qed (auto intro: yields_Return)

lemma yields_miss: "yields (if_job P) K (bind_prog p (\<lambda>e. Return (Inl (f e))))"
proof -
  have "yields (if_job P) (\<lambda>_. True) (bind_prog p (\<lambda>e. Return (Inl (f e))))"
    by (rule yields_bind [OF yields_trivial]) (auto intro: yields_Return)
  then show ?thesis by (rule yields_weaken) simp
qed

lemma yields_UpdateJobStatus:
  "yields (if_job (\<lambda>q. later j q)) (known j) (UpdateJobStatus (job_ID j) s u)"
proof (cases "ValidateTransition s (upd_To u)")
  case None
  have "yields (if_job (\<lambda>q. later j q)) (known j) (UpdateJob (job_ID j) s u (\<lambda>r. case r of
      Inl e \<Rightarrow> Return (Inl e) | Inr None \<Rightarrow> bind_prog (classifyMissingUpdate (job_ID j)) (\<lambda>e. Return (Inl e))
    | Inr (Some job) \<Rightarrow> Return (Inr job)))" (is "yields ?Q _ (UpdateJob _ _ _ ?k)")
  proof (rule yields_call, goal_cases)
    case (2 oc w)
    let ?f = "sql_update_job (o_now oc) (job_ID j) s u"
    obtain r where r: "job_of (w_db w) (job_ID j) = Some r" "same_origin j r"
      using 2 by (auto simp: known_def)
    have err: "yields ?Q (\<lambda>_. True) (?k (Inl e))" for e by (auto intro: yields_Return)
    have "\<exists>K'. persistent K' \<and> K' (snd (?f (w_db w))) \<and> yields ?Q K' (?k (fst (?f (w_db w))))"
    proof (rule sql_update_job_cases [of "o_now oc" "job_ID j" s u "w_db w"])
      fix x assume a: "?f (w_db w) = (x, w_db w)" "\<nexists>q. x = Inr (Some q)"
      have "yields ?Q (\<lambda>_. True) (?k x)"
        using no_row_cases [OF a(2)] err yields_miss by auto
      then show ?thesis using a(1) persistent_intros(1) by (intro exI [where x = "\<lambda>_. True"]) auto
    next
      fix q d' assume a: "guarded_update (job_ID j) s (updated_row (o_now oc) u) (w_db w) = (Some q, d')"
        "?f (w_db w) = (Inr (Some q), d')"
      have q: "q = updated_row (o_now oc) u r"
        using a(1) r(1) by (auto simp: guarded_update_def split: if_splits)
      have "job_of d' (job_ID j) = Some q"
        using job_of_guarded_update [of "updated_row (o_now oc) u", where d = "w_db w" and i = "job_ID j" and k = "job_ID j" and s = s] a(1) r(1) q
        by (auto simp: guarded_update_def split: if_splits)
      then have "later j q d'"
        using known_row same_origin_trans [OF r(2) updated_row_same_origin] q by (auto simp: later_def)
      then show ?thesis
        using a(2) persistent_later by (intro exI [where x = "later j q"]) (auto intro: yields_Return)
    qed
    then show ?case
      using err persistent_intros(1) by (cases "o_fault oc") (auto simp: on_db_def)
  qed simp
  then show ?thesis using None by (simp add: UpdateJobStatus_def)
next
  case (Some e)
  then show ?thesis by (auto simp: UpdateJobStatus_def intro: yields_Return)
qed

section \<open>Creation\<close>

text \<open>
  What the repository's \<open>CreateJob\<close> promises: the job is in the tables; a key given with the
  request is bound to it under the request's hash; and a job reported as created carries the
  request's parameters.
\<close>

definition made :: "new_job_params \<Rightarrow> string \<Rightarrow> string \<Rightarrow> job \<Rightarrow> bool \<Rightarrow> db \<Rightarrow> bool" where
  "made p key h j c d \<longleftrightarrow> known j d \<and> (key \<noteq> '''' \<longrightarrow> bound key (job_ID j) h d)
     \<and> (c \<longrightarrow> job_ID j = par_ID p \<and> job_Pipeline j = par_Pipeline p \<and> job_PipelineVersion j = par_PipelineVersion p
          \<and> job_InputObjectKey j = par_InputObjectKey p \<and> job_CorrelationID j = par_CorrelationID p
          \<and> job_MaxAttempts j = par_MaxAttempts p)"

lemma persistent_made [intro]: "persistent (made p key h j c)"
  unfolding made_def by (intro persistent_intros persistent_known persistent_bound)

fun if_made :: "(job \<Rightarrow> bool \<Rightarrow> db \<Rightarrow> bool) \<Rightarrow> err + job \<times> bool \<Rightarrow> db \<Rightarrow> bool" where
  "if_made P (Inl e) d \<longleftrightarrow> True"
| "if_made P (Inr (j, c)) d \<longleftrightarrow> P j c d"

lemma persistent_if_made: "(\<And>j c. persistent (P j c)) \<Longrightarrow> persistent (if_made P r)"
  by (cases r) (auto simp: persistent_def)

lemma yields_error [intro]: "yields (if_made P) K (Return (Inl e))"
  by (rule yields_Return) simp

lemma yields_resolveExisting:
  assumes "key \<noteq> ''''"
  shows "yields (if_made (made p key h)) (\<lambda>_. True) (resolveExisting key h)"
  unfolding resolveExisting_def
proof (rule yields_SelectKey [OF persistent_intros(1)], goal_cases)
  case (3 i h')
  have "yields (if_made (made p key h)) (bound key i h)
      (bind_prog (GetJob i) (\<lambda>g. Return (case g of Inl e \<Rightarrow> Inl e | Inr job \<Rightarrow> Inr (job, False))))"
    unfolding GetJob_def
  proof (simp, rule yields_SelectJob [OF persistent_bound], goal_cases)
    case (3 r d)
    have "yields (if_made (made p key h)) (\<lambda>d. bound key i h d \<and> known r d) (Return (Inr (r, False)))"
      using 3(1) by (auto intro!: yields_Return simp: made_def)
    moreover have "known r d" using 3(1,3) by (auto simp: known_def)
    ultimately show ?case
      using 3(2) persistent_intros(2) [OF persistent_bound persistent_known, of key i h r] by auto
  qed auto
  then show ?case by auto
qed auto

lemma made_new_row:
  assumes "job_of d (par_ID p) = Some (new_job_row now p)" and "key \<noteq> '''' \<longrightarrow> bound key (par_ID p) h d"
  shows "made p key h (new_job_row now p) True d"
  using assms known_row [OF assms(1)] by (simp add: made_def new_job_row_def)

lemma yields_insertJob:
  "yields (if_made (made p '''' h)) (\<lambda>_. True)
     (InsertJob p (\<lambda>r. Return (case r of Inl e \<Rightarrow> Inl e | Inr job \<Rightarrow> Inr (job, True))))"
  (is "yields ?Q _ (InsertJob p ?k)")
proof (rule yields_call, goal_cases)
  case (2 oc w)
  have err: "yields ?Q (\<lambda>_. True) (?k (Inl e))" for e by auto
  have "\<exists>K'. persistent K' \<and> K' (snd (sql_insert_job (o_now oc) p (w_db w)))
      \<and> yields ?Q K' (?k (fst (sql_insert_job (o_now oc) p (w_db w))))"
  proof (rule sql_insert_job_cases [of "o_now oc" p "w_db w"])
    fix e assume "sql_insert_job (o_now oc) p (w_db w) = (Inl e, w_db w)"
    then show ?thesis using persistent_intros(1) by (intro exI [where x = "\<lambda>_. True"]) auto
  next
    assume a: "sql_insert_job (o_now oc) p (w_db w) = (Inr (new_job_row (o_now oc) p),
      w_db w\<lparr>jobs := jobs (w_db w) @ [new_job_row (o_now oc) p]\<rparr>)" "job_of (w_db w) (par_ID p) = None"
    let ?d' = "w_db w\<lparr>jobs := jobs (w_db w) @ [new_job_row (o_now oc) p]\<rparr>"
    have "job_ID (new_job_row (o_now oc) p) = par_ID p" by (simp add: new_job_row_def)
    then have "made p '''' h (new_job_row (o_now oc) p) True ?d'"
      using a(2) by (intro made_new_row) (simp_all add: row_of_append)
    then show ?thesis
      using a(1) persistent_made by (intro exI [where x = "made p '''' h (new_job_row (o_now oc) p) True"])
        (auto intro: yields_Return)
  qed
  then show ?case using err persistent_intros(1) by (cases "o_fault oc") (auto simp: on_db_def)
qed simp

lemma yields_insertJobWithKey:
  assumes key: "key \<noteq> ''''" and err: "\<And>e. yields (if_made (made p key h)) (\<lambda>_. True) (k (Inl e))"
    and taken: "yields (if_made (made p key h)) (\<lambda>_. True) (k (Inr None))"
    and won: "\<And>j. yields (if_made (made p key h)) (made p key h j True) (k (Inr (Some j)))"
  shows "yields (if_made (made p key h)) (\<lambda>_. True) (InsertJobWithKey p key h k)"
proof (rule yields_call, goal_cases)
  case (2 oc w)
  let ?f = "tx_insert_job_with_key (o_now oc) p key h"
  have "\<exists>K'. persistent K' \<and> K' (snd (?f (w_db w))) \<and> yields (if_made (made p key h)) K' (k (fst (?f (w_db w))))"
  proof (rule tx_insert_cases [of "o_now oc" p key h "w_db w"])
    fix r assume a: "?f (w_db w) = (r, w_db w)" "\<nexists>j. r = Inr (Some j)"
    have "yields (if_made (made p key h)) (\<lambda>_. True) (k r)"
      using no_row_cases [OF a(2)] err taken by auto
    then show ?thesis using a(1) persistent_intros(1) by (intro exI [where x = "\<lambda>_. True"]) auto
  next
    fix d' assume a: "sql_insert_job (o_now oc) p (w_db w) = (Inr (new_job_row (o_now oc) p), d')"
      "key_of (w_db w) key = None"
      "?f (w_db w) = (Inr (Some (new_job_row (o_now oc) p)), d'\<lparr>idempotency_keys := idempotency_keys (w_db w) @
         [\<lparr>ik_Key = key, ik_JobID = par_ID p, ik_RequestHash = h, ik_CreatedAt = o_now oc\<rparr>]\<rparr>)"
    have "job_of d' (par_ID p) = Some (new_job_row (o_now oc) p)"
      using a(1) by (auto simp: sql_insert_job_def Let_def row_of_append new_job_row_def split: if_splits)
    then have "made p key h (new_job_row (o_now oc) p) True (snd (?f (w_db w)))"
      using a(2,3) by (intro made_new_row) (simp_all add: bound_def row_of_append)
    then show ?thesis using a(3) won persistent_made by auto
  qed
  then show ?case using err persistent_intros(1) by (cases "o_fault oc") (auto simp: on_db_def)
qed simp

lemma yields_repo_CreateJob: "yields (if_made (made p key h)) (\<lambda>_. True) (repo_CreateJob p key h)"
proof (cases "key = ''''")
  case True
  then show ?thesis
    using yields_insertJob by (simp add: repo_CreateJob_def insertJob_def)
next
  case False
  then show ?thesis
    unfolding repo_CreateJob_def
    by (simp, intro yields_insertJobWithKey)
      (auto intro: yields_resolveExisting yields_Return split: tx_stage.split)
qed

lemma yields_finish_create:
  "yields (if_made (\<lambda>q c' d. c' = c \<and> later j q d)) (known j) (finish_create s j c)"
proof (cases "job_Status j = StatusPending")
  case False
  then show ?thesis
    by (auto simp: finish_create_def later_def intro: yields_Return)
next
  case True
  let ?Q = "if_made (\<lambda>q c' d. c' = c \<and> later j q d)"
  have pub: "yields (\<lambda>(q, e) d. e = None \<longrightarrow> later j q d) (later j q)
      (bind_prog (Publish (svc_lib s) (message_for (svc_lib s) q)) (\<lambda>p. Return (q, p)))" for q
  proof -
    have "yields (\<lambda>r d. True \<and> later j q d) (\<lambda>d. True \<and> later j q d) (Publish (svc_lib s) (message_for (svc_lib s) q))"
      by (rule yields_frame [OF yields_trivial persistent_later])
    then show ?thesis by (intro yields_bind) (auto intro: yields_Return)
  qed
  have "yields (\<lambda>(q, e) d. (e = None \<longrightarrow> later j q d) \<and> known j d) (known j) (enqueue s j)"
  proof -
    have "yields (\<lambda>(q, e) d. e = None \<longrightarrow> later j q d) (known j) (enqueue s j)"
      unfolding enqueue_def
    proof (rule yields_bind [OF yields_UpdateJobStatus])
      fix r
      show "yields (\<lambda>(q, e) d. e = None \<longrightarrow> later j q d) (if_job (later j) r) (case r of Inl e \<Rightarrow> Return (j, Some e)
          | Inr queued \<Rightarrow> bind_prog (Publish (svc_lib s) (message_for (svc_lib s) queued)) (\<lambda>p. Return (queued, p)))"
        by (cases r) (auto intro: yields_Return yields_weaken [OF pub])
    qed
    from yields_frame [OF this persistent_known, of j] show ?thesis
      by (simp add: case_prod_beta')
  qed
  then show ?thesis
    unfolding finish_create_def
  proof (simp add: True, elim yields_bind, goal_cases)
    case (1 r)
    obtain q e where r: "r = (q, e)" by (cases r)
    have again: "yields ?Q (known j) (bind_prog (GetJob (job_ID j)) (\<lambda>g. case g of
        Inl _ \<Rightarrow> Return (Inl (wrap_prefix ''enqueue job'' x)) | Inr cur \<Rightarrow> Return (Inr (cur, c))))" for x
      by (rule yields_bind [OF yields_GetJob]) (auto intro: yields_Return split: sum.split)
    then show ?case
      using r by (cases e) (auto intro: yields_Return yields_weaken [OF again])
  qed
qed

section \<open>The promise of the creation endpoint\<close>

text \<open>
  The job returned is in the tables; a key sent with the request is bound to it under the
  hash of the request; a job reported as created is the one the request asked for.
\<close>

definition created_as :: "service \<Rightarrow> create_job_input \<Rightarrow> job \<Rightarrow> bool \<Rightarrow> db \<Rightarrow> bool" where
  "created_as s inp j c d \<longleftrightarrow> (\<exists>objectKey. DecodeUploadID (cji_UploadID inp) = Inr objectKey \<and> known j d
     \<and> (cji_IdempotencyKey inp \<noteq> '''' \<longrightarrow> bound (cji_IdempotencyKey inp) (job_ID j)
          (requestHash objectKey (TrimSpace (cji_Pipeline inp)) (TrimSpace (cji_PipelineVersion inp))) d)
     \<and> (c \<longrightarrow> job_Pipeline j = TrimSpace (cji_Pipeline inp) \<and> job_PipelineVersion j = TrimSpace (cji_PipelineVersion inp)
          \<and> job_InputObjectKey j = objectKey \<and> job_CorrelationID j = cji_CorrelationID inp
          \<and> job_MaxAttempts j = svc_maxAttempts s))"

lemma persistent_created_as: "persistent (created_as s inp j c)"
proof -
  have "created_as s inp j c = (case DecodeUploadID (cji_UploadID inp) of Inl _ \<Rightarrow> (\<lambda>d. False)
      | Inr objectKey \<Rightarrow> (\<lambda>d. known j d
     \<and> (cji_IdempotencyKey inp \<noteq> '''' \<longrightarrow> bound (cji_IdempotencyKey inp) (job_ID j)
          (requestHash objectKey (TrimSpace (cji_Pipeline inp)) (TrimSpace (cji_PipelineVersion inp))) d)
     \<and> (c \<longrightarrow> job_Pipeline j = TrimSpace (cji_Pipeline inp) \<and> job_PipelineVersion j = TrimSpace (cji_PipelineVersion inp)
          \<and> job_InputObjectKey j = objectKey \<and> job_CorrelationID j = cji_CorrelationID inp
          \<and> job_MaxAttempts j = svc_maxAttempts s)))"
    by (intro ext) (simp add: created_as_def split: sum.split)
  moreover have "persistent (\<lambda>d. c)" for c by (rule persistent_intros)
  ultimately show ?thesis
    by (simp split: sum.split) (intro allI impI conjI persistent_intros persistent_known persistent_bound)
qed

lemma yields_CreateJob: "yields (if_made (created_as s inp)) (\<lambda>_. True) (CreateJob s inp)"
proof -
  have repo: "yields (if_made (created_as s inp)) (\<lambda>_. True) (bind_prog (repo_CreateJob p (cji_IdempotencyKey inp) h)
      (\<lambda>r. case r of Inl e \<Rightarrow> Return (Inl e) | Inr (job, created) \<Rightarrow> finish_create s job created))"
    if p: "DecodeUploadID (cji_UploadID inp) = Inr objectKey"
      "p = \<lparr>par_ID = i, par_Pipeline = TrimSpace (cji_Pipeline inp), par_PipelineVersion = TrimSpace (cji_PipelineVersion inp),
         par_InputObjectKey = objectKey, par_CorrelationID = cji_CorrelationID inp, par_MaxAttempts = svc_maxAttempts s\<rparr>"
      "h = requestHash objectKey (TrimSpace (cji_Pipeline inp)) (TrimSpace (cji_PipelineVersion inp))"
    for objectKey p h i
  proof (rule yields_bind [OF yields_repo_CreateJob])
    fix r
    show "yields (if_made (created_as s inp)) (if_made (made p (cji_IdempotencyKey inp) h) r)
        (case r of Inl e \<Rightarrow> Return (Inl e) | Inr (job, created) \<Rightarrow> finish_create s job created)"
    proof (cases r)
      case (Inr jc)
      obtain j c where jc: "jc = (j, c)" by (cases jc)
      let ?F = "made p (cji_IdempotencyKey inp) h j c"
      have "yields (\<lambda>x d. if_made (\<lambda>q c' d. c' = c \<and> later j q d) x d \<and> ?F d) (\<lambda>d. known j d \<and> ?F d)
          (finish_create s j c)"
        by (rule yields_frame [OF yields_finish_create persistent_made])
      then have "yields (if_made (created_as s inp)) (\<lambda>d. known j d \<and> ?F d) (finish_create s j c)"
      proof (rule yields_consequence)
        fix x d assume "if_made (\<lambda>q c' d. c' = c \<and> later j q d) x d \<and> ?F d"
        then show "if_made (created_as s inp) x d"
          using p by (cases x) (auto simp: created_as_def made_def later_def same_origin_def)
      qed
      then show ?thesis
        using Inr jc by (auto simp: made_def intro: yields_weaken)
    qed auto
  qed
  have skip: "yields (if_made (created_as s inp)) (\<lambda>_. True) (NewUUID k)"
    if "\<And>u. yields (if_made (created_as s inp)) (\<lambda>_. True) (k u)" for k
    by (rule yields_any) (simp_all add: that persistent_intros)
  have stat: "yields (if_made (created_as s inp)) (\<lambda>_. True) (bind_prog (store_Stat key) f)"
    if "\<And>r. yields (if_made (created_as s inp)) (\<lambda>_. True) (f r)" for key f
    by (rule yields_bind [OF yields_trivial]) (rule that)
  have accepted: "yields (if_made (created_as s inp)) (\<lambda>_. True) (case r of
        Inl e \<Rightarrow> Return (Inl (f e))
      | Inr info \<Rightarrow> (case ValidateObject info n of Some e \<Rightarrow> Return (Inl (validation_error e))
          | None \<Rightarrow> NewUUID k))"
    if "\<And>u. yields (if_made (created_as s inp)) (\<lambda>_. True) (k u)" for r f n k
    using skip [OF that] by (auto split: sum.split option.split)
  show ?thesis
  proof (cases "DecodeUploadID (cji_UploadID inp)")
    case (Inr objectKey)
    show ?thesis
      unfolding CreateJob_def Let_def Inr sum.case
      using repo [OF Inr refl refl] by (simp add: stat accepted yields_error)
  qed (auto simp: CreateJob_def Let_def)
qed

fun creation_promise :: "service \<Rightarrow> request \<Rightarrow> outcome \<Rightarrow> db \<Rightarrow> bool" where
  "creation_promise s (CallCreateJob inp) (CreateDone (Inr (j, c))) d \<longleftrightarrow> created_as s inp j c d"
| "creation_promise s r x d \<longleftrightarrow> True"

interpretation creation: promise "creation_promise (dep_service dep)" dep for dep :: "'img deployment"
proof
  fix r x
  show "persistent (creation_promise (dep_service dep) r x)"
    using persistent_created_as persistent_intros(1) [of True]
    by (cases "(dep_service dep, r, x, empty_db)" rule: creation_promise.cases) (auto simp: persistent_def)
next
  fix r
  have "yields (creation_promise (dep_service dep) r) (\<lambda>_. True) (entry dep r)" if "\<nexists>inp. r = CallCreateJob inp"
  proof -
    have "yields (\<lambda>_ _. True) (\<lambda>_. True) (entry dep r)" by (rule yields_trivial)
    then show ?thesis
    proof (rule yields_consequence)
      fix x d show "creation_promise (dep_service dep) r x d"
        using that by (cases "(dep_service dep, r, x, d)" rule: creation_promise.cases) auto
    qed
  qed
  moreover have "yields (creation_promise (dep_service dep) (CallCreateJob inp)) (\<lambda>_. True) (entry dep (CallCreateJob inp))" for inp
  proof (simp, rule yields_bind [OF yields_CreateJob])
    fix r show "yields (creation_promise (dep_service dep) (CallCreateJob inp))
        (if_made (created_as (dep_service dep) inp) r) (Return (CreateDone r))"
      by (rule yields_Return) (cases r, auto)
  qed
  ultimately show "yields (creation_promise (dep_service dep) r) (\<lambda>_. True) (entry dep r)" by blast
qed

text \<open>
  C10. Idempotent creation: when two creation requests with the same idempotency key have
  both been answered with a job, in any interleaving and in any replica, they were answered
  with the same job; that job is in the tables, is a later version of both answers, and the
  key is bound to it; and both requests had the same hash.
\<close>

theorem idempotent_creation:
  assumes "reachable dep s"
    and "sys_calls s t1 = Some (CallCreateJob in1)" "sys_threads s t1 = Some (Return (CreateDone (Inr (j1, c1))))"
    and "sys_calls s t2 = Some (CallCreateJob in2)" "sys_threads s t2 = Some (Return (CreateDone (Inr (j2, c2))))"
    and key: "cji_IdempotencyKey in1 \<noteq> ''''" "cji_IdempotencyKey in2 = cji_IdempotencyKey in1"
  shows "job_ID j1 = job_ID j2
    \<and> (\<exists>r. job_of (sys_db s) (job_ID j1) = Some r \<and> same_origin j1 r \<and> same_origin j2 r)
    \<and> (\<exists>k1 k2. DecodeUploadID (cji_UploadID in1) = Inr k1 \<and> DecodeUploadID (cji_UploadID in2) = Inr k2
         \<and> requestHash k1 (TrimSpace (cji_Pipeline in1)) (TrimSpace (cji_PipelineVersion in1))
           = requestHash k2 (TrimSpace (cji_Pipeline in2)) (TrimSpace (cji_PipelineVersion in2)))"
proof -
  have "created_as (dep_service dep) in1 j1 c1 (sys_db s)" "created_as (dep_service dep) in2 j2 c2 (sys_db s)"
    using creation.promise_holds [OF assms(1-3)] creation.promise_holds [OF assms(1,4,5)] by simp_all
  then show ?thesis
    using key by (auto simp: created_as_def bound_def known_def)
qed

definition keyed_input :: create_job_input where
  "keyed_input = demo_input\<lparr>cji_IdempotencyKey := ''key1''\<rparr>"

definition demo_hash :: string where
  "demo_hash = requestHash ''uploads/a.png'' ''portrait-enhance'' ''v1''"

text \<open>The same keyed request twice; the second time another identifier is drawn.\<close>

definition replayed_system :: system where
  "replayed_system = \<lparr>sys_world = \<lparr>w_db = empty_db\<lparr>jobs := [demo_job],
       idempotency_keys := [\<lparr>ik_Key = ''key1'', ik_JobID = 1, ik_RequestHash = demo_hash, ik_CreatedAt = 5\<rparr>]\<rparr>,
       published = [(''job1'', ''job1'')], stored = [], metrics = []\<rparr>,
     sys_calls = [0 \<mapsto> CallCreateJob keyed_input, 1 \<mapsto> CallCreateJob keyed_input],
     sys_threads = [0 \<mapsto> Return (CreateDone (Inr (demo_job, True))), 1 \<mapsto> Return (CreateDone (Inr (demo_job, False)))]\<rparr>"

lemma perform_replay:
  "perform_all demo_dep ([Start 0 (CallCreateJob keyed_input), Call 0 calm, Call 0 calm, Call 0 calm, Call 0 calm, Call 0 calm]
     @ [Start 1 (CallCreateJob keyed_input), Call 1 calm, Call 1 (calm\<lparr>o_uuid := 2\<rparr>), Call 1 calm, Call 1 calm, Call 1 calm])
     initial_system = Some replayed_system"
  by (simp add: keyed_input_def demo_input_def demo_states demo_programs demo_sql demo_token demo_trims
      replayed_system_def tx_insert_job_with_key_def resolveExisting_def demo_hash_def [symmetric])

theorem idempotent_creation_witness:
  "reachable demo_dep replayed_system
   \<and> sys_calls replayed_system 0 = Some (CallCreateJob keyed_input)
   \<and> sys_calls replayed_system 1 = Some (CallCreateJob keyed_input)
   \<and> (\<exists>r. job_of (sys_db replayed_system) (job_ID demo_job) = Some r \<and> same_origin demo_job r)"
proof -
  have reach: "reachable demo_dep replayed_system"
    by (rule perform_all_reachable [OF reachable_init perform_replay])
  have fin: "sys_calls replayed_system 0 = Some (CallCreateJob keyed_input)"
    "sys_threads replayed_system 0 = Some (Return (CreateDone (Inr (demo_job, True))))"
    "sys_calls replayed_system 1 = Some (CallCreateJob keyed_input)"
    "sys_threads replayed_system 1 = Some (Return (CreateDone (Inr (demo_job, False))))"
    by (simp_all add: replayed_system_def)
  show ?thesis
    using idempotent_creation [OF reach fin] reach fin by (simp add: keyed_input_def)
qed

end
