(* ===== verification/Execution.thy ===== *)
theory Execution
  imports Effects
begin

text \<open>
  Running a program alone, from its call to its result: \<open>exec F p w r w'\<close> says that \<open>p\<close>
  can return \<open>r\<close> and turn the world \<open>w\<close> into \<open>w'\<close> when every reply satisfies \<open>F\<close>. The rules
  for composition carry the functional properties of the operations. \<open>takes D n p\<close> bounds
  the number of calls a program makes, whatever is replied.
\<close>

section \<open>Complete runs\<close>

inductive exec :: "(outside \<Rightarrow> bool) \<Rightarrow> 'r prog \<Rightarrow> world \<Rightarrow> 'r \<Rightarrow> world \<Rightarrow> bool" for F where
  exec_Return: "exec F (Return r) w r w"
| exec_call: "\<not> is_done p \<Longrightarrow> F oc \<Longrightarrow>
    exec F (fst (step_prog oc p w)) (snd (step_prog oc p w)) r w' \<Longrightarrow> exec F p w r w'"

inductive_cases exec_ReturnE: "exec F (Return r) w r' w'"
inductive_cases exec_PanicE: "exec F Panic w r' w'"

lemma exec_Return_iff [simp]: "exec F (Return r) w r' w' \<longleftrightarrow> r' = r \<and> w' = w"
  by (auto intro: exec_Return elim: exec_ReturnE)

lemma exec_Panic_iff [simp]: "\<not> exec F Panic w r w'"
  by (auto elim: exec_PanicE)

lemma exec_step:
  "\<not> is_done p \<Longrightarrow> exec F p w r w' \<longleftrightarrow>
     (\<exists>oc. F oc \<and> exec F (fst (step_prog oc p w)) (snd (step_prog oc p w)) r w')"
  by (subst exec.simps) auto

lemma exec_iff_run:
  "exec F p w r w' \<longleftrightarrow> (\<exists>os. list_all F os \<and> run os p w = (Return r, w'))"
proof
  show "exec F p w r w' \<Longrightarrow> \<exists>os. list_all F os \<and> run os p w = (Return r, w')"
  proof (induction rule: exec.induct)
    case (exec_Return r w)
    then show ?case by (intro exI [of _ "[]"]) simp
  next
    case (exec_call p oc w r w')
    then obtain os where "list_all F os" "run os (fst (step_prog oc p w)) (snd (step_prog oc p w)) = (Return r, w')"
      by blast
    then show ?case using exec_call.hyps by (intro exI [of _ "oc # os"]) simp
  qed
next
  assume "\<exists>os. list_all F os \<and> run os p w = (Return r, w')"
  then obtain os where "list_all F os" "run os p w = (Return r, w')" by blast
  then show "exec F p w r w'"
  proof (induction os arbitrary: p w)
    case (Cons oc os)
    then show ?case
      by (cases "is_done p") (auto simp: is_done_cases intro: exec_Return exec_call split: if_splits)
  qed simp
qed

lemma exec_bindI:
  "exec F p w x w' \<Longrightarrow> exec F (f x) w' r w'' \<Longrightarrow> exec F (bind_prog p f) w r w''"
proof (induction rule: exec.induct)
  case (exec_call p oc w x w')
  then show ?case
    by (metis exec.exec_call fst_conv is_done_bind snd_conv step_prog_bind)
qed simp

lemma exec_bindD:
  "exec F q w r w'' \<Longrightarrow> q = bind_prog p f \<Longrightarrow> \<exists>x w'. exec F p w x w' \<and> exec F (f x) w' r w''"
proof (induction arbitrary: p rule: exec.induct)
  case (exec_Return r w)
  then obtain x where "p = Return x" "f x = Return r" by (cases p) auto
  then show ?case by (metis exec.exec_Return)
next
  case (exec_call q oc w r w'')
  show ?case
  proof (cases "is_done p")
    case True
    then obtain x where "p = Return x" "f x = q"
      using exec_call.hyps(1) exec_call.prems by (cases p) simp_all
    then show ?thesis
      using exec.exec_call [OF exec_call.hyps(1-3)] by (metis exec.exec_Return)
  next
    case False
    then have "fst (step_prog oc q w) = bind_prog (fst (step_prog oc p w)) f"
        "snd (step_prog oc q w) = snd (step_prog oc p w)"
      using exec_call.prems by (simp_all add: step_prog_bind)
    with exec_call.IH [of "fst (step_prog oc p w)"] obtain x w' where
        "exec F (fst (step_prog oc p w)) (snd (step_prog oc p w)) x w'" "exec F (f x) w' r w''"
      by auto
    then show ?thesis
      using exec.exec_call [of p F oc, OF False exec_call.hyps(2)] by blast
  qed
qed

lemma exec_bind:
  "exec F (bind_prog p f) w r w'' \<longleftrightarrow> (\<exists>x w'. exec F p w x w' \<and> exec F (f x) w' r w'')"
  by (rule iffI, erule exec_bindD [OF _ refl], elim exE conjE, erule exec_bindI)

lemma exec_mono: "exec F p w r w' \<Longrightarrow> (\<And>oc. F oc \<Longrightarrow> G oc) \<Longrightarrow> exec G p w r w'"
  by (induction rule: exec.induct) (auto intro: exec.intros)

lemma exec_callE:
  assumes "exec F p w r w'" and "\<not> is_done p"
  obtains oc where "F oc" "exec F (fst (step_prog oc p w)) (snd (step_prog oc p w)) r w'"
  using assms by (auto simp: exec_step)

lemma exec_case_sum:
  "exec F (case x of Inl a \<Rightarrow> f a | Inr b \<Rightarrow> g b) w r w' \<longleftrightarrow>
     (\<exists>a. x = Inl a \<and> exec F (f a) w r w') \<or> (\<exists>b. x = Inr b \<and> exec F (g b) w r w')"
  by (cases x) auto

lemma exec_case_option:
  "exec F (case x of None \<Rightarrow> p | Some b \<Rightarrow> g b) w r w' \<longleftrightarrow>
     (x = None \<and> exec F p w r w') \<or> (\<exists>b. x = Some b \<and> exec F (g b) w r w')"
  by (cases x) auto

section \<open>Replies without faults\<close>

definition faultless :: "outside \<Rightarrow> bool" where
  "faultless oc \<longleftrightarrow> o_fault oc = NoFault"

definition at_ease :: "outside \<Rightarrow> bool" where
  "at_ease oc \<longleftrightarrow> o_fault oc = NoFault \<and> o_ctx oc = CtxLive"

section \<open>The number of calls\<close>

text \<open>
  \<open>takes K D n p\<close>: \<open>p\<close> is done after at most \<open>n\<close> calls, each of which changes the world only
  as \<open>K\<close> allows, and then \<open>D\<close> holds of it.
\<close>

inductive takes :: "(world \<Rightarrow> world \<Rightarrow> bool) \<Rightarrow> ('r prog \<Rightarrow> bool) \<Rightarrow> nat \<Rightarrow> 'r prog \<Rightarrow> bool" for K D where
  takes_done: "is_done p \<Longrightarrow> D p \<Longrightarrow> takes K D n p"
| takes_call: "\<not> is_done p \<Longrightarrow>
    (\<And>oc w. K w (snd (step_prog oc p w)) \<and> takes K D n (fst (step_prog oc p w))) \<Longrightarrow> takes K D (Suc n) p"

definition returned :: "'r prog \<Rightarrow> bool" where
  "returned p \<longleftrightarrow> (\<exists>r. p = Return r)"

lemma takes_Return [simp, intro]: "D (Return r) \<Longrightarrow> takes K D n (Return r)"
  by (simp add: takes_done)

lemma returned_Return [simp]: "returned (Return r)"
  by (simp add: returned_def)

lemma takes_mono: "takes K D m p \<Longrightarrow> m \<le> n \<Longrightarrow> takes K D n p"
proof (induction arbitrary: n rule: takes.induct)
  case (takes_call p m)
  then obtain n' where "n = Suc n'" "m \<le> n'" by (metis Suc_le_D Suc_le_mono)
  then show ?case using takes_call by (auto intro: takes.takes_call)
qed (auto intro: takes_done)

lemma takes_bind:
  assumes "takes K C m p" and "\<And>r. C (Return r) \<Longrightarrow> takes K D n (f r)" and "C Panic \<Longrightarrow> D Panic"
  shows "takes K D (m + n) (bind_prog p f)"
  using assms(1)
proof (induction rule: takes.induct)
  case (takes_done p m)
  then show ?case
    using assms(2,3) by (auto simp: is_done_cases intro: takes.takes_done takes_mono [OF _ le_add2])
next
  case (takes_call p m)
  then show ?case
    by (simp add: takes.takes_call is_done_bind step_prog_bind)
qed

lemma takes_weaken:
  "takes K C n p \<Longrightarrow> (\<And>p. is_done p \<Longrightarrow> C p \<Longrightarrow> D p) \<Longrightarrow> takes K D n p"
  by (induction rule: takes.induct) (auto intro: takes.intros)

lemma returned_Panic [simp]: "\<not> returned Panic"
  by (simp add: returned_def)

lemma takes_recover: "takes K is_done n p \<Longrightarrow> takes K returned n (recover_prog p d)"
proof (induction rule: takes.induct)
  case (takes_done p n)
  then show ?case by (auto simp: is_done_cases)
next
  case (takes_call p n)
  then show ?case
    by (simp add: takes.takes_call step_recover)
qed

lemma takes_is_done: "takes K D n p \<Longrightarrow> takes K is_done n p"
  by (induction rule: takes.induct) (auto intro: takes.intros)

lemma takes_run:
  assumes "takes K D n p" and "n \<le> length os" and "reflp K" and "transp K"
  shows "is_done (fst (run os p w)) \<and> D (fst (run os p w)) \<and> K w (snd (run os p w))"
  using assms(1,2)
proof (induction arbitrary: os w rule: takes.induct)
  case (takes_done p n)
  then show ?case using reflpD [OF assms(3)] by simp
next
  case (takes_call p n)
  then obtain oc os' where os: "os = oc # os'" "n \<le> length os'"
    by (cases os) auto
  let ?p = "fst (step_prog oc p w)" and ?w = "snd (step_prog oc p w)"
  have "K w ?w" and rest: "is_done (fst (run os' ?p ?w)) \<and> D (fst (run os' ?p ?w)) \<and> K ?w (snd (run os' ?p ?w))"
    using takes_call.IH os(2) by blast+
  then have "K w (snd (run os' ?p ?w))" using transpD [OF assms(4)] by blast
  then show ?case using rest os(1) takes_call.hyps by simp
qed

lemma takes_any: "takes K D n p \<Longrightarrow> takes (\<lambda>_ _. True) D n p"
  by (induction rule: takes.induct) (auto intro: takes.intros)

lemma takes_exec:
  assumes "exec F p w r w'" and "takes K D n p" and "reflp K" and "transp K"
  shows "D (Return r) \<and> K w w'"
  using assms(1,2)
proof (induction arbitrary: n rule: exec.induct)
  case (exec_Return r w)
  then show ?case using reflpD [OF assms(3)] by (auto elim: takes.cases)
next
  case (exec_call p oc w r w')
  from exec_call.prems exec_call.hyps(1) obtain n' where
      "K w (snd (step_prog oc p w))" "takes K D n' (fst (step_prog oc p w))"
    by (cases rule: takes.cases) auto
  with exec_call.IH show ?case using transpD [OF assms(4)] by blast
qed

lemma run_exec: "fst (run os p w) = Return r \<Longrightarrow> exec (\<lambda>_. True) p w r (snd (run os p w))"
  unfolding exec_iff_run by (intro exI [of _ os]) (simp add: list_all_iff prod_eq_iff)

lemma takes_ex_exec:
  assumes "takes K returned n p" and "F oc"
  shows "\<exists>r w'. exec F p w r w'"
proof -
  have "takes (\<lambda>_ _. True) returned n p" by (rule takes_any [OF assms(1)])
  from takes_run [OF this, of "replicate n oc" w] obtain r where
      "fst (run (replicate n oc) p w) = Return r"
    by (auto simp: returned_def reflp_def transp_def)
  moreover have "list_all F (replicate n oc)" using assms(2) by (simp add: list_all_iff)
  ultimately have "exec F p w r (snd (run (replicate n oc) p w))"
    unfolding exec_iff_run by (metis prod.collapse)
  then show ?thesis by blast
qed

end
