(* ===== verification/Metrics.thy ===== *)
theory Metrics
  imports Complex_Main Effects
begin

text \<open>
  \<open>internal/observability/metrics.go\<close>: the collectors, and which calls of the Prometheus
  client each recording method makes. The client library itself is outside the model; a
  method is the list of library calls it performs, in order.
\<close>

section \<open>Collectors\<close>

record collector =
  col_Name :: string
  col_Help :: string
  col_Labels :: "string list"
  col_Buckets :: "rat list"

text \<open>What is registered: the runtime's two collectors and the program's own.\<close>

datatype registered = GoCollector | ProcessCollector | Own collector

record metrics_state =
  m_reg :: "registered list"
  m_httpRequests :: collector
  m_httpDuration :: collector
  m_jobsCreated :: collector
  m_jobsCompleted :: collector
  m_jobsFailed :: collector
  m_jobsRetried :: collector
  m_queueLatency :: collector
  m_processingDuration :: collector
  m_activeWorkers :: collector
  m_processorErrors :: collector
  m_storageErrors :: collector

definition plain_collector :: "string \<Rightarrow> string \<Rightarrow> collector" where
  "plain_collector name help = \<lparr>col_Name = name, col_Help = help, col_Labels = [], col_Buckets = []\<rparr>"

text \<open>\<open>prometheus.DefBuckets\<close> is the library's.\<close>

definition NewMetrics :: "rat list \<Rightarrow> metrics_state" where
  "NewMetrics DefBuckets =
     (let requests = \<lparr>col_Name = ''portrait_http_requests_total'',
            col_Help = ''Total HTTP requests by method, route, and status.'',
            col_Labels = [''method'', ''route'', ''status''], col_Buckets = []\<rparr>;
          latency = \<lparr>col_Name = ''portrait_http_request_duration_seconds'',
            col_Help = ''HTTP request latency by method and route.'',
            col_Labels = [''method'', ''route''], col_Buckets = DefBuckets\<rparr>;
          created = plain_collector ''portrait_jobs_created_total'' ''Jobs created.'';
          completed = plain_collector ''portrait_jobs_completed_total'' ''Jobs completed successfully.'';
          failed = plain_collector ''portrait_jobs_failed_total'' ''Jobs that reached a terminal FAILED state.'';
          retried = plain_collector ''portrait_jobs_retried_total''
            ''Job processing attempts that were scheduled for retry.'';
          queue = \<lparr>col_Name = ''portrait_queue_latency_seconds'',
            col_Help = ''Time from job creation to the start of processing.'', col_Labels = [],
            col_Buckets = [1 / 10, 1 / 2, 1, 2, 5, 10, 30, 60, 120]\<rparr>;
          processing = \<lparr>col_Name = ''portrait_processing_duration_seconds'',
            col_Help = ''Pipeline processing duration per attempt.'', col_Labels = [],
            col_Buckets = [1 / 20, 1 / 10, 1 / 4, 1 / 2, 1, 2, 5, 10, 30]\<rparr>;
          active = plain_collector ''portrait_active_workers'' ''Workers currently processing a job.'';
          perrors = \<lparr>col_Name = ''portrait_processor_errors_total'',
            col_Help = ''Processing errors by classification.'', col_Labels = [''kind''], col_Buckets = []\<rparr>;
          serrors = plain_collector ''portrait_storage_errors_total'' ''Object storage operation errors.''
      in \<lparr>m_reg = [GoCollector, ProcessCollector] @ map Own [requests, latency, created, completed,
              failed, retried, queue, processing, active, perrors, serrors],
          m_httpRequests = requests, m_httpDuration = latency, m_jobsCreated = created,
          m_jobsCompleted = completed, m_jobsFailed = failed, m_jobsRetried = retried,
          m_queueLatency = queue, m_processingDuration = processing, m_activeWorkers = active,
          m_processorErrors = perrors, m_storageErrors = serrors\<rparr>)"

section \<open>Recording\<close>

datatype prom_call = Inc collector "string list" | Dec collector "string list" | Observe collector "string list" rat

text \<open>\<open>d.Seconds()\<close>; finite floating-point numbers are rationals.\<close>

definition Seconds :: "duration \<Rightarrow> rat" where
  "Seconds d = of_int d / of_int Second"

text \<open>One equation per method; a nil receiver records nothing.\<close>

fun metric_calls :: "metrics_state option \<Rightarrow> metric \<Rightarrow> prom_call list" where
  "metric_calls None _ = []"
| "metric_calls (Some m) (ObserveHTTP mth route status d) =
     [Inc (m_httpRequests m) [mth, route, status], Observe (m_httpDuration m) [mth, route] (Seconds d)]"
| "metric_calls (Some m) IncJobsCreated = [Inc (m_jobsCreated m) []]"
| "metric_calls (Some m) IncJobsCompleted = [Inc (m_jobsCompleted m) []]"
| "metric_calls (Some m) IncJobsFailed = [Inc (m_jobsFailed m) []]"
| "metric_calls (Some m) IncJobsRetried = [Inc (m_jobsRetried m) []]"
| "metric_calls (Some m) (ObserveQueueLatency d) = [Observe (m_queueLatency m) [] (Seconds d)]"
| "metric_calls (Some m) (ObserveProcessing d) = [Observe (m_processingDuration m) [] (Seconds d)]"
| "metric_calls (Some m) WorkerStarted = [Inc (m_activeWorkers m) []]"
| "metric_calls (Some m) WorkerFinished = [Dec (m_activeWorkers m) []]"
| "metric_calls (Some m) (IncProcessorError kind) = [Inc (m_processorErrors m) [kind]]"
| "metric_calls (Some m) IncStorageError = [Inc (m_storageErrors m) []]"

text \<open>
  The client panics on a call whose number of label values differs from the collector's
  labels, and refuses a second collector of the same name.
\<close>

fun well_labelled :: "metrics_state \<Rightarrow> prom_call \<Rightarrow> bool" where
  "well_labelled m (Inc c vs) \<longleftrightarrow> Own c \<in> set (m_reg m) \<and> length vs = length (col_Labels c)"
| "well_labelled m (Dec c vs) \<longleftrightarrow> Own c \<in> set (m_reg m) \<and> length vs = length (col_Labels c)"
| "well_labelled m (Observe c vs x) \<longleftrightarrow> Own c \<in> set (m_reg m) \<and> length vs = length (col_Labels c)"

fun own_names :: "registered list \<Rightarrow> string list" where
  "own_names [] = []"
| "own_names (Own c # rs) = col_Name c # own_names rs"
| "own_names (_ # rs) = own_names rs"

text \<open>
  C39. Recording a metric never makes the client library panic: every method passes one
  label value per declared label and only to collectors that are registered, the names
  registered are distinct, the histogram buckets the program chooses are increasing, and a
  nil receiver makes no call.
\<close>

theorem metrics_well_labelled:
  "list_all (well_labelled (NewMetrics DefBuckets)) (metric_calls (Some (NewMetrics DefBuckets)) m)
   \<and> metric_calls None m = []
   \<and> distinct (own_names (m_reg (NewMetrics DefBuckets)))
   \<and> sorted (col_Buckets (m_queueLatency (NewMetrics DefBuckets)))
   \<and> sorted (col_Buckets (m_processingDuration (NewMetrics DefBuckets)))"
proof -
  have "list_all (well_labelled (NewMetrics DefBuckets)) (metric_calls (Some (NewMetrics DefBuckets)) m)"
    by (cases m) (simp_all add: NewMetrics_def Let_def plain_collector_def)
  moreover have "distinct (own_names (m_reg (NewMetrics DefBuckets)))"
    by (simp add: NewMetrics_def Let_def plain_collector_def)
  moreover have "sorted (col_Buckets (m_queueLatency (NewMetrics DefBuckets)))"
      "sorted (col_Buckets (m_processingDuration (NewMetrics DefBuckets)))"
    by (simp_all add: NewMetrics_def Let_def)
  ultimately show ?thesis by simp
qed

section \<open>The gauge of active workers\<close>

text \<open>What the recorded calls add up to for \<open>portrait_active_workers\<close>.\<close>

fun gauge_change :: "metric \<Rightarrow> int" where
  "gauge_change WorkerStarted = 1"
| "gauge_change WorkerFinished = - 1"
| "gauge_change _ = 0"

definition active_workers :: "world \<Rightarrow> int" where
  "active_workers w = sum_list (map gauge_change (metrics w))"

definition gauge_kept :: "world \<Rightarrow> world \<Rightarrow> bool" where
  "gauge_kept w w' \<longleftrightarrow> active_workers w' = active_workers w"

lemma gauge_kept_refl: "reflp gauge_kept"
  by (simp add: reflp_def gauge_kept_def)

lemma gauge_kept_trans: "transp gauge_kept"
  by (simp add: transp_def gauge_kept_def)

end
