(* ===== verification/Calls.thy ===== *)
theory Calls
  imports Execution Metrics Service Handler Requeue
begin

text \<open>
  How many calls the operations make before they are done, whatever is replied to them, and
  that they leave the gauge of active workers alone. From the bounds follows that every
  delivery is settled: the worker's processing of a message always returns, panics and
  failures of every call included.
\<close>

section \<open>One call\<close>

text \<open>What a call other than a metric leaves unchanged.\<close>

lemma gauge_kept_same: "metrics w' = metrics w \<Longrightarrow> gauge_kept w w'"
  by (simp add: gauge_kept_def active_workers_def)

lemma metrics_on_db [simp]: "metrics (snd (on_db w rd k)) = metrics w"
  by (simp add: on_db_def)

lemma fst_on_db [simp]: "fst (on_db w rd k) = k (fst rd)"
  by (simp add: on_db_def)

lemma gauge_kept_metric: "gauge_change m = 0 \<Longrightarrow> gauge_kept w (w\<lparr>metrics := metrics w @ [m]\<rparr>)"
  by (simp add: gauge_kept_def active_workers_def)

abbreviation finishes :: "('r prog \<Rightarrow> bool) \<Rightarrow> nat \<Rightarrow> 'r prog \<Rightarrow> bool" where
  "finishes \<equiv> takes gauge_kept"

named_theorems finishes_calls \<open>one call and its continuation\<close>

lemma finishes_call [finishes_calls]:
  "(\<And>x. finishes D n (fu x)) \<Longrightarrow> finishes D (Suc n) (NewUUID fu)"
  "(\<And>x. finishes D n (ft x)) \<Longrightarrow> finishes D (Suc n) (TimeNow ft)"
  "(\<And>x y. finishes D n (fy (x, y))) \<Longrightarrow> finishes D (Suc n) (YearMonth fy)"
  "(\<And>x. finishes D n (fc x)) \<Longrightarrow> finishes D (Suc n) (CtxErr fc)"
  "(\<And>x. finishes D n (fi x)) \<Longrightarrow> finishes D (Suc n) (Int64N m fi)"
  "gauge_change me = 0 \<Longrightarrow> finishes D n fm \<Longrightarrow> finishes D (Suc n) (Metric me fm)"
  by (rule takes_call; simp add: gauge_kept_same gauge_kept_metric)+

lemma finishes_sql [finishes_calls]:
  "(\<And>x. finishes D n (f1 x)) \<Longrightarrow> finishes D (Suc n) (InsertJob p f1)"
  "(\<And>x. finishes D n (f2 x)) \<Longrightarrow> finishes D (Suc n) (InsertJobWithKey p k h f2)"
  "(\<And>x. finishes D n (f3 x)) \<Longrightarrow> finishes D (Suc n) (SelectKey k f3)"
  "(\<And>x. finishes D n (f4 x)) \<Longrightarrow> finishes D (Suc n) (SelectJob i f4)"
  "(\<And>x. finishes D n (f5 x)) \<Longrightarrow> finishes D (Suc n) (UpdateJob i s u f5)"
  "(\<And>x. finishes D n (f6 x)) \<Longrightarrow> finishes D (Suc n) (ExistsJob i f6)"
  "(\<And>x. finishes D n (f7 x)) \<Longrightarrow> finishes D (Suc n) (ClaimJob i a f7)"
  "(\<And>x. finishes D n (f8 x)) \<Longrightarrow> finishes D (Suc n) (UpdateAttempt i st msg f8)"
  "(\<And>x. finishes D n (f9 x)) \<Longrightarrow> finishes D (Suc n) (InsertStep sr f9)"
  "(\<And>x. finishes D n (f10 x)) \<Longrightarrow> finishes D (Suc n) (UpsertArtifact ar f10)"
  "(\<And>x. finishes D n (f11 x)) \<Longrightarrow> finishes D (Suc n) (SelectArtifacts i f11)"
  "(\<And>x. finishes D n (f12 x)) \<Longrightarrow> finishes D (Suc n) (SelectRequeueable c l f12)"
  by (rule takes_call; simp add: gauge_kept_same)+

lemma finishes_service [finishes_calls]:
  "(\<And>x. finishes D n (f1 x)) \<Longrightarrow> finishes D (Suc n) (MinioStat key f1)"
  "(\<And>x. finishes D n (f2 x)) \<Longrightarrow> finishes D (Suc n) (MinioGet key f2)"
  "(\<And>x. finishes D n (f3 x)) \<Longrightarrow> finishes D (Suc n) (ReadBody m f3)"
  "(\<And>x. finishes D n (f4 x)) \<Longrightarrow> finishes D (Suc n) (MinioPut key bytes sz ct f4)"
  "(\<And>x. finishes D n (f5 x)) \<Longrightarrow> finishes D (Suc n) (MinioRemove key f5)"
  "(\<And>x. finishes D n (f6 x)) \<Longrightarrow> finishes D (Suc n) (MinioPresign g key e f6)"
  "(\<And>x. finishes D n (f7 x)) \<Longrightarrow> finishes D (Suc n) (PublishMsg key bytes f7)"
  by (rule takes_call; simp add: gauge_kept_same Let_def split: prod.splits)+

lemma finishes_Return [finishes_calls]: "finishes returned n (Return r)"
  by simp

lemma finishes_bind:
  assumes "finishes returned m p" and "\<And>r. finishes D n (f r)"
  shows "finishes D (m + n) (bind_prog p f)"
  by (rule takes_bind [OF assms(1)]) (simp_all add: assms(2))

section \<open>The repository, the object store and the queue\<close>

lemma finishes_repository:
  "finishes returned 1 (GetJob i)"
  "finishes returned 1 (insertJob p)"
  "finishes returned 1 (classifyMissingUpdate i)"
  "finishes returned 1 (FinishAttempt aid st msg)"
  "finishes returned 2 (AddProcessingStep s)"
  "finishes returned 2 (AddArtifact a)"
  "finishes returned 1 (repo_ListArtifacts i)"
  "finishes returned 1 (ListRequeueable cutoff limit)"
  by (auto simp: GetJob_def insertJob_def classifyMissingUpdate_def FinishAttempt_def AddProcessingStep_def
      AddArtifact_def repo_ListArtifacts_def ListRequeueable_def Let_def numeral_2_eq_2 intro!: finishes_calls)

lemma finishes_store:
  "finishes returned 1 (store_Stat key)"
  "finishes returned 1 (store_Put key bytes n ct)"
  "finishes returned 1 (PresignUpload key expiry)"
  "finishes returned 1 (Publish lib m)"
  by (auto simp: store_Stat_def store_Put_def PresignUpload_def Publish_def
      intro!: finishes_calls split: sum.splits)

text \<open>Composition with the bounds above, one numeral for the sum.\<close>

lemma finishes_bind_le:
  "finishes returned m p \<Longrightarrow> (\<And>r. finishes D n (f r)) \<Longrightarrow> m + n \<le> k \<Longrightarrow> finishes D k (bind_prog p f)"
  by (rule takes_mono [OF finishes_bind])

lemma finishes_TimeNow: "(\<And>x. finishes D n (f x)) \<Longrightarrow> n + 1 \<le> k \<Longrightarrow> finishes D k (TimeNow f)"
  by (rule takes_mono [OF finishes_call(2)]) auto

lemma finishes_resolveExisting: "finishes returned 2 (resolveExisting key h)"
  unfolding resolveExisting_def numeral_2_eq_2
  by (intro finishes_calls)
    (auto intro!: finishes_bind_le [OF finishes_repository(1)] split: sum.splits option.splits)

lemma finishes_repo_CreateJob: "finishes returned 3 (repo_CreateJob p key h)"
proof (cases "key = ''''")
  case True
  then show ?thesis
    by (auto simp: repo_CreateJob_def intro!: finishes_bind_le [OF finishes_repository(2), where n = 0])
next
  case False
  have "finishes returned (Suc 2) (repo_CreateJob p key h)"
    using False unfolding repo_CreateJob_def
    by (simp del: One_nat_def Suc_numeral)
      (rule finishes_sql, auto intro: finishes_resolveExisting split: sum.splits option.splits tx_stage.splits)
  then show ?thesis by (simp add: numeral_3_eq_3)
qed

lemma finishes_UpdateJobStatus: "finishes returned 2 (UpdateJobStatus i st u)"
  unfolding UpdateJobStatus_def numeral_2_eq_2
  by (auto intro!: finishes_sql finishes_bind_le [OF finishes_repository(3)] split: option.splits sum.splits)

lemma finishes_BeginAttempt: "finishes returned 3 (BeginAttempt i)"
  unfolding BeginAttempt_def numeral_3_eq_3
  by (auto intro!: finishes_calls finishes_bind_le [OF finishes_repository(3)] split: option.splits sum.splits tx_stage.splits)

lemma finishes_store_Get: "finishes returned 2 (store_Get key)"
  unfolding store_Get_def
  by (auto intro!: finishes_bind_le [OF finishes_store(1), where n = 1] takes_mono [OF finishes_service(2), where n = "Suc 0"] split: sum.splits)

section \<open>The job service\<close>

lemma finishes_CreateUpload: "finishes returned 3 (CreateUpload s inp)"
  unfolding CreateUpload_def numeral_3_eq_3
  by (auto simp: Let_def intro!: finishes_calls finishes_bind_le [OF finishes_store(3)] split: option.splits sum.splits)

lemma finishes_enqueue: "finishes returned 3 (enqueue s job)"
  unfolding enqueue_def
  by (auto intro!: finishes_bind_le [OF finishes_UpdateJobStatus, where n = 1]
      finishes_bind_le [OF finishes_store(4), where n = 0] split: sum.splits)

lemma finishes_finish_create: "finishes returned 4 (finish_create s job created)"
  unfolding finish_create_def
  by (auto intro!: finishes_bind_le [OF finishes_enqueue, where n = 1]
      finishes_bind_le [OF finishes_repository(1), where n = 0] split: sum.splits option.splits)

lemma finishes_CreateJob: "finishes returned 9 (CreateJob s inp)"
proof -
  have created: "finishes returned 8 (NewUUID (\<lambda>i. bind_prog (repo_CreateJob (ps i) key h) (\<lambda>r.
      case r of Inl e \<Rightarrow> Return (Inl e) | Inr (job, created) \<Rightarrow> finish_create s job created)))" for ps key h
    by (rule takes_mono [where m = "Suc 7"], rule finishes_call,
        rule finishes_bind_le [OF finishes_repo_CreateJob, where n = 4])
      (auto intro: finishes_finish_create split: sum.splits)
  show ?thesis
    unfolding CreateJob_def Let_def
    by (auto intro!: finishes_bind_le [OF finishes_store(1), where n = 8] created split: sum.splits option.splits)
qed

lemma finishes_cancel_loop: "finishes returned (3 * n) (cancel_loop n i job)"
proof (induction n arbitrary: job)
  case (Suc n)
  then show ?case
    by (auto intro!: finishes_bind_le [OF finishes_UpdateJobStatus, where n = "3 * n + 1"]
        finishes_bind_le [OF finishes_repository(1), where n = "3 * n"] split: sum.splits)
qed simp

lemma finishes_CancelJob: "finishes returned 7 (CancelJob i)"
  unfolding CancelJob_def
  by (auto intro!: finishes_bind_le [OF finishes_repository(1), where n = 6]
      takes_mono [OF finishes_cancel_loop] simp: maxTries_def split: sum.splits)

section \<open>The worker\<close>

lemma finishes_Decode: "finishes returned 1 (Decode lib)"
  unfolding Decode_def by (auto intro!: finishes_calls)

text \<open>
  A pipeline whose stages make at most \<open>m\<close> calls each. The steps it reports are at most as
  many as its processors.
\<close>

definition stages_take :: "nat \<Rightarrow> 'img processor list \<Rightarrow> bool" where
  "stages_take m ps \<longleftrightarrow> (\<forall>p \<in> set ps. \<forall>d. finishes is_done m (proc_Process p d))"

fun steps_at_most :: "nat \<Rightarrow> (step_result list \<times> 'x) prog \<Rightarrow> bool" where
  "steps_at_most n (Return (steps, x)) \<longleftrightarrow> length steps \<le> n"
| "steps_at_most n _ \<longleftrightarrow> True"

lemma finishes_run_stages:
  "stages_take m ps \<Longrightarrow> finishes (steps_at_most (length steps + length ps)) ((3 + m) * length ps) (run_stages ps cur steps)"
proof (induction ps arbitrary: cur steps)
  case (Cons p ps)
  have stage: "finishes is_done m (proc_Process p cur)"
    using Cons.prems by (simp add: stages_take_def)
  have rest: "finishes (steps_at_most (length steps + length (p # ps))) ((3 + m) * length ps) (run_stages ps out (steps @ [sr]))" for out sr
    using Cons.IH [of "steps @ [sr]" out] Cons.prems by (simp add: stages_take_def)
  have stage_rest: "finishes (steps_at_most (length steps + length (p # ps))) (Suc (m + Suc ((3 + m) * length ps)))
      (TimeNow (\<lambda>start. bind_prog (proc_Process p cur) (\<lambda>r. TimeNow (\<lambda>stop. case r of
         Inl e \<Rightarrow> Return (steps @ [f start stop e], cur, Some (processor_error (proc_Name p) e))
       | Inr out \<Rightarrow> run_stages ps out (steps @ [g start stop])))))" for f g
    by (rule finishes_call(2), rule takes_bind [OF stage], rule finishes_call(2))
      (auto intro: rest [simplified] split: sum.splits)
  have "finishes (steps_at_most (length steps + length (p # ps))) (Suc (Suc (m + Suc ((3 + m) * length ps)))) (run_stages (p # ps) cur steps)"
    unfolding run_stages.simps
    by (rule finishes_call(4), rename_tac c, case_tac c) (simp_all only: option.case stage_rest, simp)
  then show ?case by (simp add: algebra_simps numeral_3_eq_3)
qed simp

lemma finishes_store_output:
  "finishes (steps_at_most (length steps)) 3 (store_output h job steps img)"
proof -
  have "finishes (steps_at_most (length steps)) 2 (Metric IncStorageError (Return (steps, Transient op e)))" for op e
    by (rule takes_mono [OF finishes_call(6), where n1 = 0]) auto
  then show ?thesis
    unfolding store_output_def Let_def
    by (auto intro!: finishes_bind_le [OF finishes_store(2), where n = 2]
        finishes_bind_le [OF finishes_repository(6), where n = 0] split: sum.splits option.splits)
qed

text \<open>What a registry answers: pipelines of at most \<open>n\<close> stages of at most \<open>m\<close> calls.\<close>

definition registry_takes :: "nat \<Rightarrow> nat \<Rightarrow> 'img handler_env \<Rightarrow> bool" where
  "registry_takes n m h \<longleftrightarrow> (\<forall>name version pipe. he_registry h name version = Inr pipe \<longrightarrow>
     length (pipe_processors pipe) \<le> n \<and> stages_take m (pipe_processors pipe))"

lemma finishes_Run:
  assumes "length (pipe_processors pipe) \<le> n" and "stages_take m (pipe_processors pipe)"
  shows "finishes (steps_at_most n) ((3 + m) * n) (Run pipe inp)"
proof -
  have "finishes (steps_at_most n) ((3 + m) * length (pipe_processors pipe)) (Run pipe inp)"
    unfolding Run_def using assms(1)
    by (intro takes_weaken [OF finishes_run_stages [OF assms(2), of "[]"]]) (auto simp: is_done_cases)
  then show ?thesis by (rule takes_mono) (use assms(1) in simp)
qed

lemma finishes_pipeline_error:
  "finishes (steps_at_most n) 1 (Metric IncStorageError (Return ([], e)))"
  by (simp add: finishes_call)

lemma finishes_runPipeline:
  assumes "registry_takes n m h"
  shows "finishes (steps_at_most n) ((3 + m) * n + 6) (runPipeline h job)"
proof (cases "he_registry h (job_Pipeline job) (job_PipelineVersion job)")
  case (Inr pipe)
  then have pipe: "finishes (steps_at_most n) ((3 + m) * n) (Run pipe inp)" for inp
    using assms finishes_Run unfolding registry_takes_def by blast
  have stored: "finishes (steps_at_most n) 3 (store_output h job steps img)" if "length steps \<le> n" for steps img
    using that by (intro takes_weaken [OF finishes_store_output]) (auto simp: is_done_cases)
  have ran: "finishes (steps_at_most n) ((3 + m) * n + 3) (bind_prog (Run pipe inp) (\<lambda>(steps, out, e). case e of
      Some e \<Rightarrow> if IsCancellation (Some e) then Return (steps, Some e) else Return (steps, Transient ''pipeline'' (Some e))
    | None \<Rightarrow> store_output h job steps (pd_Image out)))" for inp
    by (rule takes_bind [OF pipe]) (auto intro: stored split: option.splits)
  have decoded: "finishes (steps_at_most n) ((3 + m) * n + 4) (bind_prog (Decode (he_imaging h)) (\<lambda>d. case d of
      Inl e \<Rightarrow> Return ([], Permanent ''decode'' (Some e))
    | Inr srcImg \<Rightarrow> bind_prog (Run pipe \<lparr>pd_Image = srcImg, pd_Faces = []\<rparr>) (\<lambda>(steps, out, e). case e of
        Some e \<Rightarrow> if IsCancellation (Some e) then Return (steps, Some e) else Return (steps, Transient ''pipeline'' (Some e))
      | None \<Rightarrow> store_output h job steps (pd_Image out))))"
    by (rule finishes_bind_le [OF finishes_Decode, where n = "(3 + m) * n + 3"]) (auto intro: ran split: sum.splits)
  show ?thesis
    unfolding runPipeline_def Inr sum.case
    by (rule finishes_bind_le [OF finishes_store_Get, where n = "(3 + m) * n + 4"])
      (auto intro: decoded takes_mono [OF finishes_pipeline_error] split: option.splits)
qed (simp add: runPipeline_def)

lemma finishes_persistSteps: "finishes returned (3 * length ss) (persistSteps attempt ss)"
proof (induction ss)
  case (Cons s ss)
  have "finishes returned (Suc (2 + 3 * length ss)) (persistSteps attempt (s # ss))"
    unfolding persistSteps.simps
    by (rule finishes_call(2), rule finishes_bind [OF finishes_repository(5)]) (rule Cons.IH)
  then show ?case by (rule takes_mono) simp
qed simp

lemma finishes_finalizeSuccess: "finishes returned 4 (finalizeSuccess job attempt)"
  unfolding finalizeSuccess_def
  by (auto intro!: finishes_bind_le [OF finishes_repository(4), where n = 3] split: option.splits)
    (auto intro!: finishes_bind_le [OF finishes_UpdateJobStatus, where n = "Suc 0"] finishes_call(6) split: sum.splits)

lemma finishes_markFailed: "finishes returned 2 (markFailed i cause)"
  unfolding markFailed_def by (rule finishes_bind_le [OF finishes_UpdateJobStatus, where n = 0]) simp_all

lemma finishes_scheduleRetry: "finishes returned 7 (scheduleRetry i cause delay)"
proof -
  have requeue: "finishes returned 2 (bind_prog (UpdateJobStatus i StatusRetrying requeued_update) (\<lambda>r. Return
      (case r of Inl e \<Rightarrow> Some e | Inr _ \<Rightarrow> None)))"
    by (rule finishes_bind_le [OF finishes_UpdateJobStatus, where n = 0]) simp_all
  have retry: "finishes returned 4 (bind_prog (UpdateJobStatus i StatusFailed u) (\<lambda>r. case r of
      Inl e \<Rightarrow> Return (Some e)
    | Inr _ \<Rightarrow> bind_prog (UpdateJobStatus i StatusRetrying requeued_update) (\<lambda>r. Return
        (case r of Inl e \<Rightarrow> Some e | Inr _ \<Rightarrow> None))))" for u
    by (rule finishes_bind_le [OF finishes_UpdateJobStatus, where n = 2]) (auto intro: requeue split: sum.splits)
  show ?thesis
    unfolding scheduleRetry_def
    by (rule finishes_bind_le [OF finishes_UpdateJobStatus, where n = 5])
      (auto intro: finishes_TimeNow [where n = 4] retry split: sum.splits)
qed

lemma finishes_backoff: "finishes returned 1 (backoff n)"
  unfolding backoff_def Let_def by (auto intro: finishes_calls)

lemma finishes_retry_or_fail: "finishes returned 9 (retry_or_fail job e)"
proof -
  have failed: "finishes returned 3 (bind_prog (markFailed i e) (\<lambda>_. Metric IncJobsFailed (Return r)))" for i r
    by (rule finishes_bind_le [OF finishes_markFailed, where n = "Suc 0"]) (auto intro: finishes_call(6))
  have retried: "finishes returned 8 (bind_prog (scheduleRetry i e d) (\<lambda>x. let result = f d in case x of
      Some _ \<Rightarrow> Return result | None \<Rightarrow> Metric IncJobsRetried (Return result)))" for i d f
    by (rule finishes_bind_le [OF finishes_scheduleRetry, where n = "Suc 0"])
      (auto simp: Let_def intro: finishes_call(6) split: option.splits)
  have "finishes returned 9 (bind_prog (backoff k) (\<lambda>d. bind_prog (scheduleRetry i e d) (\<lambda>x.
      let result = f d in case x of Some _ \<Rightarrow> Return result | None \<Rightarrow> Metric IncJobsRetried (Return result))))" for i k f
    by (rule finishes_bind_le [OF finishes_backoff, where n = 8]) (rule retried, simp)
  then show ?thesis
    unfolding retry_or_fail_def by (auto intro: takes_mono [OF failed])
qed

lemma finishes_finalizeFailure: "finishes returned 12 (finalizeFailure job attempt e)"
proof -
  have "finishes returned 10 (bind_prog (GetJob i) (\<lambda>g. case g of
      Inr cur \<Rightarrow> if job_Status cur = StatusCancelled then Return r else retry_or_fail job e
    | Inl _ \<Rightarrow> retry_or_fail job e))" for i r
    by (rule finishes_bind_le [OF finishes_repository(1), where n = 9])
      (auto intro: finishes_retry_or_fail split: sum.splits)
  then have "finishes returned 11 (bind_prog (FinishAttempt i st msg) (\<lambda>_. bind_prog (GetJob i') (\<lambda>g. case g of
      Inr cur \<Rightarrow> if job_Status cur = StatusCancelled then Return r else retry_or_fail job e
    | Inl _ \<Rightarrow> retry_or_fail job e)))" for i st msg i' r
    by (intro finishes_bind_le [OF finishes_repository(4), where n = 10]) auto
  from finishes_call(6) [OF _ this] show ?thesis
    unfolding finalizeFailure_def by simp
qed

lemma finishes_process_claimed:
  assumes "registry_takes n m h"
  shows "finishes is_done ((6 + m) * n + 23) (process_claimed h job attempt)"
proof -
  have final: "finishes is_done 12 (case procErr of None \<Rightarrow> finalizeSuccess job attempt
      | Some e \<Rightarrow> finalizeFailure job attempt e)" for procErr
    by (cases procErr) (simp_all add: takes_is_done [OF finishes_finalizeFailure]
        takes_is_done [OF takes_mono [OF finishes_finalizeSuccess]])
  have recorded: "finishes is_done (14 + 3 * n) (TimeNow (\<lambda>t. Metric (ObserveProcessing (f t))
      (bind_prog (persistSteps attempt steps) (\<lambda>_. case procErr of None \<Rightarrow> finalizeSuccess job attempt
        | Some e \<Rightarrow> finalizeFailure job attempt e))))" if "length steps \<le> n" for f steps procErr
    using that
    by (intro finishes_TimeNow [where n = "Suc (3 * n + 12)"] finishes_call(6)
        finishes_bind_le [OF finishes_persistSteps, where n = 12] final) simp_all
  have "finishes is_done (Suc (Suc (Suc (((3 + m) * n + 6) + (14 + 3 * n))))) (process_claimed h job attempt)"
    unfolding process_claimed_def
    by (rule finishes_call(2), rule finishes_call(6), simp, rule finishes_call(2),
        rule takes_bind [OF finishes_runPipeline [OF assms]]) (auto intro: recorded)
  then show ?thesis by (rule takes_mono) (simp add: algebra_simps)
qed

lemma finishes_Handle:
  assumes "registry_takes n m h"
  shows "finishes is_done ((6 + m) * n + 27) (Handle h msg)"
proof -
  have claimed: "finishes is_done ((6 + m) * n + 26) (bind_prog (BeginAttempt i) (\<lambda>b. case b of
      Inl e \<Rightarrow> Return (decide (if errors_Is ErrConflict e then Complete else Retry))
    | Inr (job, attempt) \<Rightarrow> process_claimed h job attempt))" for i
    by (rule finishes_bind_le [OF finishes_BeginAttempt, where n = "(6 + m) * n + 23"])
      (auto intro: finishes_process_claimed [OF assms] split: sum.splits)
  have "finishes is_done ((6 + m) * n + 27) (bind_prog (GetJob i) (\<lambda>g. case g of
      Inl e \<Rightarrow> Return (decide (if errors_Is ErrNotFound e then Discard else Retry))
    | Inr job \<Rightarrow>
        if IsTerminal (job_Status job) then Return (decide Complete)
        else bind_prog (BeginAttempt i) (\<lambda>b. case b of
            Inl e \<Rightarrow> Return (decide (if errors_Is ErrConflict e then Complete else Retry))
          | Inr (job, attempt) \<Rightarrow> process_claimed h job attempt)))" for i
    by (rule finishes_bind_le [OF finishes_repository(1), where n = "(6 + m) * n + 26"])
      (auto intro: claimed split: sum.splits)
  then show ?thesis
    unfolding Handle_def by (auto split: option.splits)
qed

lemma default_registry_takes:
  "he_registry h = registry_Get (default_registry img) \<Longrightarrow> registry_takes 5 1 h"
  by (auto simp: registry_takes_def registry_Get_def default_registry_def default_pipeline_def NewPipeline_def
      stages_take_def unless_cancelled_def ResizeProcessor_def FaceDetectionProcessor_def ColorProcessor_def
      BeautyProcessor_def BackgroundProcessor_def intro!: finishes_calls split: option.splits if_splits)

section \<open>Every delivery is settled\<close>

lemma takes_process:
  assumes "registry_takes n m h"
  shows "takes (\<lambda>_ _. True) returned ((6 + m) * n + 29) (process h payload)"
proof -
  have handled: "takes (\<lambda>_ _. True) returned ((6 + m) * n + 27) (handleWithRecovery h msg)" for msg
    unfolding handleWithRecovery_def by (rule takes_any [OF takes_recover [OF finishes_Handle [OF assms]]])
  have metric: "takes (\<lambda>_ _. True) D (Suc k) (Metric x p)" if "takes (\<lambda>_ _. True) D k p"
    for D k x and p :: "settlement prog"
    using that by (intro takes_call) simp_all
  have settled: "takes (\<lambda>_ _. True) returned (Suc 0) (Metric WorkerFinished (Return r))" for r :: settlement
    by (rule metric) simp
  have "takes (\<lambda>_ _. True) returned (Suc ((6 + m) * n + 27 + Suc 0)) (Metric WorkerStarted
      (bind_prog (handleWithRecovery h msg) (\<lambda>res. Metric WorkerFinished (Return (settle res)))))" for msg
    by (rule metric, rule takes_bind [OF handled settled]) simp
  then show ?thesis
    unfolding process_def by (cases "json_Unmarshal (he_lib h) payload") (simp_all add: add.commute del: settle.simps)
qed

lemma process_keeps_gauge:
  assumes "registry_takes n m h" and "exec F (process h payload) w s w'"
  shows "active_workers w' = active_workers w"
proof (cases "json_Unmarshal (he_lib h) payload")
  case None
  then show ?thesis using assms(2) by (simp add: process_def)
next
  case (Some msg)
  let ?w = "w\<lparr>metrics := metrics w @ [WorkerStarted]\<rparr>"
  from assms(2) Some obtain res w1 where
      res: "exec F (handleWithRecovery h msg) ?w res w1" "w' = w1\<lparr>metrics := metrics w1 @ [WorkerFinished]\<rparr>"
    by (auto simp: process_def exec_step exec_bind)
  have "finishes returned ((6 + m) * n + 27) (handleWithRecovery h msg)"
    unfolding handleWithRecovery_def by (rule takes_recover [OF finishes_Handle [OF assms(1)]])
  from takes_exec [OF res(1) this gauge_kept_refl gauge_kept_trans] show ?thesis
    using res(2) by (simp add: gauge_kept_def active_workers_def)
qed

text \<open>
  C12. Every delivery is settled. Whatever message arrives and whatever the services answer
  (errors, timeouts, a cancelled context, before or after a call took effect), the worker
  is done with it after at most 64 calls, with one of ack, nak or term, and the gauge of
  active workers is back where it was; with any registry whose pipelines have at most
  \<open>n\<close> stages of at most \<open>m\<close> calls each the bound is \<open>(6 + m) n + 29\<close>, panics in a stage
  included.
\<close>

theorem delivery_settled:
  assumes "registry_takes n m h"
  shows "\<exists>s. fst (run (map replies [0..<(6 + m) * n + 29]) (process h payload) w) = Return s
     \<and> active_workers (snd (run (map replies [0..<(6 + m) * n + 29]) (process h payload) w)) = active_workers w"
proof -
  let ?os = "map replies [0..<(6 + m) * n + 29]"
  obtain s where s: "fst (run ?os (process h payload) w) = Return s"
    using takes_run [OF takes_process [OF assms], of ?os payload w]
    by (auto simp: returned_def reflp_def transp_def)
  from process_keeps_gauge [OF assms run_exec [OF s]] show ?thesis
    using s by blast
qed

theorem delivery_settled_witness:
  "\<forall>replies lib img payload w. \<exists>s. fst (run (map replies [0..<64])
      (process \<lparr>he_lib = lib, he_registry = registry_Get (default_registry img), he_imaging = img\<rparr> payload) w) = Return s"
proof (intro allI)
  fix replies lib payload w and img :: "'a imaging"
  show "\<exists>s. fst (run (map replies [0..<64])
      (process \<lparr>he_lib = lib, he_registry = registry_Get (default_registry img), he_imaging = img\<rparr> payload) w) = Return s"
    using delivery_settled [OF default_registry_takes, where replies = replies and payload = payload and w = w
      and h = "\<lparr>he_lib = lib, he_registry = registry_Get (default_registry img), he_imaging = img\<rparr>"]
    by auto
qed

end
