(* ===== verification/Outcomes.thy ===== *)
theory Outcomes
  imports Execution Calls Scenario
begin

text \<open>
  What the operations do when every call succeeds: the result and the change of the tables,
  on every branch. \<open>job_becomes i j w w'\<close> says that the only difference between two worlds
  is that the row of job \<open>i\<close> is \<open>j\<close>.
\<close>

section \<open>Changing one job\<close>

definition same_but_jobs :: "world \<Rightarrow> world \<Rightarrow> bool" where
  "same_but_jobs w w' \<longleftrightarrow> attempts (w_db w') = attempts (w_db w)
     \<and> processing_steps (w_db w') = processing_steps (w_db w) \<and> artifacts (w_db w') = artifacts (w_db w)
     \<and> idempotency_keys (w_db w') = idempotency_keys (w_db w)
     \<and> published w' = published w \<and> stored w' = stored w \<and> metrics w' = metrics w"

definition job_becomes :: "uuid \<Rightarrow> job \<Rightarrow> world \<Rightarrow> world \<Rightarrow> bool" where
  "job_becomes i j w w' \<longleftrightarrow>
     (\<forall>k. job_of (w_db w') k = (if k = i then Some j else job_of (w_db w) k)) \<and> same_but_jobs w w'"

lemma job_becomes_lookup [simp]: "job_becomes i j w w' \<Longrightarrow> job_of (w_db w') i = Some j"
  by (simp add: job_becomes_def)

lemma same_but_jobs_trans: "same_but_jobs w w1 \<Longrightarrow> same_but_jobs w1 w2 \<Longrightarrow> same_but_jobs w w2"
  by (simp add: same_but_jobs_def)

lemma job_becomes_trans: "job_becomes i j w w1 \<Longrightarrow> job_becomes i k w1 w2 \<Longrightarrow> job_becomes i k w w2"
  unfolding job_becomes_def using same_but_jobs_trans by force

lemma exec_wf: "exec F p w r w' \<Longrightarrow> wf_db (w_db w) \<Longrightarrow> wf_db (w_db w')"
  using schema.run_keeps unfolding exec_iff_run by (metis snd_conv)

text \<open>Replies without faults, of which only the clock or the random id matters.\<close>

lemma faultless_sql [simp]: "faultless oc \<Longrightarrow> faulty_sql (o_fault oc) f d = f d"
  by (simp add: faultless_def)

lemma faultless_tx [simp]: "faultless oc \<Longrightarrow> faulty_tx (o_fault oc) f d = f d"
  by (simp add: faultless_def)

lemma faultless_read [simp]: "faultless oc \<Longrightarrow> faulty_read (o_fault oc) x = Inr x"
  by (simp add: faultless_def)

lemma faultless_write [simp]: "faultless oc \<Longrightarrow> faulty_write (o_fault oc) x xs = (Inr (), xs @ [x])"
  by (simp add: faultless_def faulty_write_def)

definition faultless_at :: "time \<Rightarrow> outside" where
  "faultless_at now = \<lparr>o_fault = NoFault, o_now = now, o_uuid = 0, o_date = (1, 1), o_ctx = CtxLive, o_rand = 0,
     o_meta = \<lparr>om_Size = 0, om_ContentType = '''', om_ETag = '''', om_LastModified = 0\<rparr>, o_bytes = '''', o_url = ''''\<rparr>"

lemma faultless_at [simp]: "faultless (faultless_at now)" "o_now (faultless_at now) = now"
  by (simp_all add: faultless_def faultless_at_def)

lemma ex_faultless [simp]: "\<exists>oc. faultless oc"
  using faultless_at(1) by blast

lemma takes_ex_faultless: "takes K returned n p \<Longrightarrow> \<exists>r w'. exec faultless p w r w'"
  by (rule takes_ex_exec [where F = faultless and oc = "faultless_at 0"]) simp_all

section \<open>Reading and updating jobs\<close>

text \<open>\<open>GetJob\<close> reads and changes nothing.\<close>

lemma exec_GetJob:
  "exec faultless (GetJob i) w r w' \<longleftrightarrow>
     r = (case job_of (w_db w) i of None \<Rightarrow> Inl (Sentinel ErrNotFound) | Some j \<Rightarrow> Inr j) \<and> w' = w"
proof -
  have "exec faultless (GetJob i) w r w' \<longleftrightarrow> (\<exists>oc. faultless oc \<and>
      r = (case job_of (w_db w) i of None \<Rightarrow> Inl (Sentinel ErrNotFound) | Some j \<Rightarrow> Inr j) \<and> w' = w)"
    by (simp add: GetJob_def exec_step cong: conj_cong)
  then show ?thesis using ex_faultless by blast
qed

lemma exec_classify:
  "exec faultless (classifyMissingUpdate i) w e w' \<longleftrightarrow>
     e = (if job_of (w_db w) i \<noteq> None then Sentinel ErrConflict else Sentinel ErrNotFound) \<and> w' = w"
proof -
  have "exec faultless (classifyMissingUpdate i) w e w' \<longleftrightarrow> (\<exists>oc. faultless oc \<and>
      e = (if job_of (w_db w) i \<noteq> None then Sentinel ErrConflict else Sentinel ErrNotFound) \<and> w' = w)"
    by (simp add: classifyMissingUpdate_def exec_step cong: conj_cong)
  then show ?thesis using ex_faultless by blast
qed

lemma updated_row_ok:
  assumes "wf_db d" and "job_of d i = Some j" and "Valid (upd_To u)" and "\<not> upd_IncAttempt u"
  shows "job_row_ok (updated_row now u j) = None"
proof -
  have "job_row_valid j"
    using assms(1) row_of_SomeD [OF assms(2)] by (auto simp: wf_db_def wf_jobs_def list_all_iff)
  then show ?thesis
    using assms(3,4) by (simp add: job_row_valid_def job_row_ok_def updated_row_def)
qed

lemma sql_update_hit:
  assumes "wf_db d" and "job_of d i = Some j" and "Valid (upd_To u)" and "\<not> upd_IncAttempt u" and "job_Status j = st"
  shows "sql_update_job now i st u d = (Inr (Some (updated_row now u j)), snd (guarded_update i st (updated_row now u) d))"
  using job_store.cas_hit [where f = "updated_row now u" and s = d and k = i and v = j and q = st] updated_row_ok [OF assms(1-4)] assms
  by (auto simp: sql_update_job_def split: prod.splits)

lemma sql_update_miss:
  assumes "\<not> (\<exists>j. job_of d i = Some j \<and> job_Status j = st)"
  shows "sql_update_job now i st u d = (Inr None, d)"
  using job_store.cas_miss [OF assms] by (simp add: sql_update_job_def)

lemma exec_UpdateJobStatus_invalid:
  assumes "\<not> CanTransition st (upd_To u)"
  shows "exec F (UpdateJobStatus i st u) w r w' \<longleftrightarrow> (\<exists>e. ValidateTransition st (upd_To u) = Some e \<and> r = Inl e \<and> w' = w)"
  using assms by (auto simp: UpdateJobStatus_def ValidateTransition_None_iff [symmetric])

lemma exec_UpdateJobStatus_miss:
  assumes "CanTransition st (upd_To u)" and "\<not> (\<exists>j. job_of (w_db w) i = Some j \<and> job_Status j = st)"
  shows "exec faultless (UpdateJobStatus i st u) w r w' \<longleftrightarrow>
    r = Inl (if job_of (w_db w) i \<noteq> None then Sentinel ErrConflict else Sentinel ErrNotFound) \<and> w' = w"
proof -
  have "ValidateTransition st (upd_To u) = None" using assms(1) by (simp add: ValidateTransition_None_iff)
  then have "exec faultless (UpdateJobStatus i st u) w r w' \<longleftrightarrow> (\<exists>oc. faultless oc \<and>
      r = Inl (if job_of (w_db w) i \<noteq> None then Sentinel ErrConflict else Sentinel ErrNotFound) \<and> w' = w)"
    using sql_update_miss [OF assms(2)]
    by (simp add: UpdateJobStatus_def exec_step [of "UpdateJob i st u k" for k] on_db_def exec_bind exec_classify cong: conj_cong)
  then show ?thesis using ex_faultless by blast
qed

lemma exec_UpdateJobStatus_hit:
  assumes "wf_db (w_db w)" and "job_of (w_db w) i = Some j" and "CanTransition (job_Status j) (upd_To u)"
    and "\<not> upd_IncAttempt u"
  shows "exec faultless (UpdateJobStatus i (job_Status j) u) w r w' \<longleftrightarrow>
    (\<exists>now. r = Inr (updated_row now u j)
       \<and> w' = w\<lparr>w_db := snd (guarded_update i (job_Status j) (updated_row now u) (w_db w))\<rparr>)"
proof -
  have "ValidateTransition (job_Status j) (upd_To u) = None" using assms(3) by (simp add: ValidateTransition_None_iff)
  moreover have "Valid (upd_To u)" using CanTransition_Valid [OF assms(3)] by simp
  ultimately have "exec faultless (UpdateJobStatus i (job_Status j) u) w r w' \<longleftrightarrow>
    (\<exists>oc. faultless oc \<and> r = Inr (updated_row (o_now oc) u j)
       \<and> w' = w\<lparr>w_db := snd (guarded_update i (job_Status j) (updated_row (o_now oc) u) (w_db w))\<rparr>)"
    using sql_update_hit [OF assms(1,2) _ assms(4) refl]
    by (simp add: UpdateJobStatus_def exec_step [of "UpdateJob i st u k" for st k] on_db_def cong: conj_cong)
  then show ?thesis by (metis faultless_at)
qed

lemma guarded_update_becomes:
  assumes "job_of (w_db w) i = Some j"
  shows "job_becomes i (updated_row now u j) w
    (w\<lparr>w_db := snd (guarded_update i (job_Status j) (updated_row now u) (w_db w))\<rparr>)"
  unfolding job_becomes_def
  using assms by (intro conjI allI) (simp_all add: job_of_guarded_update same_but_jobs_def split: option.splits)

lemma job_Status_updated_row: "job_Status (updated_row now u j) = upd_To u"
  by (simp add: updated_row_def)



section \<open>Cancelling\<close>

lemma exec_CancelJob:
  assumes "wf_db (w_db w)" and "exec faultless (CancelJob i) w r w'"
  shows "case job_of (w_db w) i of
      None \<Rightarrow> r = Inl (Sentinel ErrNotFound) \<and> w' = w
    | Some j \<Rightarrow>
        if job_Status j \<in> {StatusPending, StatusQueued, StatusProcessing, StatusRetrying}
        then \<exists>now. r = Inr (updated_row now (JobUpdate StatusCancelled) j)
          \<and> job_becomes i (updated_row now (JobUpdate StatusCancelled) j) w w'
        else r = Inl (Sentinel ErrNotCancellable) \<and> w' = w"
proof (cases "job_of (w_db w) i")
  case None
  then show ?thesis using assms(2) by (simp add: CancelJob_def exec_bind exec_GetJob)
next
  case (Some j)
  then have loop: "exec faultless (cancel_loop (Suc 1) i j) w r w'"
    using assms(2) by (simp add: CancelJob_def exec_bind exec_GetJob maxTries_Suc)
  have upd: "upd_To (JobUpdate StatusCancelled) = StatusCancelled" "\<not> upd_IncAttempt (JobUpdate StatusCancelled)"
    by (simp_all add: JobUpdate_def)
  show ?thesis
  proof (cases "CanTransition (job_Status j) StatusCancelled")
    case True
    then show ?thesis
      using loop exec_UpdateJobStatus_hit [OF assms(1) Some _ upd(2)] guarded_update_becomes [OF Some] Some upd(1)
      by (auto simp: exec_bind CanTransition_cancel_iff)
  next
    case False
    then show ?thesis using loop Some by (auto simp: CanTransition_cancel_iff)
  qed
qed

text \<open>
  Cancelling a job, when the database answers: a missing job is not found; a job that is
  pending, queued, processing or waiting for its retry becomes CANCELLED, is returned, and
  nothing else changes; a job that is completed, failed or cancelled already is refused
  without a change.
\<close>

theorem CancelJob_spec:
  assumes "wf_db (w_db w)" and "exec faultless (CancelJob i) w r w'"
  shows "case job_of (w_db w) i of
      None \<Rightarrow> r = Inl (Sentinel ErrNotFound) \<and> w' = w
    | Some j \<Rightarrow>
        if job_Status j \<in> {StatusPending, StatusQueued, StatusProcessing, StatusRetrying}
        then \<exists>now. r = Inr (updated_row now (JobUpdate StatusCancelled) j)
          \<and> job_becomes i (updated_row now (JobUpdate StatusCancelled) j) w w'
        else r = Inl (Sentinel ErrNotCancellable) \<and> w' = w"
  by (rule exec_CancelJob [OF assms])

section \<open>Recording a failure\<close>

lemma exec_FinishAttempt:
  "exec faultless (FinishAttempt aid st msg) w r w' \<longleftrightarrow>
    (\<exists>now. r = (if row_of att_ID aid (attempts (w_db w)) = None then Some (Sentinel ErrNotFound) else None)
       \<and> w' = w\<lparr>w_db := snd (sql_finish_attempt now aid st msg (w_db w))\<rparr>)"
proof -
  have n: "filter (\<lambda>a. att_ID a = aid) (attempts d) = [] \<longleftrightarrow> row_of att_ID aid (attempts d) = None" for d
    by (auto simp: row_of_None_iff filter_empty_conv image_iff)
  have "exec faultless (FinishAttempt aid st msg) w r w' \<longleftrightarrow> (\<exists>oc. faultless oc \<and>
      r = (if row_of att_ID aid (attempts (w_db w)) = None then Some (Sentinel ErrNotFound) else None)
       \<and> w' = w\<lparr>w_db := snd (sql_finish_attempt (o_now oc) aid st msg (w_db w))\<rparr>)"
    by (simp add: FinishAttempt_def exec_step on_db_def sql_finish_attempt_def n cong: conj_cong)
  then show ?thesis by (metis faultless_at)
qed

lemma exec_backoff: "exec F (backoff n) w r w' \<Longrightarrow> \<exists>draw. r = backoff_delay n draw \<and> w' = w"
  by (auto simp: backoff_def backoff_delay_def Let_def exec_step)

lemma exec_update_becomes:
  assumes "exec faultless (UpdateJobStatus i st u) w r w'" and "wf_db (w_db w)" and "job_of (w_db w) i = Some j"
    and "job_Status j = st" and "CanTransition st (upd_To u)" and "\<not> upd_IncAttempt u"
  shows "\<exists>now. r = Inr (updated_row now u j) \<and> job_becomes i (updated_row now u j) w w' \<and> wf_db (w_db w')"
  using exec_UpdateJobStatus_hit [OF assms(2,3) _ assms(6)] guarded_update_becomes [OF assms(3)] assms exec_wf [OF assms(1,2)]
  by auto

lemma exec_markFailed:
  assumes "wf_db (w_db w)" and "job_of (w_db w) i = Some j" and "job_Status j = StatusProcessing"
    and "exec faultless (markFailed i e) w r w'"
  shows "\<exists>now. job_becomes i (updated_row now (failed_update e) j) w w'"
proof -
  have upd: "upd_To (failed_update e) = StatusFailed" "\<not> upd_IncAttempt (failed_update e)"
    by (simp_all add: failed_update_def JobUpdate_def)
  from assms(4) obtain x where "exec faultless (UpdateJobStatus i StatusProcessing (failed_update e)) w x w'"
    by (auto simp: markFailed_def exec_bind)
  from exec_update_becomes [OF this assms(1-3)] upd show ?thesis by auto
qed

text \<open>The job after the walk through FAILED and RETRYING back to QUEUED.\<close>

definition retried_row :: "time list \<Rightarrow> err \<Rightarrow> job \<Rightarrow> job" where
  "retried_row ts e j = updated_row (ts ! 3) requeued_update
     (updated_row (ts ! 2) (retrying_update (ts ! 1)) (updated_row (ts ! 0) (failed_update e) j))"

lemma exec_scheduleRetry:
  assumes wf: "wf_db (w_db w)" and job: "job_of (w_db w) i = Some j" "job_Status j = StatusProcessing"
    and ex: "exec faultless (scheduleRetry i e delay) w r w'"
  shows "r = None \<and> (\<exists>ts. length ts = 4 \<and> job_becomes i (retried_row ts e j) w w')"
proof -
  have upd: "upd_To (failed_update e) = StatusFailed" "\<not> upd_IncAttempt (failed_update e)"
      "upd_To (retrying_update t) = StatusRetrying" "\<not> upd_IncAttempt (retrying_update t)"
      "upd_To requeued_update = StatusQueued" "\<not> upd_IncAttempt requeued_update" for t
    by (simp_all add: failed_update_def retrying_update_def requeued_update_def JobUpdate_def)
  from ex obtain x1 w1 where s1: "exec faultless (UpdateJobStatus i StatusProcessing (failed_update e)) w x1 w1"
      and rest1: "exec faultless (case x1 of Inl e \<Rightarrow> Return (Some e) | Inr _ \<Rightarrow> TimeNow (\<lambda>now.
           bind_prog (UpdateJobStatus i StatusFailed (retrying_update (now + delay))) (\<lambda>r. case r of
             Inl e \<Rightarrow> Return (Some e)
           | Inr _ \<Rightarrow> bind_prog (UpdateJobStatus i StatusRetrying requeued_update) (\<lambda>r. Return
                 (case r of Inl e \<Rightarrow> Some e | Inr _ \<Rightarrow> None))))) w1 r w'"
    by (auto simp: scheduleRetry_def exec_bind)
  from exec_update_becomes [OF s1 wf job(1,2)] upd obtain t1 where
      j1: "x1 = Inr (updated_row t1 (failed_update e) j)" "job_becomes i (updated_row t1 (failed_update e) j) w w1" "wf_db (w_db w1)"
    by auto
  from rest1 j1(1) obtain t2 x2 w2 where s2: "exec faultless (UpdateJobStatus i StatusFailed (retrying_update t2)) w1 x2 w2"
      and rest2: "exec faultless (case x2 of Inl e \<Rightarrow> Return (Some e)
           | Inr _ \<Rightarrow> bind_prog (UpdateJobStatus i StatusRetrying requeued_update) (\<lambda>r. Return
                 (case r of Inl e \<Rightarrow> Some e | Inr _ \<Rightarrow> None))) w2 r w'"
    by (auto simp: exec_step exec_bind)
  from exec_update_becomes [OF s2 j1(3) job_becomes_lookup [OF j1(2)]] upd obtain t3 where
      j2: "x2 = Inr (updated_row t3 (retrying_update t2) (updated_row t1 (failed_update e) j))"
        "job_becomes i (updated_row t3 (retrying_update t2) (updated_row t1 (failed_update e) j)) w1 w2" "wf_db (w_db w2)"
    by (auto simp: job_Status_updated_row)
  from rest2 j2(1) obtain x3 where s3: "exec faultless (UpdateJobStatus i StatusRetrying requeued_update) w2 x3 w'"
      and r: "r = (case x3 of Inl e \<Rightarrow> Some e | Inr _ \<Rightarrow> None)"
    by (auto simp: exec_bind)
  from exec_update_becomes [OF s3 j2(3) job_becomes_lookup [OF j2(2)]] upd obtain t4 where
      "x3 = Inr (retried_row [t1, t2, t3, t4] e j)" "job_becomes i (retried_row [t1, t2, t3, t4] e j) w2 w'"
    by (auto simp: job_Status_updated_row retried_row_def)
  then show ?thesis
    using r job_becomes_trans [OF job_becomes_trans [OF j1(2) j2(2)]] by (intro conjI exI [of _ "[t1, t2, t3, t4]"]) auto
qed

lemma job_becomes_origin:
  "same_origin j (updated_row now u j)" "job_AttemptCount (retried_row ts e j) = job_AttemptCount j"
  "same_origin j (retried_row ts e j)" "job_Status (retried_row ts e j) = StatusQueued"
  "job_LastError (retried_row ts e j) = Error e" "job_NextRetryAt (retried_row ts e j) = None"
  by (simp_all add: same_origin_def retried_row_def updated_row_def failed_update_def retrying_update_def
      requeued_update_def JobUpdate_def)

lemma backoff_delay_range: "Second \<le> backoff_delay n draw \<and> backoff_delay n draw \<le> Minute"
proof -
  have "Second \<le> backoff_exp n div 2" "backoff_exp n \<le> Minute"
    using backoff_exp_bounds [of n] unfolding Second_def Minute_def backoffCap_def by presburger+
  then show ?thesis using backoff_delay_bounds [of n draw] by linarith
qed

text \<open>The decision for a failed attempt whose job is still PROCESSING.\<close>

lemma exec_retry_or_fail:
  assumes "wf_db (w_db w)" and "job_of (w_db w) (job_ID claimed) = Some cur" and "job_Status cur = StatusProcessing"
    and ex: "exec faultless (retry_or_fail claimed e) w r w'"
  shows "\<exists>j' w1 ms. job_becomes (job_ID claimed) j' w w1 \<and> w' = w1\<lparr>metrics := ms\<rparr> \<and> same_origin cur j'
    \<and> job_AttemptCount j' = job_AttemptCount cur \<and> job_LastError j' = Error e
    \<and> (if IsPermanent (Some e) \<or> \<not> CanRetry claimed then settle r = Ack \<and> job_Status j' = StatusFailed
       else job_Status j' = StatusQueued \<and> job_NextRetryAt j' = None \<and> (\<exists>d. settle r = Nak d \<and> Second \<le> d \<and> d \<le> Minute))"
proof (cases "IsPermanent (Some e) \<or> \<not> CanRetry claimed")
  case True
  then obtain x w1 where m: "exec faultless (markFailed (job_ID claimed) e) w x w1"
      "r = decide Complete" "w' = w1\<lparr>metrics := metrics w1 @ [IncJobsFailed]\<rparr>"
    using ex by (auto simp: retry_or_fail_def exec_bind exec_step split: if_splits)
  from exec_markFailed [OF assms(1-3) m(1)] obtain now where
      j: "job_becomes (job_ID claimed) (updated_row now (failed_update e) cur) w w1" by blast
  have "job_Status (updated_row now (failed_update e) cur) = StatusFailed"
      "job_LastError (updated_row now (failed_update e) cur) = Error e"
      "job_AttemptCount (updated_row now (failed_update e) cur) = job_AttemptCount cur"
    by (simp_all add: updated_row_def failed_update_def JobUpdate_def)
  with j m True show ?thesis
    by (intro exI [of _ "updated_row now (failed_update e) cur"] exI [of _ w1] exI [of _ "metrics w1 @ [IncJobsFailed]"])
      (simp add: decide_def)
next
  case False
  then obtain delay w0 x w1 where b: "exec faultless (backoff (job_AttemptCount claimed)) w delay w0"
      "exec faultless (scheduleRetry (job_ID claimed) e delay) w0 x w1"
      "exec faultless (case x of Some _ \<Rightarrow> Return \<lparr>res_Decision = Retry, res_RetryAfter = delay\<rparr>
        | None \<Rightarrow> Metric IncJobsRetried (Return \<lparr>res_Decision = Retry, res_RetryAfter = delay\<rparr>)) w1 r w'"
    using ex by (auto simp: retry_or_fail_def exec_bind Let_def)
  obtain draw where d: "delay = backoff_delay (job_AttemptCount claimed) draw" and "w0 = w"
    using exec_backoff [OF b(1)] by blast
  with exec_scheduleRetry [OF assms(1-3), of e delay x w1] b(2) obtain ts where
      j: "x = None" "job_becomes (job_ID claimed) (retried_row ts e cur) w w1" by blast
  have "r = \<lparr>res_Decision = Retry, res_RetryAfter = delay\<rparr>" "w' = w1\<lparr>metrics := metrics w1 @ [IncJobsRetried]\<rparr>"
    using b(3) j(1) by (auto simp: exec_step)
  with j(2) d False backoff_delay_range show ?thesis
    by (intro exI [of _ "retried_row ts e cur"] exI [of _ w1] exI [of _ "metrics w1 @ [IncJobsRetried]"])
      (simp add: job_becomes_origin)
qed

definition finished_attempt :: "time \<Rightarrow> err \<Rightarrow> attempt \<Rightarrow> attempt" where
  "finished_attempt t e a = a\<lparr>att_Status := (if IsCancellation (Some e) then AttemptCancelled else AttemptFailed),
     att_Error := Error e, att_FinishedAt := Some t\<rparr>"

lemma exec_finalizeFailure:
  assumes "wf_db (w_db w)" and "job_of (w_db w) (job_ID claimed) = Some cur"
    and "job_Status cur = StatusProcessing \<or> job_Status cur = StatusCancelled"
    and "exec faultless (finalizeFailure claimed attempt e) w r w'"
  shows "\<exists>j' t. job_of (w_db w') (job_ID claimed) = Some j'
    \<and> (\<forall>k. k \<noteq> job_ID claimed \<longrightarrow> job_of (w_db w') k = job_of (w_db w) k)
    \<and> attempts (w_db w') = map_row att_ID (att_ID attempt) (finished_attempt t e) (attempts (w_db w))
    \<and> same_origin cur j' \<and> job_AttemptCount j' = job_AttemptCount cur
    \<and> (if job_Status cur = StatusCancelled then settle r = Ack \<and> j' = cur
       else if IsPermanent (Some e) \<or> \<not> CanRetry claimed
       then settle r = Ack \<and> job_Status j' = StatusFailed \<and> job_LastError j' = Error e
       else job_Status j' = StatusQueued \<and> job_LastError j' = Error e \<and> job_NextRetryAt j' = None
         \<and> (\<exists>d. settle r = Nak d \<and> Second \<le> d \<and> d \<le> Minute))"
proof -
  let ?st = "if IsCancellation (Some e) then AttemptCancelled else AttemptFailed"
  obtain x w1 where f: "exec faultless (FinishAttempt (att_ID attempt) ?st (Error e))
        (w\<lparr>metrics := metrics w @ [IncProcessorError (kind_String (Classify (Some e)))]\<rparr>) x w1"
      and g: "exec faultless (bind_prog (GetJob (job_ID claimed)) (\<lambda>g. case g of
          Inr cur \<Rightarrow> if job_Status cur = StatusCancelled then Return (decide Complete) else retry_or_fail claimed e
        | Inl _ \<Rightarrow> retry_or_fail claimed e)) w1 r w'"
    using assms(4) by (auto simp: finalizeFailure_def exec_step exec_bind)
  from f obtain t where w1: "jobs (w_db w1) = jobs (w_db w)"
      "attempts (w_db w1) = map_row att_ID (att_ID attempt) (finished_attempt t e) (attempts (w_db w))"
    by (auto simp: exec_FinishAttempt sql_finish_attempt_def finished_attempt_def [abs_def])
  have wf1: "wf_db (w_db w1)" using exec_wf [OF f] assms(1) by simp
  have job1: "job_of (w_db w1) (job_ID claimed) = Some cur" using assms(2) w1(1) by simp
  show ?thesis
  proof (cases "job_Status cur = StatusCancelled")
    case True
    then have "r = decide Complete" "w' = w1" using g job1 by (auto simp: exec_bind exec_GetJob)
    then show ?thesis using True job1 w1 by (auto simp: decide_def)
  next
    case False
    then have "exec faultless (retry_or_fail claimed e) w1 r w'" using g job1 by (simp add: exec_bind exec_GetJob)
    from exec_retry_or_fail [OF wf1 job1 _ this] False assms(3) obtain j' w2 ms where
        b: "job_becomes (job_ID claimed) j' w1 w2" "w' = w2\<lparr>metrics := ms\<rparr>" "same_origin cur j'"
          "job_AttemptCount j' = job_AttemptCount cur" "job_LastError j' = Error e"
          "if IsPermanent (Some e) \<or> \<not> CanRetry claimed then settle r = Ack \<and> job_Status j' = StatusFailed
           else job_Status j' = StatusQueued \<and> job_NextRetryAt j' = None \<and> (\<exists>d. settle r = Nak d \<and> Second \<le> d \<and> d \<le> Minute)"
      by auto
    have "job_of (w_db w') (job_ID claimed) = Some j'"
        "\<forall>k. k \<noteq> job_ID claimed \<longrightarrow> job_of (w_db w') k = job_of (w_db w) k"
        "attempts (w_db w') = attempts (w_db w1)"
      using b(1) w1(1) unfolding b(2) job_becomes_def same_but_jobs_def by (auto simp del: world.ext_inject)
    then show ?thesis
      using b w1(2) False by (intro exI [of _ j'] exI [of _ t]) (simp del: settle.simps)
  qed
qed

text \<open>
  C21. What a failed attempt does, when the database answers. Its row is closed with the
  error, as cancelled or failed. A job cancelled meanwhile is left alone and the delivery
  acked. Otherwise a permanent error, or one on the last attempt, makes the job FAILED with
  the error and acks the delivery; any other error puts the job back to QUEUED, its error
  recorded and its attempts unchanged, and the delivery is naked with a delay between one
  second and one minute. No other job changes.
\<close>

theorem finalizeFailure_spec:
  assumes "wf_db (w_db w)" and "job_of (w_db w) (job_ID claimed) = Some cur"
    and "job_Status cur = StatusProcessing \<or> job_Status cur = StatusCancelled"
    and "exec faultless (finalizeFailure claimed attempt e) w r w'"
  shows "\<exists>j' t. job_of (w_db w') (job_ID claimed) = Some j'
    \<and> (\<forall>k. k \<noteq> job_ID claimed \<longrightarrow> job_of (w_db w') k = job_of (w_db w) k)
    \<and> attempts (w_db w') = map_row att_ID (att_ID attempt) (finished_attempt t e) (attempts (w_db w))
    \<and> same_origin cur j' \<and> job_AttemptCount j' = job_AttemptCount cur
    \<and> (if job_Status cur = StatusCancelled then settle r = Ack \<and> j' = cur
       else if IsPermanent (Some e) \<or> \<not> CanRetry claimed
       then settle r = Ack \<and> job_Status j' = StatusFailed \<and> job_LastError j' = Error e
       else job_Status j' = StatusQueued \<and> job_LastError j' = Error e \<and> job_NextRetryAt j' = None
         \<and> (\<exists>d. settle r = Nak d \<and> Second \<le> d \<and> d \<le> Minute))"
  by (rule exec_finalizeFailure [OF assms])

lemma claimed_world:
  "wf_db (w_db (sys_world claimed_system))" "job_of (w_db (sys_world claimed_system)) 1 = Some claimed_job"
  "job_Status claimed_job = StatusProcessing" "job_ID claimed_job = 1" "CanRetry claimed_job"
  using reachable_wf [OF reachable_claimed] by (simp_all add: demo_states CanRetry_def)

theorem CancelJob_spec_witness:
  "\<exists>w' now. job_becomes 1 (updated_row now (JobUpdate StatusCancelled) claimed_job) (sys_world claimed_system) w'"
proof -
  obtain r w' where "exec faultless (CancelJob 1) (sys_world claimed_system) r w'"
    using takes_ex_faultless [OF finishes_CancelJob] by blast
  from CancelJob_spec [OF claimed_world(1) this] show ?thesis
    using claimed_world by auto
qed

theorem finalizeFailure_spec_witness:
  "\<exists>j' (w' :: world). job_of (w_db w') 1 = Some j' \<and> job_Status j' = StatusQueued \<and> job_LastError j' = [Lit ''timeout'']
     \<and> job_AttemptCount j' = 1"
proof -
  obtain r w' where ex: "exec faultless (finalizeFailure claimed_job demo_attempt (Foreign ''timeout'')) (sys_world claimed_system) r w'"
    using takes_ex_faultless [OF finishes_finalizeFailure] by blast
  have "\<not> IsPermanent (Some (Foreign ''timeout''))" by (simp add: IsPermanent_def Classify_def)
  moreover have "job_AttemptCount claimed_job = 1" by (simp add: claimed_job_def)
  ultimately have "\<exists>j'. job_of (w_db w') 1 = Some j' \<and> job_Status j' = StatusQueued
      \<and> job_LastError j' = [Lit ''timeout''] \<and> job_AttemptCount j' = 1"
    using finalizeFailure_spec [OF claimed_world(1) _ _ ex, of claimed_job] claimed_world by auto
  then show ?thesis by blast
qed

section \<open>Claiming\<close>

lemma job_of_claim:
  assumes "tx_claim now i aid d = (Inr (Some (j, a)), d')"
  shows "\<exists>r. job_of d i = Some r \<and> job_Status r = StatusQueued \<and> j = claimed_row now r \<and> a = new_attempt_row now aid j
    \<and> (\<forall>k. job_of d' k = (if k = i then Some j else job_of d k)) \<and> attempts d' = attempts d @ [a]"
proof -
  obtain d1 where g: "guarded_update i StatusQueued (claimed_row now) d = (Some j, d1)"
    using assms by (auto simp: tx_claim_def Let_def split: prod.splits option.splits sum.splits)
  then have hit: "fst (guarded_update i StatusQueued (claimed_row now) d) = Some j" by simp
  from hit [unfolded job_store.cas_Some_iff [OF keeps_ID_rows(2)]] obtain r where
      r: "job_of d i = Some r" "job_Status r = StatusQueued" "j = claimed_row now r" by blast
  have "job_of d1 k = (if k = i then Some j else job_of d k)" for k
    using job_of_guarded_update [OF keeps_ID_rows(2), where k = i and s = StatusQueued and d = d and i = k and now1 = now] g r
    by (auto split: option.splits)
  moreover have "attempts d1 = attempts d" using guarded_update_frame(1) [of i StatusQueued "claimed_row now" d] g by simp
  moreover have "a = new_attempt_row now aid j \<and> jobs d' = jobs d1 \<and> attempts d' = attempts d1 @ [a]"
    using assms g by (auto simp: tx_claim_def sql_insert_attempt_def Let_def split: if_splits option.splits)
  ultimately show ?thesis using r by auto
qed



end
