(* ===== verification/Delivering.thy ===== *)
theory Delivering
  imports Outcomes Guarantees
begin

text \<open>
  One delivery, from the message to its settlement, when the services answer: what happens
  to the job, its attempts and the delivery, on every branch of the handler. The claim and
  the two ways of finishing come from \<open>Outcomes\<close>; here the steps between them are shown to
  leave the job alone, and the whole is put together.
\<close>

section \<open>Programs that do not panic\<close>

inductive panic_free :: "'r prog \<Rightarrow> bool" where
  panic_free_Return: "panic_free (Return r)"
| panic_free_call: "\<not> is_done p \<Longrightarrow> (\<And>oc w. panic_free (fst (step_prog oc p w))) \<Longrightarrow> panic_free p"

lemma panic_free_Panic: "\<not> panic_free Panic"
  by (auto elim: panic_free.cases)

lemma panic_free_takes: "takes K returned n p \<Longrightarrow> panic_free p"
  by (induction rule: takes.induct) (auto simp: returned_def intro: panic_free.intros)

lemma panic_free_bind:
  "panic_free p \<Longrightarrow> (\<And>r. panic_free (f r)) \<Longrightarrow> panic_free (bind_prog p f)"
  by (induction rule: panic_free.induct)
    (auto intro: panic_free_call simp: is_done_bind step_prog_bind)

lemma panic_free_prims:
  "(\<And>t. panic_free (ft t)) \<Longrightarrow> panic_free (TimeNow ft)"
  "(\<And>c. panic_free (fc c)) \<Longrightarrow> panic_free (CtxErr fc)"
  "panic_free fm \<Longrightarrow> panic_free (Metric x fm)"
  by (rule panic_free_call; simp)+

text \<open>A deferred recover does nothing when there is no panic.\<close>

lemma exec_recover:
  "exec F q w r w' \<Longrightarrow> q = recover_prog p d \<Longrightarrow> panic_free p \<Longrightarrow> exec F p w r w'"
proof (induction arbitrary: p rule: exec.induct)
  case (exec_Return r w)
  then show ?case by (cases p) (auto simp: panic_free_Panic)
next
  case (exec_call q oc w r w')
  have nd: "\<not> is_done p" using exec_call by simp
  then have "panic_free (fst (step_prog oc p w))"
    using exec_call.prems(2) by (auto elim: panic_free.cases)
  with exec_call nd show ?case
    by (auto simp: step_recover intro: exec.exec_call)
qed

section \<open>The pipeline leaves the tables alone\<close>

definition stages_read :: "'img processor list \<Rightarrow> bool" where
  "stages_read ps \<longleftrightarrow> (\<forall>p \<in> set ps. \<forall>d. panic_free (proc_Process p d)
     \<and> (\<forall>F w r w'. exec F (proc_Process p d) w r w' \<longrightarrow> w' = w))"

lemma panic_free_run_stages: "stages_read ps \<Longrightarrow> panic_free (run_stages ps cur steps)"
  by (induction ps arbitrary: cur steps)
    (auto simp: stages_read_def intro!: panic_free.intros(1) panic_free_prims panic_free_bind split: option.splits sum.splits)

lemma exec_run_stages:
  "exec F (run_stages ps cur steps) w r w' \<Longrightarrow> stages_read ps \<Longrightarrow> w' = w"
proof (induction ps arbitrary: cur steps w)
  case (Cons p ps)
  have tail: "stages_read ps" and stage: "exec F (proc_Process p cur) w x w1 \<Longrightarrow> w1 = w" for x w1
    using Cons.prems(2) by (simp_all add: stages_read_def)
  from Cons.prems(1) show ?case
    by (auto simp: exec_step exec_bind exec_case_sum exec_case_option dest!: stage Cons.IH [OF _ tail])
qed simp

lemma stages_read_default: "stages_read (pipe_processors (default_pipeline lib))"
  by (auto simp: stages_read_def default_pipeline_def NewPipeline_def unless_cancelled_def ResizeProcessor_def
      FaceDetectionProcessor_def ColorProcessor_def BeautyProcessor_def BackgroundProcessor_def exec_step
      intro!: panic_free_prims panic_free.intros(1))

lemma worker_registry:
  "he_registry (worker_env dep) name version = Inr pipe \<Longrightarrow> stages_read (pipe_processors pipe)"
  by (auto simp: worker_env_def registry_Get_def default_registry_def stages_read_default split: option.splits if_splits)

lemma exec_store_Stat: "exec F (store_Stat key) w r w' \<Longrightarrow> w' = w"
  by (auto simp: store_Stat_def exec_step)

lemma exec_store_Get: "exec F (store_Get key) w e w' \<Longrightarrow> w' = w"
  unfolding store_Get_def exec_bind exec_case_sum
  by (auto simp: exec_step dest!: exec_store_Stat)

lemma exec_Decode: "exec F (Decode lib) w x w' \<Longrightarrow> w' = w"
  by (auto simp: Decode_def exec_step)

text \<open>What the pipeline and the storing of its output may change.\<close>

definition job_untouched :: "world \<Rightarrow> world \<Rightarrow> bool" where
  "job_untouched w w' \<longleftrightarrow> jobs (w_db w') = jobs (w_db w) \<and> attempts (w_db w') = attempts (w_db w)"

lemma job_untouched_refl [simp]: "job_untouched w w"
  and job_untouched_metrics [simp]: "job_untouched w (w'\<lparr>metrics := ms\<rparr>) \<longleftrightarrow> job_untouched w w'"
  and job_untouched_metrics_from [simp]: "job_untouched (w\<lparr>metrics := ms\<rparr>) w' \<longleftrightarrow> job_untouched w w'"
  by (simp_all add: job_untouched_def)

lemma job_untouched_trans: "job_untouched w w1 \<Longrightarrow> job_untouched w1 w2 \<Longrightarrow> job_untouched w w2"
  by (simp add: job_untouched_def)

text \<open>A recorded output: the object was written and the artifact's row points to it.\<close>

definition output_recorded :: "library \<Rightarrow> job \<Rightarrow> world \<Rightarrow> bool" where
  "output_recorded lib job w \<longleftrightarrow>
     (\<exists>a \<in> set (artifacts (w_db w)). art_JobID a = job_ID job \<and> art_ObjectKey a = output_key lib job
        \<and> art_Kind a = ''output'' \<and> art_ContentType a = ''image/jpeg''
        \<and> (\<exists>buf. (output_key lib job, buf, art_SizeBytes a, ''image/jpeg'') \<in> set (stored w)
             \<and> art_SizeBytes a = int (length buf)))"

lemma map_row_hit: "r \<in> set rows \<Longrightarrow> key r = k \<Longrightarrow> f r \<in> set (map_row key k f rows)"
  by (induction rows) auto

lemma upserted_artifact:
  assumes "sql_upsert_artifact now a d = (Inr (), d')"
  shows "jobs d' = jobs d \<and> attempts d' = attempts d
    \<and> (\<exists>b \<in> set (artifacts d'). art_slot b = art_slot a \<and> art_Kind b = art_Kind a
        \<and> art_ContentType b = art_ContentType a \<and> art_SizeBytes b = art_SizeBytes a)"
proof (cases "row_of art_slot (art_slot a) (artifacts d)")
  case None
  then show ?thesis using assms by (auto simp: sql_upsert_artifact_def split: if_splits)
next
  case (Some b)
  let ?f = "\<lambda>r. r\<lparr>art_Kind := art_Kind a, art_ContentType := art_ContentType a, art_SizeBytes := art_SizeBytes a\<rparr>"
  have "?f b \<in> set (map_row art_slot (art_slot a) ?f (artifacts d))"
    by (rule map_row_hit) (use row_of_SomeD [OF Some] in auto)
  moreover have "art_slot (?f b) = art_slot a" using row_of_key [OF Some] by simp
  moreover have "d' = d\<lparr>artifacts := map_row art_slot (art_slot a) ?f (artifacts d)\<rparr>"
    using assms Some by (simp add: sql_upsert_artifact_def split: if_splits)
  ultimately show ?thesis by (auto intro!: bexI [of _ "?f b"])
qed

lemma upsert_leaves_jobs:
  "jobs (snd (sql_upsert_artifact now a d)) = jobs d \<and> attempts (snd (sql_upsert_artifact now a d)) = attempts d"
  by (simp add: sql_upsert_artifact_def)

lemma exec_AddArtifact:
  assumes "exec F (AddArtifact a) w e w'"
  shows "job_untouched w w' \<and> stored w' = stored w
    \<and> (e = None \<longrightarrow> (\<exists>b \<in> set (artifacts (w_db w')). art_slot b = art_slot a \<and> art_Kind b = art_Kind a
        \<and> art_ContentType b = art_ContentType a \<and> art_SizeBytes b = art_SizeBytes a))"
proof -
  let ?up = "\<lambda>i. UpsertArtifact (a\<lparr>art_ID := i\<rparr>) (\<lambda>r. Return
      (case r of Inl e \<Rightarrow> Some (wrap_prefix ''insert artifact'' e) | Inr _ \<Rightarrow> None))"
  have "\<exists>i. exec F (?up i) w e w'"
  proof (cases "art_ID a = uuid_Nil")
    case True
    then show ?thesis using assms by (auto simp: AddArtifact_def Let_def exec_step [of "NewUUID k" for k])
  next
    case False
    then have "exec F (?up (art_ID a)) w e w'" using assms by (simp add: AddArtifact_def Let_def)
    then show ?thesis by (rule exI [of _ "art_ID a"])
  qed
  then obtain i where "exec F (?up i) w e w'" by blast
  then obtain oc where "exec F (fst (step_prog oc (?up i) w)) (snd (step_prog oc (?up i) w)) e w'"
    by (rule exec_callE) simp_all
  then have
      r: "e = (case fst (faulty_sql (o_fault oc) (sql_upsert_artifact (o_now oc) (a\<lparr>art_ID := i\<rparr>)) (w_db w)) of
          Inl e \<Rightarrow> Some (wrap_prefix ''insert artifact'' e) | Inr _ \<Rightarrow> None)"
      "w' = w\<lparr>w_db := snd (faulty_sql (o_fault oc) (sql_upsert_artifact (o_now oc) (a\<lparr>art_ID := i\<rparr>)) (w_db w))\<rparr>"
    by (simp_all add: on_db_def)
  have "sql_upsert_artifact (o_now oc) (a\<lparr>art_ID := i\<rparr>) (w_db w) = (Inr (), w_db w')" if "e = None"
    using r that by (cases "o_fault oc") (auto split: sum.splits intro!: prod_eqI)
  then show ?thesis
    using r(2) upserted_artifact [of "o_now oc" "a\<lparr>art_ID := i\<rparr>" "w_db w" "w_db w'"] upsert_leaves_jobs
    by (cases "o_fault oc") (simp_all add: job_untouched_def)
qed

lemma exec_store_output:
  assumes "exec F (store_output h job steps img) w (steps', e) w'"
  shows "job_untouched w w' \<and> (e = None \<longrightarrow> output_recorded (he_lib h) job w')"
proof (cases "Encode (he_imaging h) img JPEG 90")
  case (Inl x)
  then show ?thesis using assms by (auto simp: store_output_def Transient_def)
next
  case (Inr buf)
  let ?key = "output_key (he_lib h) job" and ?n = "int (length buf)"
  obtain p w1 where put: "exec F (store_Put ?key buf ?n ''image/jpeg'') w p w1"
      and rest: "exec F (case p of Some e \<Rightarrow> Metric IncStorageError (Return (steps, Transient ''store-output'' (Some e)))
        | None \<Rightarrow> bind_prog (AddArtifact (artifact_for (he_lib h) job ?key ?n)) (\<lambda>a.
            Return (steps, Transient ''record-artifact'' a))) w1 (steps', e) w'"
    using assms Inr by (auto simp: store_output_def Let_def exec_bind)
  from put [unfolded store_Put_def] obtain oc where
      "exec F (fst (step_prog oc (MinioPut ?key buf ?n ''image/jpeg'' (\<lambda>r. Return (case r of
         Inl e \<Rightarrow> Some (wrap_keyed ''put'' ?key e) | Inr _ \<Rightarrow> None))) w))
       (snd (step_prog oc (MinioPut ?key buf ?n ''image/jpeg'' (\<lambda>r. Return (case r of
         Inl e \<Rightarrow> Some (wrap_keyed ''put'' ?key e) | Inr _ \<Rightarrow> None))) w)) p w1"
    by (rule exec_callE) simp_all
  then have "p = (case fst (faulty_write (o_fault oc) (?key, buf, ?n, ''image/jpeg'') (stored w)) of
        Inl e \<Rightarrow> Some (wrap_keyed ''put'' ?key e) | Inr _ \<Rightarrow> None)"
      "w1 = w\<lparr>stored := snd (faulty_write (o_fault oc) (?key, buf, ?n, ''image/jpeg'') (stored w))\<rparr>"
    by (simp_all add: Let_def split_beta)
  then have w1: "w_db w1 = w_db w" and stored: "p = None \<Longrightarrow> (?key, buf, ?n, ''image/jpeg'') \<in> set (stored w1)"
    by (cases "o_fault oc"; simp add: faulty_write_def)+
  show ?thesis
  proof (cases p)
    case None
    then obtain a where a: "exec F (AddArtifact (artifact_for (he_lib h) job ?key ?n)) w1 a w'"
        "e = Transient ''record-artifact'' a"
      using rest by (auto simp: exec_bind)
    note frame = exec_AddArtifact [OF a(1)]
    have "output_recorded (he_lib h) job w'" if "e = None"
    proof -
      have "a = None" using a(2) that by (simp add: Transient_def split: option.splits)
      then obtain b where "b \<in> set (artifacts (w_db w'))" "art_slot b = (job_ID job, ?key)" "art_Kind b = ''output''"
          "art_ContentType b = ''image/jpeg''" "art_SizeBytes b = ?n"
        using frame by (auto simp: artifact_for_def)
      then show ?thesis
        unfolding output_recorded_def using frame stored [OF None] by (intro bexI [of _ b]) auto
    qed
    then show ?thesis using frame w1 by (simp add: job_untouched_def)
  next
    case (Some x)
    then show ?thesis using rest w1 by (auto simp: exec_step Transient_def job_untouched_def)
  qed
qed

lemma exec_runPipeline:
  assumes "exec F (runPipeline h job) w (steps, e) w'"
    and reads: "\<And>name version pipe. he_registry h name version = Inr pipe \<Longrightarrow> stages_read (pipe_processors pipe)"
  shows "job_untouched w w' \<and> (e = None \<longrightarrow> output_recorded (he_lib h) job w')"
proof (cases "he_registry h (job_Pipeline job) (job_PipelineVersion job)")
  case (Inl x)
  then show ?thesis using assms(1) by (auto simp: runPipeline_def Permanent_def)
next
  case (Inr pipe)
  have run: "w2 = w1" if "exec F (Run pipe inp) w1 r w2" for inp w1 r w2
    using exec_run_stages [OF that [unfolded Run_def] reads [OF Inr]] .
  show ?thesis
    using assms(1) Inr
    by (auto simp: runPipeline_def exec_bind exec_case_sum exec_case_option exec_step [of "Metric m k" for m k]
        Permanent_def Transient_def dest!: exec_store_Get exec_Decode run exec_store_output split: if_splits)
qed

lemma exec_AddProcessingStep:
  assumes "exec F (AddProcessingStep s) w e w'"
  shows "\<exists>ps. w' = w\<lparr>w_db := (w_db w)\<lparr>processing_steps := ps\<rparr>\<rparr>"
proof -
  let ?ins = "\<lambda>i. InsertStep (step_row_of s i) (\<lambda>r. Return
      (case r of Inl e \<Rightarrow> Some (wrap_prefix ''insert processing step'' e) | Inr _ \<Rightarrow> None))"
  have "\<exists>i. exec F (?ins i) w e w'"
    using assms by (auto simp: AddProcessingStep_def Let_def exec_step [of "NewUUID k" for k] split: if_splits)
  then obtain i where "exec F (?ins i) w e w'" by blast
  then obtain oc where "exec F (fst (step_prog oc (?ins i) w)) (snd (step_prog oc (?ins i) w)) e w'"
    by (rule exec_callE) simp_all
  then have
      w': "w' = w\<lparr>w_db := snd (faulty_sql (o_fault oc) (sql_insert_step ((step_row_of s i)\<lparr>srow_StartedAt := o_now oc\<rparr>)) (w_db w))\<rparr>"
    by (simp_all add: on_db_def)
  have "snd (sql_insert_step sr d) = d\<lparr>processing_steps := processing_steps (snd (sql_insert_step sr d))\<rparr>" for sr d
    by (simp add: sql_insert_step_def)
  then have "snd (faulty_sql f (sql_insert_step sr) d)
      = d\<lparr>processing_steps := processing_steps (snd (faulty_sql f (sql_insert_step sr) d))\<rparr>" for f sr d
    by (cases f) simp_all
  from this [of "o_fault oc" "(step_row_of s i)\<lparr>srow_StartedAt := o_now oc\<rparr>" "w_db w"] show ?thesis
    unfolding w' by (intro exI) (rule arg_cong [where f = "\<lambda>d. w\<lparr>w_db := d\<rparr>"])
qed

lemma exec_persistSteps:
  "exec F (persistSteps attempt ss) w u w' \<Longrightarrow> \<exists>ps. w' = w\<lparr>w_db := (w_db w)\<lparr>processing_steps := ps\<rparr>\<rparr>"
proof (induction ss arbitrary: w)
  case Nil
  then show ?case by (auto intro: exI [of _ "processing_steps (w_db w)"])
next
  case (Cons s ss)
  then show ?case by (fastforce simp: exec_step exec_bind dest!: exec_AddProcessingStep)
qed

section \<open>Finishing a successful attempt\<close>

definition succeeded_attempt :: "time \<Rightarrow> attempt \<Rightarrow> attempt" where
  "succeeded_attempt t a = a\<lparr>att_Status := AttemptSucceeded, att_Error := [], att_FinishedAt := Some t\<rparr>"

lemma exec_finalizeSuccess:
  assumes "wf_db (w_db w)" and "job_of (w_db w) (job_ID job) = Some cur"
    and "job_Status cur = StatusProcessing \<or> job_Status cur = StatusCancelled"
    and "row_of att_ID (att_ID attempt) (attempts (w_db w)) \<noteq> None"
    and ex: "exec faultless (finalizeSuccess job attempt) w r w'"
  shows "\<exists>j' t. settle r = Ack \<and> job_of (w_db w') (job_ID job) = Some j'
    \<and> (\<forall>k. k \<noteq> job_ID job \<longrightarrow> job_of (w_db w') k = job_of (w_db w) k)
    \<and> attempts (w_db w') = map_row att_ID (att_ID attempt) (succeeded_attempt t) (attempts (w_db w))
    \<and> artifacts (w_db w') = artifacts (w_db w) \<and> stored w' = stored w
    \<and> same_origin cur j' \<and> job_AttemptCount j' = job_AttemptCount cur
    \<and> (if job_Status cur = StatusCancelled then j' = cur else job_Status j' = StatusCompleted)"
proof -
  obtain x w1 where f: "exec faultless (FinishAttempt (att_ID attempt) AttemptSucceeded []) w x w1"
      and g: "exec faultless (case x of Some _ \<Rightarrow> Return (decide Retry)
        | None \<Rightarrow> bind_prog (UpdateJobStatus (job_ID job) StatusProcessing (JobUpdate StatusCompleted)) (\<lambda>u.
            case u of Inl e \<Rightarrow> Return (decide (if errors_Is ErrConflict e then Complete else Retry))
            | Inr _ \<Rightarrow> Metric IncJobsCompleted (Return (decide Complete)))) w1 r w'"
    using ex by (auto simp: finalizeSuccess_def exec_bind)
  from f assms(4) obtain t where w1: "x = None" "jobs (w_db w1) = jobs (w_db w)" "stored w1 = stored w"
      "artifacts (w_db w1) = artifacts (w_db w)"
      "attempts (w_db w1) = map_row att_ID (att_ID attempt) (succeeded_attempt t) (attempts (w_db w))"
    by (auto simp: exec_FinishAttempt sql_finish_attempt_def succeeded_attempt_def [abs_def])
  have wf1: "wf_db (w_db w1)" by (rule exec_wf [OF f assms(1)])
  have job1: "job_of (w_db w1) (job_ID job) = Some cur" using assms(2) w1(2) by simp
  have upd: "upd_To (JobUpdate StatusCompleted) = StatusCompleted" "\<not> upd_IncAttempt (JobUpdate StatusCompleted)"
    by (simp_all add: JobUpdate_def)
  obtain u w2 where u: "exec faultless (UpdateJobStatus (job_ID job) StatusProcessing (JobUpdate StatusCompleted)) w1 u w2"
      and r: "exec faultless (case u of Inl e \<Rightarrow> Return (decide (if errors_Is ErrConflict e then Complete else Retry))
            | Inr _ \<Rightarrow> Metric IncJobsCompleted (Return (decide Complete))) w2 r w'"
    using g w1(1) by (auto simp: exec_bind)
  show ?thesis
  proof (cases "job_Status cur = StatusCancelled")
    case True
    then have "u = Inl (Sentinel ErrConflict)" "w2 = w1"
      using u exec_UpdateJobStatus_miss [where st = StatusProcessing and u = "JobUpdate StatusCompleted" and w = w1
        and i = "job_ID job"] job1 upd(1)
      by simp_all
    then have "settle r = Ack" "w' = w1" using r by (simp_all add: decide_def)
    then show ?thesis using True job1 w1 by (intro exI [of _ cur] exI [of _ t]) (simp add: same_origin_def)
  next
    case False
    then have st: "job_Status cur = StatusProcessing" using assms(3) by simp
    from exec_update_becomes [OF u wf1 job1 st] upd obtain now where
        now: "u = Inr (updated_row now (JobUpdate StatusCompleted) cur)"
          "job_becomes (job_ID job) (updated_row now (JobUpdate StatusCompleted) cur) w1 w2"
      by auto
    obtain j1 where j1_def: "j1 = updated_row now (JobUpdate StatusCompleted) cur" by blast
    have j1: "u = Inr j1" "job_becomes (job_ID job) j1 w1 w2" "same_origin cur j1"
      unfolding j1_def by (rule now job_becomes_origin)+
    have j1_row: "job_Status j1 = StatusCompleted" "job_AttemptCount j1 = job_AttemptCount cur"
      unfolding j1_def by (simp_all add: updated_row_def JobUpdate_def)
    from r j1(1) have "settle r = Ack" and w': "w' = w2\<lparr>metrics := metrics w2 @ [IncJobsCompleted]\<rparr>"
      by (auto simp: exec_step decide_def)
    moreover have "job_of (w_db w') k = (if k = job_ID job then Some j1 else job_of (w_db w) k)" for k
      using j1(2) w1(2) unfolding w' by (simp add: job_becomes_def del: job_becomes_lookup)
    moreover have "attempts (w_db w') = attempts (w_db w1)" "artifacts (w_db w') = artifacts (w_db w1)"
        "stored w' = stored w1"
      using j1(2) unfolding w' by (simp_all add: job_becomes_def same_but_jobs_def del: job_becomes_lookup)
    ultimately show ?thesis
      using False w1(3-5) j1(3) j1_row by (intro exI [of _ j1] exI [of _ t] conjI) (simp_all del: settle.simps)
  qed
qed

section \<open>Claiming in a reachable state\<close>

text \<open>Replies without faults, and with attempt ids that are not taken.\<close>

definition fresh_replies :: "db \<Rightarrow> outside \<Rightarrow> bool" where
  "fresh_replies d oc \<longleftrightarrow> faultless oc \<and> row_of att_ID (o_uuid oc) (attempts d) = None"

lemma fresh_faultless: "fresh_replies d oc \<Longrightarrow> faultless oc"
  by (simp add: fresh_replies_def)

lemma exec_fresh: "exec (fresh_replies d) p w r w' \<Longrightarrow> exec faultless p w r w'"
  by (erule exec_mono) (rule fresh_faultless)

lemma claim_succeeds:
  assumes "reachable dep s" and job: "job_of (sys_db s) i = Some j" "job_Status j = StatusQueued"
    and "row_of att_ID aid (attempts (sys_db s)) = None"
  shows "\<exists>d'. tx_claim now i aid (sys_db s)
    = (Inr (Some (claimed_row now j, new_attempt_row now aid (claimed_row now j))), d')"
proof -
  let ?d = "sys_db s" and ?j = "claimed_row now j"
  have wf: "wf_db ?d" by (rule reachable_wf [OF assms(1)])
  have fits: "job_fits \<lparr>jv_status = job_Status j, jv_count = job_AttemptCount j, jv_max = job_MaxAttempts j,
      jv_attempts = map att_Number (attempts_of ?d i)\<rparr>"
    by (rule reachable_fits [OF assms(1) view_job_of [OF job(1)]])
  have valid: "job_row_valid j" using wf row_of_SomeD [OF job(1)] by (simp add: wf_db_def wf_jobs_def list_all_iff)
  have ID: "job_ID j = i" by (rule row_of_key [OF job(1)])
  obtain d' where g: "guarded_update i StatusQueued (claimed_row now) ?d = (Some ?j, d')"
      and d': "attempts d' = attempts ?d" "job_of d' i = Some ?j"
    using job guarded_update_frame(1) [of i StatusQueued "claimed_row now" ?d]
      job_of_guarded_update [OF keeps_ID_rows(2), where k = i and s = StatusQueued and d = ?d and i = i and k = i and now1 = now]
    by (cases "guarded_update i StatusQueued (claimed_row now) ?d") (auto simp: guarded_update_def)
  have "job_row_ok ?j = None"
    using fits valid job(2) by (auto simp: job_row_ok_def job_row_valid_def claimed_row_def job_fits_def fits_int32_def)
  moreover have "att_Number (new_attempt_row now aid ?j) \<notin> att_Number ` set (attempts_of ?d i)"
    using fits by (auto simp: job_fits_def new_attempt_row_def claimed_row_def simp flip: set_map)
  then have "sql_insert_attempt (new_attempt_row now aid ?j) d'
      = (Inr (), d'\<lparr>attempts := attempts d' @ [new_attempt_row now aid ?j]\<rparr>)"
    using assms(4) d' fits ID
    by (simp add: sql_insert_attempt_def attempts_of_def new_attempt_row_def claimed_row_def job_fits_def)
  ultimately show ?thesis using g by (simp add: tx_claim_def Let_def)
qed

lemma exec_BeginAttempt_fresh:
  assumes "reachable dep s" and job: "job_of (sys_db s) i = Some j" "job_Status j = StatusQueued"
    and "w_db w = sys_db s" and "exec (fresh_replies (sys_db s)) (BeginAttempt i) w r w'"
  shows "\<exists>now aid d'. r = Inr (claimed_row now j, new_attempt_row now aid (claimed_row now j))
    \<and> w' = w\<lparr>w_db := d'\<rparr> \<and> row_of att_ID aid (attempts (sys_db s)) = None \<and> artifacts d' = artifacts (sys_db s)
    \<and> (\<forall>k. job_of d' k = (if k = i then Some (claimed_row now j) else job_of (sys_db s) k))
    \<and> attempts d' = attempts (sys_db s) @ [new_attempt_row now aid (claimed_row now j)]"
proof -
  obtain oc where oc: "fresh_replies (sys_db s) oc"
      and "exec (fresh_replies (sys_db s)) (fst (step_prog oc (BeginAttempt i) w)) (snd (step_prog oc (BeginAttempt i) w)) r w'"
    by (rule exec_callE [OF assms(5)]) (simp_all add: BeginAttempt_def)
  then have "exec (fresh_replies (sys_db s)) (fst (step_prog oc (BeginAttempt i) w)) w r w'"
    by (simp add: BeginAttempt_def)
  then obtain oc' where "fresh_replies (sys_db s) oc'"
      and claim: "exec (fresh_replies (sys_db s)) (fst (step_prog oc' (fst (step_prog oc (BeginAttempt i) w)) w))
        (snd (step_prog oc' (fst (step_prog oc (BeginAttempt i) w)) w)) r w'"
    by (rule exec_callE) (simp_all add: BeginAttempt_def)
  then have aid: "row_of att_ID (o_uuid oc) (attempts (sys_db s)) = None" and "faultless oc'"
    using oc by (simp_all add: fresh_replies_def)
  obtain d' where c: "tx_claim (o_now oc') i (o_uuid oc) (sys_db s)
      = (Inr (Some (claimed_row (o_now oc') j, new_attempt_row (o_now oc') (o_uuid oc) (claimed_row (o_now oc') j))), d')"
    using claim_succeeds [OF assms(1) job aid] by blast
  have after: "\<forall>k. job_of d' k = (if k = i then Some (claimed_row (o_now oc') j) else job_of (sys_db s) k)"
      "attempts d' = attempts (sys_db s) @ [new_attempt_row (o_now oc') (o_uuid oc) (claimed_row (o_now oc') j)]"
    using job_of_claim [OF c] by blast+
  have "artifacts d' = artifacts (sys_db s)"
    using c by (auto simp: tx_claim_def guarded_update_def sql_insert_attempt_def Let_def
        split: option.splits sum.splits prod.splits if_splits)
  then show ?thesis
    using claim c assms(4) \<open>faultless oc'\<close> after aid
    by (intro exI [of _ "o_now oc'"] exI [of _ "o_uuid oc"] exI [of _ d']) (simp add: BeginAttempt_def on_db_def)
qed

section \<open>From the claim to the settlement\<close>

lemma worker_env_sels [simp]: "he_lib (worker_env dep) = svc_lib (dep_service dep)"
    and worker_env_registry: "he_registry (worker_env dep) = registry_Get (default_registry (dep_imaging dep))"
  by (simp_all add: worker_env_def)

text \<open>Where a delivery of a QUEUED job can end.\<close>

definition ends_as :: "library \<Rightarrow> job \<Rightarrow> attempt \<Rightarrow> settlement \<Rightarrow> world \<Rightarrow> bool" where
  "ends_as lib j a out w \<longleftrightarrow>
     (job_Status j = StatusCompleted \<and> out = Ack \<and> att_Status a = AttemptSucceeded \<and> output_recorded lib j w)
   \<or> (job_Status j = StatusFailed \<and> out = Ack \<and> att_Status a \<in> {AttemptFailed, AttemptCancelled} \<and> job_LastError j = att_Error a)
   \<or> (job_Status j = StatusQueued \<and> job_AttemptCount j < job_MaxAttempts j \<and> job_NextRetryAt j = None
        \<and> job_LastError j = att_Error a \<and> att_Status a \<in> {AttemptFailed, AttemptCancelled}
        \<and> (\<exists>d. out = Nak d \<and> Second \<le> d \<and> d \<le> Minute))"

lemma exec_finish_processing:
  assumes "wf_db (w_db w)" and job: "job_of (w_db w) (job_ID job) = Some job" "job_Status job = StatusProcessing"
    and att: "row_of att_ID (att_ID attempt) (attempts (w_db w)) \<noteq> None"
    and rec: "procErr = None \<Longrightarrow> output_recorded lib job w"
    and ex: "exec faultless (case procErr of None \<Rightarrow> finalizeSuccess job attempt | Some e \<Rightarrow> finalizeFailure job attempt e) w r w'"
  shows "\<exists>j' f. job_of (w_db w') (job_ID job) = Some j' \<and> same_origin job j' \<and> job_AttemptCount j' = job_AttemptCount job
    \<and> (\<forall>k. k \<noteq> job_ID job \<longrightarrow> job_of (w_db w') k = job_of (w_db w) k)
    \<and> attempts (w_db w') = map_row att_ID (att_ID attempt) f (attempts (w_db w))
    \<and> (\<forall>a. att_ID (f a) = att_ID a \<and> att_JobID (f a) = att_JobID a \<and> att_Number (f a) = att_Number a
         \<and> ends_as lib j' (f a) (settle r) w')
    \<and> (procErr = None \<longrightarrow> job_Status j' = StatusCompleted)"
proof (cases procErr)
  case None
  with ex have "exec faultless (finalizeSuccess job attempt) w r w'" by simp
  from exec_finalizeSuccess [OF assms(1) job(1) disjI1 [OF job(2)] att this] obtain j' t where
      b: "settle r = Ack" "job_of (w_db w') (job_ID job) = Some j'"
        "\<forall>k. k \<noteq> job_ID job \<longrightarrow> job_of (w_db w') k = job_of (w_db w) k"
        "attempts (w_db w') = map_row att_ID (att_ID attempt) (succeeded_attempt t) (attempts (w_db w))"
        "artifacts (w_db w') = artifacts (w_db w)" "stored w' = stored w"
        "same_origin job j'" "job_AttemptCount j' = job_AttemptCount job" "job_Status j' = StatusCompleted"
    using job(2) by (auto simp del: settle.simps)
  have "output_recorded lib j' w'"
    using rec [OF None] b(5-7) by (simp add: output_recorded_def output_key_def same_origin_def)
  then show ?thesis
    using b by (intro exI [of _ j'] exI [of _ "succeeded_attempt t"])
      (simp add: ends_as_def succeeded_attempt_def [abs_def] del: settle.simps)
next
  case (Some e)
  with ex have "exec faultless (finalizeFailure job attempt e) w r w'" by simp
  from exec_finalizeFailure [OF assms(1) job(1) disjI1 [OF job(2)] this] obtain j' t where
      b: "job_of (w_db w') (job_ID job) = Some j'"
        "\<forall>k. k \<noteq> job_ID job \<longrightarrow> job_of (w_db w') k = job_of (w_db w) k"
        "attempts (w_db w') = map_row att_ID (att_ID attempt) (finished_attempt t e) (attempts (w_db w))"
        "same_origin job j'" "job_AttemptCount j' = job_AttemptCount job"
        "if IsPermanent (Some e) \<or> \<not> CanRetry job
         then settle r = Ack \<and> job_Status j' = StatusFailed \<and> job_LastError j' = Error e
         else job_Status j' = StatusQueued \<and> job_LastError j' = Error e \<and> job_NextRetryAt j' = None
           \<and> (\<exists>d. settle r = Nak d \<and> Second \<le> d \<and> d \<le> Minute)"
    using job(2) by (auto simp del: settle.simps)
  have "ends_as lib j' (finished_attempt t e a) (settle r) w'" for a
    using b(4-6) by (auto simp: ends_as_def finished_attempt_def CanRetry_def same_origin_def simp del: settle.simps split: if_splits)
  then show ?thesis
    using b(1-5) Some by (intro exI [of _ j'] exI [of _ "finished_attempt t e"])
      (simp add: finished_attempt_def del: settle.simps)
qed

lemmas panic_free_parts =
  panic_free_takes [OF finishes_repository(1)] panic_free_takes [OF finishes_BeginAttempt]
  panic_free_takes [OF finishes_store_Get] panic_free_takes [OF finishes_Decode]
  panic_free_takes [OF finishes_store(2)] panic_free_takes [OF finishes_repository(6)]
  panic_free_takes [OF finishes_persistSteps] panic_free_takes [OF finishes_finalizeSuccess]
  panic_free_takes [OF finishes_finalizeFailure]

lemma panic_free_store_output: "panic_free (store_output h job steps img)"
  by (auto simp: store_output_def Let_def intro!: panic_free.intros(1) panic_free_prims panic_free_bind panic_free_parts
      split: sum.split option.split)

lemma panic_free_runPipeline:
  "(\<And>name version pipe. he_registry h name version = Inr pipe \<Longrightarrow> stages_read (pipe_processors pipe))
    \<Longrightarrow> panic_free (runPipeline h job)"
  by (auto simp: runPipeline_def Run_def intro!: panic_free.intros(1) panic_free_prims panic_free_bind panic_free_parts
      panic_free_run_stages panic_free_store_output split: sum.split option.split)

lemma panic_free_Handle: "panic_free (Handle (worker_env dep) msg)"
  by (auto simp: Handle_def process_claimed_def intro!: panic_free.intros(1) panic_free_prims panic_free_bind
      panic_free_parts panic_free_runPipeline worker_registry split: sum.split option.split)

lemma exec_process:
  assumes "json_Unmarshal (svc_lib (dep_service dep)) payload = Some msg"
    and "exec F (process (worker_env dep) payload) w out w'"
  shows "\<exists>r w1. exec F (Handle (worker_env dep) msg) (w\<lparr>metrics := metrics w @ [WorkerStarted]\<rparr>) r w1
    \<and> out = settle r \<and> w' = w1\<lparr>metrics := metrics w1 @ [WorkerFinished]\<rparr>"
proof -
  obtain r w1 where "exec F (handleWithRecovery (worker_env dep) msg) (w\<lparr>metrics := metrics w @ [WorkerStarted]\<rparr>) r w1"
      "out = settle r" "w' = w1\<lparr>metrics := metrics w1 @ [WorkerFinished]\<rparr>"
    using assms by (auto simp: process_def exec_step exec_bind simp del: settle.simps)
  then show ?thesis
    unfolding handleWithRecovery_def using exec_recover [OF _ refl panic_free_Handle] by blast
qed

text \<open>A run of the pipeline that can only end without an error.\<close>

definition clean_run :: "(outside \<Rightarrow> bool) \<Rightarrow> 'img handler_env \<Rightarrow> job \<Rightarrow> db \<Rightarrow> bool" where
  "clean_run F h job d \<longleftrightarrow> (\<forall>w steps e w'. w_db w = d \<longrightarrow> exec F (runPipeline h job) w (steps, e) w' \<longrightarrow> e = None)"

lemma exec_process_claimed:
  assumes "wf_db (w_db w)" and job: "job_of (w_db w) (job_ID job) = Some job" "job_Status job = StatusProcessing"
    and att: "row_of att_ID (att_ID attempt) (attempts (w_db w)) \<noteq> None"
    and F: "\<And>oc. F oc \<Longrightarrow> faultless oc"
    and ex: "exec F (process_claimed (worker_env dep) job attempt) w r w'"
  shows "\<exists>j' f. job_of (w_db w') (job_ID job) = Some j' \<and> same_origin job j' \<and> job_AttemptCount j' = job_AttemptCount job
    \<and> (\<forall>k. k \<noteq> job_ID job \<longrightarrow> job_of (w_db w') k = job_of (w_db w) k)
    \<and> attempts (w_db w') = map_row att_ID (att_ID attempt) f (attempts (w_db w))
    \<and> (\<forall>a. att_ID (f a) = att_ID a \<and> att_JobID (f a) = att_JobID a \<and> att_Number (f a) = att_Number a
         \<and> ends_as (svc_lib (dep_service dep)) j' (f a) (settle r) w')
    \<and> (clean_run F (worker_env dep) job (w_db w) \<longrightarrow> job_Status j' = StatusCompleted)"
proof -
  obtain w0 w1 w2 u ms ms' steps procErr where w0: "w0 = w\<lparr>metrics := ms\<rparr>"
      and run: "exec F (runPipeline (worker_env dep) job) w0 (steps, procErr) w1"
      and persisted: "exec F (persistSteps attempt steps) (w1\<lparr>metrics := ms'\<rparr>) u w2"
      and finished: "exec F (case procErr of None \<Rightarrow> finalizeSuccess job attempt
        | Some e \<Rightarrow> finalizeFailure job attempt e) w2 r w'"
    using ex by (auto simp: process_claimed_def exec_step exec_bind split_beta)
  note finish = exec_mono [OF finished F]
  have "w_db w0 = w_db w" using w0 by simp
  then have clean: "clean_run F (worker_env dep) job (w_db w) \<Longrightarrow> procErr = None"
    using run unfolding clean_run_def by blast
  have ran: "job_untouched w w1" "procErr = None \<Longrightarrow> output_recorded (svc_lib (dep_service dep)) job w1"
    using exec_runPipeline [OF run worker_registry] w0 by auto
  obtain ps where w2: "w2 = w1\<lparr>metrics := ms', w_db := (w_db w1)\<lparr>processing_steps := ps\<rparr>\<rparr>"
    using exec_persistSteps [OF persisted] by auto
  have wf: "wf_db (w_db w2)"
    using exec_wf [OF persisted] exec_wf [OF run] assms(1) w0 by simp
  have "jobs (w_db w2) = jobs (w_db w)" "attempts (w_db w2) = attempts (w_db w)"
      "procErr = None \<Longrightarrow> output_recorded (svc_lib (dep_service dep)) job w2"
    using ran w2 by (simp_all add: job_untouched_def output_recorded_def)
  then show ?thesis
    using exec_finish_processing [OF wf _ job(2) _ _ finish, of "svc_lib (dep_service dep)"] job(1) att clean
    by (simp del: settle.simps) blast
qed

section \<open>A delivery of a QUEUED job\<close>

lemma exec_Handle_claimed:
  assumes "uuid_Parse (svc_lib (dep_service dep)) (msg_JobID msg) = Some i"
    and job: "job_of (w_db w) i = Some j" "job_Status j = StatusQueued"
    and "exec F (Handle (worker_env dep) msg) w r w'" and F: "\<And>oc. F oc \<Longrightarrow> faultless oc"
  shows "\<exists>b w1. exec F (BeginAttempt i) w b w1
    \<and> exec F (case b of Inl e \<Rightarrow> Return (decide (if errors_Is ErrConflict e then Complete else Retry))
         | Inr (job, attempt) \<Rightarrow> process_claimed (worker_env dep) job attempt) w1 r w'"
proof -
  obtain g w0 where g: "exec F (GetJob i) w g w0"
      and rest: "exec F (case g of Inl e \<Rightarrow> Return (decide (if errors_Is ErrNotFound e then Discard else Retry))
        | Inr job \<Rightarrow> if IsTerminal (job_Status job) then Return (decide Complete)
            else bind_prog (BeginAttempt i) (\<lambda>b. case b of
              Inl e \<Rightarrow> Return (decide (if errors_Is ErrConflict e then Complete else Retry))
            | Inr (job, attempt) \<Rightarrow> process_claimed (worker_env dep) job attempt)) w0 r w'"
    using assms(1,4) by (auto simp: Handle_def exec_bind)
  have "g = Inr j" "w0 = w"
    using exec_mono [where G = faultless, OF g F] job(1) by (auto simp: exec_GetJob)
  then show ?thesis using rest job(2) by (auto simp: exec_bind)
qed

lemma exec_delivery_runs:
  assumes "reachable dep s" and "json_Unmarshal (svc_lib (dep_service dep)) payload = Some msg"
    and "uuid_Parse (svc_lib (dep_service dep)) (msg_JobID msg) = Some i"
    and job: "job_of (sys_db s) i = Some j" "job_Status j = StatusQueued"
    and F: "\<And>oc. F oc \<Longrightarrow> fresh_replies (sys_db s) oc"
    and ex: "exec F (process (worker_env dep) payload) (sys_world s) out w'"
  shows "\<exists>j' a. job_of (w_db w') i = Some j' \<and> same_origin j j' \<and> job_AttemptCount j' = job_AttemptCount j + 1
    \<and> (\<forall>k. k \<noteq> i \<longrightarrow> job_of (w_db w') k = job_of (sys_db s) k)
    \<and> attempts (w_db w') = attempts (sys_db s) @ [a] \<and> att_JobID a = i \<and> att_Number a = job_AttemptCount j'
    \<and> ends_as (svc_lib (dep_service dep)) j' a out w'
    \<and> ((\<forall>now d. job_of d i = Some (claimed_row now j) \<longrightarrow> artifacts d = artifacts (sys_db s)
           \<longrightarrow> clean_run F (worker_env dep) (claimed_row now j) d) \<longrightarrow> job_Status j' = StatusCompleted)"
proof -
  let ?lib = "svc_lib (dep_service dep)" and ?w = "(sys_world s)\<lparr>metrics := metrics (sys_world s) @ [WorkerStarted]\<rparr>"
  have Ff: "faultless oc" if "F oc" for oc by (rule fresh_faultless [OF F [OF that]])
  obtain r w2 where handle: "exec F (Handle (worker_env dep) msg) ?w r w2"
      and out: "out = settle r" "w' = w2\<lparr>metrics := metrics w2 @ [WorkerFinished]\<rparr>"
    using exec_process [OF assms(2) ex] by blast
  obtain b w1 where claim: "exec F (BeginAttempt i) ?w b w1"
      and rest: "exec F (case b of
          Inl e \<Rightarrow> Return (decide (if errors_Is ErrConflict e then Complete else Retry))
        | Inr (job, attempt) \<Rightarrow> process_claimed (worker_env dep) job attempt) w1 r w2"
    using exec_Handle_claimed [OF assms(3) _ job(2) handle Ff] job(1) by auto
  from exec_BeginAttempt_fresh [OF assms(1) job _ exec_mono [OF claim F]] obtain now aid d' where
      b: "b = Inr (claimed_row now j, new_attempt_row now aid (claimed_row now j))" and w1: "w1 = ?w\<lparr>w_db := d'\<rparr>"
      and aid: "row_of att_ID aid (attempts (sys_db s)) = None" and arts: "artifacts d' = artifacts (sys_db s)"
      and d': "\<forall>k. job_of d' k = (if k = i then Some (claimed_row now j) else job_of (sys_db s) k)"
        "attempts d' = attempts (sys_db s) @ [new_attempt_row now aid (claimed_row now j)]"
    by auto
  have row: "job_ID (claimed_row now j) = i" "job_Status (claimed_row now j) = StatusProcessing"
      "job_AttemptCount (claimed_row now j) = job_AttemptCount j + 1" "same_origin j (claimed_row now j)"
    using row_of_key [OF job(1)] by (simp_all add: claimed_row_def same_origin_def)
  have att: "att_ID (new_attempt_row now aid (claimed_row now j)) = aid"
      "att_JobID (new_attempt_row now aid (claimed_row now j)) = i"
      "att_Number (new_attempt_row now aid (claimed_row now j)) = job_AttemptCount j + 1"
    using row by (simp_all add: new_attempt_row_def)
  have wf: "wf_db (w_db w1)" using exec_wf [OF claim] reachable_wf [OF assms(1)] by simp
  have "exec F (process_claimed (worker_env dep) (claimed_row now j) (new_attempt_row now aid (claimed_row now j))) w1 r w2"
    using rest b by simp
  from exec_process_claimed [OF wf _ row(2) _ Ff this] obtain j' f where
      fin: "job_of (w_db w2) i = Some j'" "same_origin (claimed_row now j) j'" "job_AttemptCount j' = job_AttemptCount j + 1"
        "\<forall>k. k \<noteq> i \<longrightarrow> job_of (w_db w2) k = job_of d' k"
        "attempts (w_db w2) = map_row att_ID aid f (attempts d')"
        "\<forall>a. att_ID (f a) = att_ID a \<and> att_JobID (f a) = att_JobID a \<and> att_Number (f a) = att_Number a
           \<and> ends_as ?lib j' (f a) (settle r) w2"
        "clean_run F (worker_env dep) (claimed_row now j) d' \<longrightarrow> job_Status j' = StatusCompleted"
    using d' row att w1 aid by (auto simp: row_of_append simp del: settle.simps)
  have "map_row att_ID aid f (attempts (sys_db s)) = attempts (sys_db s)"
    using aid by (auto simp: map_row_def row_of_None_iff image_iff intro!: map_idI)
  then have "attempts (w_db w2) = attempts (sys_db s) @ [f (new_attempt_row now aid (claimed_row now j))]"
    using fin(5) d'(2) att(1) by (simp add: map_row_def)
  moreover have "same_origin j j'" using row(4) fin(2) by (simp add: same_origin_def)
  moreover have "ends_as ?lib j' a (settle r) w'" if "ends_as ?lib j' a (settle r) w2" for a
    using that out(2) by (simp add: ends_as_def output_recorded_def)
  ultimately show ?thesis
    using fin d'(1) att out arts by (intro exI [of _ j'] exI [of _ "f (new_attempt_row now aid (claimed_row now j))"])
      (simp del: settle.simps)
qed

lemma exec_delivery:
  assumes "reachable dep s" and "json_Unmarshal (svc_lib (dep_service dep)) payload = Some msg"
    and "uuid_Parse (svc_lib (dep_service dep)) (msg_JobID msg) = Some i"
    and "job_of (sys_db s) i = Some j" "job_Status j = StatusQueued"
    and "exec (fresh_replies (sys_db s)) (process (worker_env dep) payload) (sys_world s) out w'"
  shows "\<exists>j' a. job_of (w_db w') i = Some j' \<and> same_origin j j' \<and> job_AttemptCount j' = job_AttemptCount j + 1
    \<and> (\<forall>k. k \<noteq> i \<longrightarrow> job_of (w_db w') k = job_of (sys_db s) k)
    \<and> attempts (w_db w') = attempts (sys_db s) @ [a] \<and> att_JobID a = i \<and> att_Number a = job_AttemptCount j'
    \<and> ends_as (svc_lib (dep_service dep)) j' a out w'"
  using exec_delivery_runs [OF assms(1-5) _ assms(6)] by blast


section \<open>Deliveries that change nothing\<close>

lemma exec_BeginAttempt_conflict:
  assumes "job_of (w_db w) i = Some j" and "job_Status j \<noteq> StatusQueued" and "exec faultless (BeginAttempt i) w r w'"
  shows "r = Inl (Sentinel ErrConflict) \<and> w' = w"
proof -
  have "guarded_update i StatusQueued (claimed_row now) (w_db w) = (None, w_db w)" for now
    using assms(1,2) by (intro job_store.cas_miss) simp
  then have miss: "tx_claim now i aid (w_db w) = (Inr None, w_db w)" for now aid
    by (simp add: tx_claim_def)
  obtain oc where "exec faultless (fst (step_prog oc (BeginAttempt i) w)) w r w'"
    by (rule exec_callE [OF assms(3)]) (simp_all add: BeginAttempt_def)
  then obtain oc' where "faultless oc'" "exec faultless (fst (step_prog oc' (fst (step_prog oc (BeginAttempt i) w)) w))
        (snd (step_prog oc' (fst (step_prog oc (BeginAttempt i) w)) w)) r w'"
    by (rule exec_callE) (simp_all add: BeginAttempt_def)
  then show ?thesis
    using assms(1) by (simp add: BeginAttempt_def on_db_def miss exec_bind exec_classify)
qed

text \<open>A message whose job is not QUEUED, or that names no job.\<close>

definition names_no_queued_job :: "library \<Rightarrow> string \<Rightarrow> db \<Rightarrow> bool" where
  "names_no_queued_job lib payload d \<longleftrightarrow>
     (\<forall>msg i j. json_Unmarshal lib payload = Some msg \<longrightarrow> uuid_Parse lib (msg_JobID msg) = Some i
        \<longrightarrow> job_of d i = Some j \<longrightarrow> job_Status j \<noteq> StatusQueued)"

definition names_a_job :: "library \<Rightarrow> string \<Rightarrow> db \<Rightarrow> bool" where
  "names_a_job lib payload d \<longleftrightarrow> (case json_Unmarshal lib payload of None \<Rightarrow> False
     | Some msg \<Rightarrow> (case uuid_Parse lib (msg_JobID msg) of None \<Rightarrow> False | Some i \<Rightarrow> job_of d i \<noteq> None))"

lemma exec_redelivery:
  assumes idle: "names_no_queued_job (svc_lib (dep_service dep)) payload (w_db w)"
    and ex: "exec faultless (process (worker_env dep) payload) w out w'"
  shows "out = (if names_a_job (svc_lib (dep_service dep)) payload (w_db w) then Ack else Term)
    \<and> w_db w' = w_db w \<and> published w' = published w \<and> stored w' = stored w"
proof (cases "json_Unmarshal (svc_lib (dep_service dep)) payload")
  case None
  then show ?thesis using ex by (auto simp: process_def names_a_job_def)
next
  case (Some msg)
  let ?w = "w\<lparr>metrics := metrics w @ [WorkerStarted]\<rparr>"
  obtain r w1 where handle: "exec faultless (Handle (worker_env dep) msg) ?w r w1"
      and out: "out = settle r" "w' = w1\<lparr>metrics := metrics w1 @ [WorkerFinished]\<rparr>"
    using exec_process [OF Some ex] by blast
  have "settle r = (if names_a_job (svc_lib (dep_service dep)) payload (w_db w) then Ack else Term) \<and> w1 = ?w"
  proof (cases "uuid_Parse (svc_lib (dep_service dep)) (msg_JobID msg)")
    case None
    then show ?thesis using handle Some by (simp add: Handle_def names_a_job_def decide_def)
  next
    case id: (Some i)
    show ?thesis
    proof (cases "job_of (w_db w) i")
      case None
      then show ?thesis using handle id Some by (simp add: Handle_def exec_bind exec_GetJob names_a_job_def decide_def)
    next
      case job: (Some j)
      then have "job_Status j \<noteq> StatusQueued" using idle Some id by (simp add: names_no_queued_job_def)
      with job have conflict: "exec faultless (BeginAttempt i) ?w b w2 \<Longrightarrow> b = Inl (Sentinel ErrConflict) \<and> w2 = ?w" for b w2
        by (intro exec_BeginAttempt_conflict) simp_all
      show ?thesis
        using handle id job Some
        by (auto simp: Handle_def exec_bind exec_GetJob names_a_job_def decide_def dest!: conflict split: if_splits)
    qed
  qed
  then show ?thesis using out by simp
qed


lemma claimed_idle: "names_no_queued_job demo_lib payload (w_db (sys_world claimed_system))"
proof -
  have "i = 1" if "uuid_Parse demo_lib x = Some i" for x i
    using that by (simp add: demo_lib_def split: if_splits)
  then show ?thesis unfolding names_no_queued_job_def by (fastforce simp: demo_states)
qed

lemma delivery_ends: "\<exists>out w'. exec faultless (process (worker_env dep) payload) w out w'"
  by (rule takes_ex_faultless [OF takes_any [OF takes_process [OF default_registry_takes]]]) (simp add: worker_env_def)


text \<open>
  The other side of it: a job whose worker died after the claim stays PROCESSING with an
  attempt left although nobody works on it, because every delivery of it is acked.
\<close>

lemma orphaned_job_stays_processing:
  "reachable demo_dep claimed_system \<and> (\<forall>t p. sys_threads claimed_system t = Some p \<longrightarrow> is_done p)
   \<and> job_of (sys_db claimed_system) 1 = Some claimed_job \<and> job_Status claimed_job = StatusProcessing \<and> CanRetry claimed_job
   \<and> (\<forall>payload out w'. exec faultless (process (worker_env demo_dep) payload) (sys_world claimed_system) out w'
        \<longrightarrow> out \<in> {Ack, Term} \<and> w_db w' = sys_db claimed_system)"
proof -
  have "\<forall>t p. sys_threads claimed_system t = Some p \<longrightarrow> is_done p"
    by (simp add: claimed_system_def)
  moreover have "out \<in> {Ack, Term} \<and> w_db w' = sys_db claimed_system"
    if "exec faultless (process (worker_env demo_dep) payload) (sys_world claimed_system) out w'" for payload out w'
    using exec_redelivery [OF _ that] claimed_idle by simp
  ultimately show ?thesis
    using reachable_claimed claimed_world by blast
qed


section \<open>A successful attempt\<close>

text \<open>
  C22. What finishing a successful attempt does, when the database answers: the attempt's row
  is closed as SUCCEEDED and the delivery acked; the job, if it is still PROCESSING, becomes
  COMPLETED, and stays as it is if it was cancelled meanwhile. No other job, artifact or
  object changes.
\<close>

theorem finalizeSuccess_spec:
  assumes "wf_db (w_db w)" and "job_of (w_db w) (job_ID job) = Some cur"
    and "job_Status cur = StatusProcessing \<or> job_Status cur = StatusCancelled"
    and "row_of att_ID (att_ID attempt) (attempts (w_db w)) \<noteq> None"
    and "exec faultless (finalizeSuccess job attempt) w r w'"
  shows "\<exists>j' t. settle r = Ack \<and> job_of (w_db w') (job_ID job) = Some j'
    \<and> (\<forall>k. k \<noteq> job_ID job \<longrightarrow> job_of (w_db w') k = job_of (w_db w) k)
    \<and> attempts (w_db w') = map_row att_ID (att_ID attempt) (succeeded_attempt t) (attempts (w_db w))
    \<and> artifacts (w_db w') = artifacts (w_db w) \<and> stored w' = stored w
    \<and> same_origin cur j' \<and> job_AttemptCount j' = job_AttemptCount cur
    \<and> (if job_Status cur = StatusCancelled then j' = cur else job_Status j' = StatusCompleted)"
  by (rule exec_finalizeSuccess [OF assms])

theorem finalizeSuccess_spec_witness:
  "\<exists>j' (w' :: world). job_of (w_db w') 1 = Some j' \<and> job_Status j' = StatusCompleted
     \<and> map att_Status (attempts (w_db w')) = [AttemptSucceeded]"
proof -
  obtain r w' where ex: "exec faultless (finalizeSuccess claimed_job demo_attempt) (sys_world claimed_system) r w'"
    using takes_ex_faultless [OF finishes_finalizeSuccess] by blast
  have att: "attempts (w_db (sys_world claimed_system)) = [demo_attempt]"
    by (simp add: claimed_system_def demo_world_def)
  have "\<exists>j'. job_of (w_db w') 1 = Some j' \<and> job_Status j' = StatusCompleted
      \<and> map att_Status (attempts (w_db w')) = [AttemptSucceeded]"
    using finalizeSuccess_spec [OF claimed_world(1) _ _ _ ex, of claimed_job] claimed_world att
    by (auto simp: succeeded_attempt_def simp del: settle.simps)
  then obtain j' where "job_of (w_db w') 1 = Some j' \<and> job_Status j' = StatusCompleted
      \<and> map att_Status (attempts (w_db w')) = [AttemptSucceeded]" ..
  then show ?thesis by (intro exI [of _ j'] exI [of _ w'])
qed

lemma late_cancel_keeps_success:
  "\<exists>(w' :: world). job_of (w_db w') 1 = Some cancelled_job \<and> job_Status cancelled_job = StatusCancelled
     \<and> map att_Status (attempts (w_db w')) = [AttemptSucceeded]"
proof -
  obtain r w' where ex: "exec faultless (finalizeSuccess claimed_job demo_attempt) (sys_world cancelled_system) r w'"
    using takes_ex_faultless [OF finishes_finalizeSuccess] by blast
  have st: "attempts (w_db (sys_world cancelled_system)) = [demo_attempt]" "job_Status cancelled_job = StatusCancelled"
      "job_of (w_db (sys_world cancelled_system)) (job_ID claimed_job) = Some cancelled_job"
    by (simp_all add: cancelled_system_def demo_world_def cancelled_job_def claimed_job_def demo_job_def)
  have row: "row_of att_ID (att_ID demo_attempt) (attempts (w_db (sys_world cancelled_system))) \<noteq> None"
    using st(1) by simp
  from exec_finalizeSuccess [OF reachable_wf [OF reachable_cancelled] st(3) disjI2 [OF st(2)] row ex] obtain t where
      "job_of (w_db w') 1 = Some cancelled_job"
      "attempts (w_db w') = map_row att_ID (att_ID demo_attempt) (succeeded_attempt t) (attempts (w_db (sys_world cancelled_system)))"
    using st(2) claimed_world(4) by (auto simp del: settle.simps)
  then have "job_of (w_db w') 1 = Some cancelled_job \<and> job_Status cancelled_job = StatusCancelled
      \<and> map att_Status (attempts (w_db w')) = [AttemptSucceeded]"
    using st(1,2) by (simp add: succeeded_attempt_def)
  then show ?thesis by (intro exI [of _ w'])
qed

end
