(* ===== verification/Creation.thy ===== *)
theory Creation
  imports Outcomes Idempotency
begin

unbundle bit_operations_syntax

text \<open>
  Creating jobs and republishing stuck ones, when the services answer: what a new request
  and a replay of an idempotency key do, what binds a key to its request, and which jobs a
  sweep republishes.
\<close>

section \<open>The hash of a request\<close>

lemma show_nat_split:
  assumes "show_nat m @ CHR '':'' # xs = show_nat n @ CHR '':'' # ys"
  shows "m = n \<and> xs = ys"
proof -
  have colon: "\<not> is_digit (CHR '':'')" by (simp add: is_digit_def digit_value_def)
  have "takeWhile is_digit (show_nat k @ CHR '':'' # zs) = show_nat k" for k zs
    using show_nat_digits [of k] colon by (simp add: takeWhile_append2 list_all_iff)
  then have "show_nat m = show_nat n" using assms by metis
  then have "m = n" using read_show_nat by (metis option.inject)
  then show ?thesis using assms by simp
qed

lemma length_prefixed_split:
  "length_prefixed f @ r = length_prefixed f' @ r' \<Longrightarrow> f = f' \<and> r = r'"
  by (auto simp: length_prefixed_def dest!: show_nat_split)

lemma hash_input_inj: "hash_input fs = hash_input gs \<Longrightarrow> fs = gs"
proof (induction fs arbitrary: gs)
  case Nil
  then show ?case by (cases gs) (simp_all add: hash_input_def length_prefixed_def)
next
  case (Cons f fs)
  then obtain g gs' where gs: "gs = g # gs'"
    by (cases gs) (auto simp: hash_input_def length_prefixed_def)
  then have "length_prefixed f @ hash_input fs = length_prefixed g @ hash_input gs'"
    using Cons.prems by (simp add: hash_input_def)
  from length_prefixed_split [OF this] show ?case using Cons.IH gs by simp
qed

lemma hex_digit_inj: "m < 16 \<Longrightarrow> n < 16 \<Longrightarrow> hex_digit m = hex_digit n \<Longrightarrow> m = n"
  by (auto simp: hex_digit_def split: if_splits dest: char_of_eq_iff [THEN iffD1])

lemma hex_inj:
  "hex_EncodeToString xs = hex_EncodeToString ys \<Longrightarrow> \<forall>x \<in> set xs. x < 256 \<Longrightarrow> \<forall>y \<in> set ys. y < 256 \<Longrightarrow> xs = ys"
proof (induction xs arbitrary: ys)
  case Nil
  then show ?case by (cases ys) (simp_all add: hex_EncodeToString_def)
next
  case (Cons x xs)
  then obtain y ys' where ys: "ys = y # ys'" by (cases ys) (auto simp: hex_EncodeToString_def)
  then have digits: "hex_digit (x div 16) = hex_digit (y div 16)" "hex_digit (x mod 16) = hex_digit (y mod 16)"
      "hex_EncodeToString xs = hex_EncodeToString ys'"
    using Cons.prems(1) by (simp_all add: hex_EncodeToString_def)
  have "x div 16 < 16" "y div 16 < 16" using Cons.prems(2,3) ys by (auto intro: less_mult_imp_div_less)
  then have "x div 16 = y div 16" "x mod 16 = y mod 16" using digits(1,2) by (auto dest: hex_digit_inj [rotated 2])
  then have "x = y" by (metis div_mult_mod_eq)
  then show ?case using Cons.IH [OF digits(3)] Cons.prems(2,3) ys by simp
qed

lemma and_255_byte: "unat ((w :: 32 word) AND 255) < 256"
proof -
  have "unat (w AND 255) \<le> unat (255 :: 32 word)"
    using word_and_le1 [of w 255] by (simp only: word_le_nat_alt)
  then show ?thesis by simp
qed

text \<open>
  C40. The hash binds a key to its request: two requests with the same hash are the same
  request, unless SHA-256 collides on their two different encodings; the length prefixes
  make the encoding of the three fields unambiguous.
\<close>

theorem requestHash_binds:
  "requestHash k p v = requestHash k' p' v' \<longleftrightarrow>
     k = k' \<and> p = p' \<and> v = v'
   \<or> hash_input [k, p, v] \<noteq> hash_input [k', p', v']
     \<and> sha256_Sum (map of_char (hash_input [k, p, v])) = sha256_Sum (map of_char (hash_input [k', p', v']))"
proof -
  have bytes: "\<forall>b \<in> set (sha256_Sum m). b < 256" for m
    by (auto simp: sha256_Sum_def be_bytes32_def and_255_byte)
  have "requestHash k p v = requestHash k' p' v' \<longleftrightarrow>
      sha256_Sum (map of_char (hash_input [k, p, v])) = sha256_Sum (map of_char (hash_input [k', p', v']))"
    unfolding requestHash_def using hex_inj [OF _ bytes bytes] by auto
  then show ?thesis using hash_input_inj [of "[k, p, v]" "[k', p', v']"] by auto
qed

section \<open>The requeue sweep\<close>

text \<open>The messages accepted for a list of jobs; a job whose message cannot be encoded gets none.\<close>

definition queue_entry :: "library \<Rightarrow> job \<Rightarrow> (string \<times> string) option" where
  "queue_entry lib j = (case json_Marshal lib (message_for lib j) of
     Inl _ \<Rightarrow> None | Inr payload \<Rightarrow> Some (uuid_String lib (job_ID j), payload))"

definition queue_entries :: "library \<Rightarrow> job list \<Rightarrow> (string \<times> string) list" where
  "queue_entries lib js = List.map_filter (queue_entry lib) js"

lemma queue_entries_simps [simp]:
  "queue_entries lib [] = []"
  "queue_entries lib (j # js) = (case queue_entry lib j of None \<Rightarrow> [] | Some m \<Rightarrow> [m]) @ queue_entries lib js"
  by (simp_all add: queue_entries_def map_filter_simps split: option.split)

lemma exec_Publish:
  assumes "exec faultless (Publish lib (message_for lib j)) w e w'"
  shows "case queue_entry lib j of
      None \<Rightarrow> e \<noteq> None \<and> w' = w
    | Some m \<Rightarrow> e = None \<and> w' = w\<lparr>published := published w @ [m]\<rparr>"
  using assms
  by (auto simp: Publish_def queue_entry_def message_for_def exec_step split: sum.splits)

lemma exec_sweep_jobs:
  "exec faultless (sweep_jobs lib js n) w r w' \<Longrightarrow>
     r = Inr (n + int (length (queue_entries lib js))) \<and> w' = w\<lparr>published := published w @ queue_entries lib js\<rparr>"
proof (induction js arbitrary: n w)
  case (Cons j js)
  then obtain e w1 where p: "exec faultless (Publish lib (message_for lib j)) w e w1"
      and rest: "exec faultless (case e of Some _ \<Rightarrow> sweep_jobs lib js n | None \<Rightarrow> sweep_jobs lib js (n + 1)) w1 r w'"
    by (auto simp: exec_bind)
  show ?case
  proof (cases "queue_entry lib j")
    case None
    then have "e \<noteq> None" "w1 = w" using exec_Publish [OF p] by simp_all
    then show ?thesis using Cons.IH [of n w] rest None by auto
  next
    case (Some m)
    then have "e = None" "w1 = w\<lparr>published := published w @ [m]\<rparr>" using exec_Publish [OF p] by simp_all
    then show ?thesis using Cons.IH [of "n + 1" w1] rest Some by auto
  qed
qed simp

lemma requeueable_rows:
  assumes "sql_select_requeueable cutoff limit d = Inr stuck"
  shows "sorted (map job_UpdatedAt stuck)" and "int (length stuck) \<le> limit"
    and "set stuck \<subseteq> {j \<in> set (jobs d). job_Status j = StatusQueued \<and> job_UpdatedAt j < cutoff}"
    and "int (length stuck) < limit \<Longrightarrow>
      set stuck = {j \<in> set (jobs d). job_Status j = StatusQueued \<and> job_UpdatedAt j < cutoff}"
proof -
  let ?all = "filter (\<lambda>j. job_Status j = StatusQueued \<and> job_UpdatedAt j < cutoff) (jobs d)"
  have stuck: "stuck = take (nat limit) (sort_key job_UpdatedAt ?all)" and limit: "0 \<le> limit"
    using assms by (auto simp: sql_select_requeueable_def split: if_splits)
  have all: "set (sort_key job_UpdatedAt ?all) = {j \<in> set (jobs d). job_Status j = StatusQueued \<and> job_UpdatedAt j < cutoff}"
    by simp
  show "sorted (map job_UpdatedAt stuck)"
    unfolding stuck take_map [symmetric] by (rule sorted_wrt_take) simp
  show "int (length stuck) \<le> limit" using limit by (simp add: stuck)
  show "set stuck \<subseteq> {j \<in> set (jobs d). job_Status j = StatusQueued \<and> job_UpdatedAt j < cutoff}"
    unfolding stuck all [symmetric] by (rule set_take_subset)
  assume "int (length stuck) < limit"
  then have "length (sort_key job_UpdatedAt ?all) \<le> nat limit"
    by (simp add: stuck min_def split: if_splits)
  then show "set stuck = {j \<in> set (jobs d). job_Status j = StatusQueued \<and> job_UpdatedAt j < cutoff}"
    unfolding stuck by (simp only: take_all all)
qed

lemma exec_ListRequeueable:
  assumes "exec faultless (ListRequeueable cutoff limit) w r w'"
  shows "w' = w \<and> (if limit < 0 then \<exists>e. r = Inl e else r = sql_select_requeueable cutoff limit (w_db w) \<and> (\<exists>js. r = Inr js))"
  using assms by (auto simp: ListRequeueable_def exec_step sql_select_requeueable_def faultless_def)

lemma exec_Sweep:
  assumes "exec F (Sweep lib minAge limit) w r w'" and F: "\<And>oc. F oc \<Longrightarrow> faultless oc"
  shows "if limit < 0 then w' = w \<and> (\<exists>e. r = Inl e)
    else \<exists>oc stuck. F oc \<and> sql_select_requeueable (o_now oc - minAge) limit (w_db w) = Inr stuck
      \<and> r = Inr (int (length (queue_entries lib stuck))) \<and> w' = w\<lparr>published := published w @ queue_entries lib stuck\<rparr>"
proof -
  obtain oc l w1 where oc: "F oc"
      and l: "exec F (ListRequeueable (o_now oc - minAge) limit) w l w1"
      and rest: "exec F (case l of Inl e \<Rightarrow> Return (Inl e) | Inr stuck \<Rightarrow> sweep_jobs lib stuck 0) w1 r w'"
    using assms(1) by (auto simp: Sweep_def exec_step [of "TimeNow k" for k] exec_bind)
  note l' = exec_ListRequeueable [OF exec_mono [OF l F]] and rest' = exec_mono [OF rest F]
  show ?thesis
  proof (cases "limit < 0")
    case True
    then show ?thesis using l' rest' by auto
  next
    case False
    with l' obtain stuck where "l = Inr stuck" "w1 = w"
        "sql_select_requeueable (o_now oc - minAge) limit (w_db w) = Inr stuck" by auto
    with False oc show ?thesis
      using exec_sweep_jobs [of lib stuck 0 w r w'] rest' by (auto intro!: exI [of _ oc])
  qed
qed

text \<open>
  C29. A sweep, when the services answer, changes no table and republishes, oldest first, jobs
  that are QUEUED and were last touched before the grace period began: at most \<open>limit\<close> of
  them, and all of them when they are fewer than \<open>limit\<close>. It reports how many messages the
  queue accepted. A negative limit is an error that publishes nothing.
\<close>

theorem Sweep_spec:
  assumes "exec faultless (Sweep lib minAge limit) w r w'"
  shows "w_db w' = w_db w \<and> stored w' = stored w
    \<and> (if limit < 0 then (\<exists>e. r = Inl e) \<and> published w' = published w
       else \<exists>now stuck. sorted (map job_UpdatedAt stuck) \<and> int (length stuck) \<le> limit
         \<and> set stuck \<subseteq> {j \<in> set (jobs (w_db w)). job_Status j = StatusQueued \<and> job_UpdatedAt j < now - minAge}
         \<and> (int (length stuck) < limit \<longrightarrow>
              set stuck = {j \<in> set (jobs (w_db w)). job_Status j = StatusQueued \<and> job_UpdatedAt j < now - minAge})
         \<and> published w' = published w @ queue_entries lib stuck
         \<and> r = Inr (int (length (queue_entries lib stuck))))"
proof (cases "limit < 0")
  case True
  then show ?thesis using exec_Sweep [OF assms] by auto
next
  case False
  then obtain now stuck where stuck: "sql_select_requeueable (now - minAge) limit (w_db w) = Inr stuck"
      "r = Inr (int (length (queue_entries lib stuck)))" "w' = w\<lparr>published := published w @ queue_entries lib stuck\<rparr>"
    using exec_Sweep [OF assms] by auto
  with requeueable_rows [OF stuck(1)] False show ?thesis
    by (intro conjI) (simp_all, intro exI [of _ now] exI [of _ stuck] conjI impI, simp_all)
qed

text \<open>Ten seconds on, the job queued at the start is republished.\<close>

theorem Sweep_spec_witness:
  "\<exists>(w' :: world). exec faultless (Sweep demo_lib (-10) 5) (sys_world queued_system) (Inr 1) w'
     \<and> w_db w' = sys_db queued_system \<and> (\<exists>stuck. published w' = published (sys_world queued_system) @ queue_entries demo_lib stuck)"
proof -
  have "\<exists>w'. run [calm, calm, calm] (Sweep demo_lib (-10) 5) (sys_world queued_system) = (Return (Inr 1), w')"
    by (simp add: Sweep_def ListRequeueable_def sql_select_requeueable_def Publish_def message_for_def demo_states
        faulty_write_def)
  then obtain w' where ex: "exec faultless (Sweep demo_lib (-10) 5) (sys_world queued_system) (Inr 1) w'"
    unfolding exec_iff_run by (metis (no_types, lifting) calm_sels(1) faultless_def list.pred_inject)
  from Sweep_spec [OF ex] ex show ?thesis by (intro exI [of _ w']) auto
qed

section \<open>Creating a job\<close>

text \<open>Replies without faults, and with job ids that are not taken.\<close>

definition fresh_jobs :: "db \<Rightarrow> outside \<Rightarrow> bool" where
  "fresh_jobs d oc \<longleftrightarrow> faultless oc \<and> job_of d (o_uuid oc) = None"

lemma exec_fresh_jobs: "exec (fresh_jobs d) p w r w' \<Longrightarrow> exec faultless p w r w'"
  by (erule exec_mono) (simp add: fresh_jobs_def)

definition params_for :: "service \<Rightarrow> create_job_input \<Rightarrow> string \<Rightarrow> uuid \<Rightarrow> new_job_params" where
  "params_for s inp key i = \<lparr>par_ID = i, par_Pipeline = TrimSpace (cji_Pipeline inp),
     par_PipelineVersion = TrimSpace (cji_PipelineVersion inp), par_InputObjectKey = key,
     par_CorrelationID = cji_CorrelationID inp, par_MaxAttempts = svc_maxAttempts s\<rparr>"

definition hash_for :: "create_job_input \<Rightarrow> string \<Rightarrow> string" where
  "hash_for inp key = requestHash key (TrimSpace (cji_Pipeline inp)) (TrimSpace (cji_PipelineVersion inp))"

definition rejected :: "world \<Rightarrow> create_result \<Rightarrow> world \<Rightarrow> bool" where
  "rejected w r w' \<longleftrightarrow> (\<exists>e. r = Inl e \<and> errors_Is ErrValidation e) \<and> w' = w"

lemma validation_errors [simp]:
  "errors_Is ErrValidation (validation_error e)" "errors_Is ErrValidation (validation_message m)"
  by (simp_all add: validation_error_def validation_message_def)

definition fields_ok :: "create_job_input \<Rightarrow> string \<Rightarrow> bool" where
  "fields_ok inp key \<longleftrightarrow> TrimSpace (cji_Pipeline inp) \<noteq> '''' \<and> TrimSpace (cji_PipelineVersion inp) \<noteq> ''''
     \<and> DecodeUploadID (cji_UploadID inp) = Inr key"

text \<open>What is left after validation: the insert, then the move to QUEUED.\<close>

lemma exec_CreateJob:
  assumes "exec (fresh_jobs d) (CreateJob s inp) w r w'"
  shows "rejected w r w' \<or> (\<exists>key i x w1. fields_ok inp key \<and> job_of d i = None
    \<and> exec faultless (repo_CreateJob (params_for s inp key i) (cji_IdempotencyKey inp) (hash_for inp key)) w x w1
    \<and> exec faultless (case x of Inl e \<Rightarrow> Return (Inl e) | Inr (job, created) \<Rightarrow> finish_create s job created) w1 r w')"
proof (cases "TrimSpace (cji_Pipeline inp) = '''' \<or> TrimSpace (cji_PipelineVersion inp) = '''' \<or> cji_UploadID inp = ''''")
  case True
  then show ?thesis using assms by (auto simp: CreateJob_def Let_def rejected_def split: if_splits)
next
  case False
  show ?thesis
  proof (cases "DecodeUploadID (cji_UploadID inp)")
    case (Inl e)
    then show ?thesis using assms False by (auto simp: CreateJob_def Let_def rejected_def)
  next
    case (Inr key)
    let ?rest = "\<lambda>st. case st of
          Inl e \<Rightarrow> Return (Inl (if errors_Is ErrObjectNotFound e then validation_message ''upload not found''
                                else wrap_prefix ''stat upload'' e))
        | Inr info \<Rightarrow> (case ValidateObject info (svc_maxUploadBytes s) of
            Some e \<Rightarrow> Return (Inl (validation_error e))
          | None \<Rightarrow> NewUUID (\<lambda>i. bind_prog (repo_CreateJob (params_for s inp key i) (cji_IdempotencyKey inp) (hash_for inp key))
              (\<lambda>r. case r of Inl e \<Rightarrow> Return (Inl e) | Inr (job, created) \<Rightarrow> finish_create s job created)))"
    have "CreateJob s inp = bind_prog (store_Stat key) ?rest"
      using False Inr by (simp add: CreateJob_def params_for_def hash_for_def Let_def cong: sum.case_cong option.case_cong)
    then obtain st w0 where stat: "exec (fresh_jobs d) (store_Stat key) w st w0"
        and rest: "exec (fresh_jobs d) (?rest st) w0 r w'"
      using assms by (auto simp: exec_bind)
    obtain info where st: "st = Inr info" "w0 = w"
      using exec_fresh_jobs [OF stat] by (auto simp: store_Stat_def exec_step)
    show ?thesis
    proof (cases "ValidateObject info (svc_maxUploadBytes s)")
      case None
      from rest obtain i x w1 where "job_of d i = None"
          "exec (fresh_jobs d) (repo_CreateJob (params_for s inp key i) (cji_IdempotencyKey inp) (hash_for inp key)) w x w1"
          "exec (fresh_jobs d) (case x of Inl e \<Rightarrow> Return (Inl e) | Inr (job, created) \<Rightarrow> finish_create s job created) w1 r w'"
        using None st by (auto simp: exec_step [of "NewUUID k" for k] exec_bind fresh_jobs_def)
      moreover have "fields_ok inp key" using False Inr by (simp add: fields_ok_def)
      ultimately show ?thesis by (intro disjI2 exI conjI) (assumption | erule exec_fresh_jobs)+
    next
      case (Some e)
      then show ?thesis using rest st by (simp add: rejected_def)
    qed
  qed
qed

lemma exec_repo_CreateJob_new:
  assumes "key = '''' \<or> key_of (w_db w) key = None" and "job_of (w_db w) (par_ID p) = None"
    and "1 \<le> par_MaxAttempts p" and "fits_int32 (par_MaxAttempts p)"
    and "exec faultless (repo_CreateJob p key h) w x w1"
  shows "\<exists>now. x = Inr (new_job_row now p, True)
    \<and> w1 = w\<lparr>w_db := (w_db w)\<lparr>jobs := jobs (w_db w) @ [new_job_row now p],
         idempotency_keys := idempotency_keys (w_db w) @ (if key = '''' then []
           else [\<lparr>ik_Key = key, ik_JobID = par_ID p, ik_RequestHash = h, ik_CreatedAt = now\<rparr>])\<rparr>\<rparr>"
proof (cases "key = ''''")
  case True
  then show ?thesis
    using assms(2-5) by (auto simp: repo_CreateJob_def insertJob_def exec_step exec_bind on_db_def sql_insert_job_def Let_def)
next
  case False
  then have "key_of (w_db w) key = None" using assms(1) by simp
  then show ?thesis
    using assms(2-5) False
    by (auto simp: repo_CreateJob_def exec_step [of "InsertJobWithKey p k h f" for k h f] on_db_def sql_insert_job_def
        tx_insert_job_with_key_def Let_def)
qed

text \<open>The messages of the queue are plain text fields, which always encode.\<close>

definition always_encodes :: "library \<Rightarrow> bool" where
  "always_encodes lib \<longleftrightarrow> (\<forall>m. \<exists>payload. json_Marshal lib m = Inr payload)"

lemma queue_entry_encodes:
  "always_encodes lib \<Longrightarrow> \<exists>payload. queue_entry lib j = Some (uuid_String lib (job_ID j), payload)
     \<and> json_Marshal lib (message_for lib j) = Inr payload"
  by (auto simp: always_encodes_def queue_entry_def split: sum.splits) (metis Inl_Inr_False)+

text \<open>A job was queued: its row is the queued job, its message is the last of the queue.\<close>

definition queued_as :: "library \<Rightarrow> job \<Rightarrow> world \<Rightarrow> world \<Rightarrow> bool" where
  "queued_as lib q w w' \<longleftrightarrow> job_Status q = StatusQueued
     \<and> (\<forall>k. job_of (w_db w') k = (if k = job_ID q then Some q else job_of (w_db w) k))
     \<and> attempts (w_db w') = attempts (w_db w) \<and> stored w' = stored w
     \<and> (\<exists>payload. json_Marshal lib (message_for lib q) = Inr payload
          \<and> published w' = published w @ [(uuid_String lib (job_ID q), payload)])"

lemma exec_finish_pending:
  assumes "wf_db (w_db w)" and "job_of (w_db w) (job_ID job) = Some job" and "job_Status job = StatusPending"
    and "always_encodes (svc_lib s)" and ex: "exec faultless (finish_create s job created) w r w'"
  shows "\<exists>now. r = Inr (updated_row now (JobUpdate StatusQueued) job, created)
    \<and> queued_as (svc_lib s) (updated_row now (JobUpdate StatusQueued) job) w w'
    \<and> idempotency_keys (w_db w') = idempotency_keys (w_db w)"
proof -
  have upd: "upd_To (JobUpdate StatusQueued) = StatusQueued" "\<not> upd_IncAttempt (JobUpdate StatusQueued)"
    by (simp_all add: JobUpdate_def)
  obtain q e w2 where en: "exec faultless (enqueue s job) w (q, e) w2"
      and fin: "exec faultless (case e of None \<Rightarrow> Return (Inr (q, created))
        | Some e \<Rightarrow> if errors_Is ErrConflict e then bind_prog (GetJob (job_ID job)) (\<lambda>g. case g of
              Inr cur \<Rightarrow> Return (Inr (cur, created)) | Inl _ \<Rightarrow> Return (Inl (wrap_prefix ''enqueue job'' e)))
            else Return (Inl (wrap_prefix ''enqueue job'' e))) w2 r w'"
    using ex assms(3) by (auto simp: finish_create_def exec_bind)
  obtain u w1 where u: "exec faultless (UpdateJobStatus (job_ID job) StatusPending (JobUpdate StatusQueued)) w u w1"
      and pub: "exec faultless (case u of Inl e \<Rightarrow> Return (job, Some e)
        | Inr queued \<Rightarrow> bind_prog (Publish (svc_lib s) (message_for (svc_lib s) queued)) (\<lambda>p. Return (queued, p))) w1 (q, e) w2"
    using en by (auto simp: enqueue_def exec_bind)
  from exec_update_becomes [OF u assms(1,2,3)] upd obtain now where
      row: "u = Inr (updated_row now (JobUpdate StatusQueued) job)"
        "job_becomes (job_ID job) (updated_row now (JobUpdate StatusQueued) job) w w1"
    by auto
  obtain j where j: "j = updated_row now (JobUpdate StatusQueued) job" by blast
  have "q = j" and p: "exec faultless (Publish (svc_lib s) (message_for (svc_lib s) j)) w1 e w2"
    using pub row(1) by (auto simp: exec_bind j)
  obtain payload where pay: "json_Marshal (svc_lib s) (message_for (svc_lib s) j) = Inr payload"
      "e = None" "w2 = w1\<lparr>published := published w1 @ [(uuid_String (svc_lib s) (job_ID j), payload)]\<rparr>"
    using exec_Publish [OF p] queue_entry_encodes [OF assms(4), of j] by auto
  have "r = Inr (j, created)" and w': "w' = w2" using fin pay(2) \<open>q = j\<close> by simp_all
  moreover have "job_Status j = StatusQueued" "job_ID j = job_ID job" by (simp_all add: j updated_row_def JobUpdate_def)
  moreover have "queued_as (svc_lib s) j w w' \<and> idempotency_keys (w_db w') = idempotency_keys (w_db w)"
    using row(2) [folded j] pay(1) \<open>job_Status j = StatusQueued\<close> \<open>job_ID j = job_ID job\<close>
    unfolding w' pay(3) queued_as_def job_becomes_def same_but_jobs_def
    by (simp del: job_becomes_lookup)
  ultimately show ?thesis by (intro exI [of _ now]) (simp add: j)
qed

lemma exec_CreateJob_new:
  assumes "wf_db (w_db w)" and "cji_IdempotencyKey inp = '''' \<or> key_of (w_db w) (cji_IdempotencyKey inp) = None"
    and "1 \<le> svc_maxAttempts s" and "fits_int32 (svc_maxAttempts s)" and "always_encodes (svc_lib s)"
    and "exec (fresh_jobs (w_db w)) (CreateJob s inp) w r w'"
  shows "rejected w r w' \<or> (\<exists>job key. r = Inr (job, True) \<and> fields_ok inp key \<and> job_of (w_db w) (job_ID job) = None
    \<and> queued_as (svc_lib s) job w w' \<and> job_AttemptCount job = 0 \<and> job_MaxAttempts job = svc_maxAttempts s
    \<and> job_Pipeline job = TrimSpace (cji_Pipeline inp) \<and> job_PipelineVersion job = TrimSpace (cji_PipelineVersion inp)
    \<and> job_InputObjectKey job = key \<and> job_CorrelationID job = cji_CorrelationID inp
    \<and> (cji_IdempotencyKey inp \<noteq> '''' \<longrightarrow> (\<exists>row. key_of (w_db w') (cji_IdempotencyKey inp) = Some row
         \<and> ik_JobID row = job_ID job \<and> ik_RequestHash row = hash_for inp key)))"
proof -
  have "?thesis" if "\<not> rejected w r w'"
  proof -
    from exec_CreateJob [OF assms(6)] that obtain key i x w1 where valid: "fields_ok inp key" "job_of (w_db w) i = None"
        and repo: "exec faultless (repo_CreateJob (params_for s inp key i) (cji_IdempotencyKey inp) (hash_for inp key)) w x w1"
        and fin: "exec faultless (case x of Inl e \<Rightarrow> Return (Inl e) | Inr (job, created) \<Rightarrow> finish_create s job created) w1 r w'"
      by blast
    let ?p = "params_for s inp key i"
    have p: "par_ID ?p = i" "par_MaxAttempts ?p = svc_maxAttempts s" by (simp_all add: params_for_def)
    from exec_repo_CreateJob_new [OF assms(2) _ _ _ repo] p valid(2) assms(3,4) obtain now where
        x: "x = Inr (new_job_row now ?p, True)"
        and w1: "w1 = w\<lparr>w_db := (w_db w)\<lparr>jobs := jobs (w_db w) @ [new_job_row now ?p],
         idempotency_keys := idempotency_keys (w_db w) @ (if cji_IdempotencyKey inp = '''' then []
           else [\<lparr>ik_Key = cji_IdempotencyKey inp, ik_JobID = i, ik_RequestHash = hash_for inp key, ik_CreatedAt = now\<rparr>])\<rparr>\<rparr>"
      by auto
    obtain job where job: "job = new_job_row now ?p" by blast
    have row: "job_ID job = i" "job_Status job = StatusPending" by (simp_all add: job new_job_row_def p)
    have jobs1: "job_of (w_db w1) k = (if k = i then Some job else job_of (w_db w) k)" for k
      using valid(2) row(1) by (simp add: w1 job [symmetric] row_of_append split: option.split)
    have wf1: "wf_db (w_db w1)" by (rule exec_wf [OF repo assms(1)])
    have fin': "exec faultless (finish_create s job True) w1 r w'" using fin x by (simp add: job)
    from exec_finish_pending [OF wf1 _ row(2) assms(5) fin'] jobs1 row(1) obtain now' where
        q: "r = Inr (updated_row now' (JobUpdate StatusQueued) job, True)"
          "queued_as (svc_lib s) (updated_row now' (JobUpdate StatusQueued) job) w1 w'"
          "idempotency_keys (w_db w') = idempotency_keys (w_db w1)"
      by auto
    obtain j where j: "j = updated_row now' (JobUpdate StatusQueued) job" by blast
    have fields: "job_ID j = i" "job_AttemptCount j = 0" "job_MaxAttempts j = svc_maxAttempts s"
        "job_Pipeline j = TrimSpace (cji_Pipeline inp)" "job_PipelineVersion j = TrimSpace (cji_PipelineVersion inp)"
        "job_InputObjectKey j = key" "job_CorrelationID j = cji_CorrelationID inp"
      by (simp_all add: j updated_row_def JobUpdate_def job new_job_row_def params_for_def)
    have "queued_as (svc_lib s) j w w'"
      using q(2) jobs1 fields(1) unfolding j [symmetric] queued_as_def by (simp add: w1)
    moreover have "cji_IdempotencyKey inp \<noteq> '''' \<longrightarrow> (\<exists>row. key_of (w_db w') (cji_IdempotencyKey inp) = Some row
         \<and> ik_JobID row = i \<and> ik_RequestHash row = hash_for inp key)"
      using q(3) assms(2) by (auto simp: w1 row_of_append)
    ultimately show ?thesis
      using q(1) valid fields unfolding j [symmetric] by (intro disjI2 exI [of _ j] exI [of _ key]) simp
  qed
  then show ?thesis by blast
qed

text \<open>
  C23. A new creation request, with no idempotency key or one not used before, when the
  services answer: it is refused as invalid, and nothing changes; or its fields are valid,
  and one new job exists, QUEUED with no attempts, with the request's trimmed pipeline and
  version, the uploaded object and the configured budget; all other jobs and all attempts
  are as they were; exactly one message, for that job, was published; and the key, if any,
  is bound to the job and to the hash of the request.
\<close>

theorem CreateJob_creates:
  assumes "wf_db (w_db w)" and "cji_IdempotencyKey inp = '''' \<or> key_of (w_db w) (cji_IdempotencyKey inp) = None"
    and "1 \<le> svc_maxAttempts s" and "fits_int32 (svc_maxAttempts s)" and "always_encodes (svc_lib s)"
    and "exec (fresh_jobs (w_db w)) (CreateJob s inp) w r w'"
  shows "rejected w r w' \<or> (\<exists>job key. r = Inr (job, True) \<and> fields_ok inp key \<and> job_of (w_db w) (job_ID job) = None
    \<and> queued_as (svc_lib s) job w w' \<and> job_AttemptCount job = 0 \<and> job_MaxAttempts job = svc_maxAttempts s
    \<and> job_Pipeline job = TrimSpace (cji_Pipeline inp) \<and> job_PipelineVersion job = TrimSpace (cji_PipelineVersion inp)
    \<and> job_InputObjectKey job = key \<and> job_CorrelationID job = cji_CorrelationID inp
    \<and> (cji_IdempotencyKey inp \<noteq> '''' \<longrightarrow> (\<exists>row. key_of (w_db w') (cji_IdempotencyKey inp) = Some row
         \<and> ik_JobID row = job_ID job \<and> ik_RequestHash row = hash_for inp key)))"
  by (rule exec_CreateJob_new [OF assms])

lemma exec_repo_CreateJob_replay:
  assumes "key \<noteq> ''''" and "key_of (w_db w) key = Some row" and "job_of (w_db w) (par_ID p) = None"
    and "1 \<le> par_MaxAttempts p" and "fits_int32 (par_MaxAttempts p)"
    and "exec faultless (repo_CreateJob p key h) w x w1"
  shows "w1 = w \<and> x = (if ik_RequestHash row \<noteq> h then Inl (Sentinel ErrIdempotencyConflict)
    else case job_of (w_db w) (ik_JobID row) of None \<Rightarrow> Inl (Sentinel ErrNotFound) | Some j \<Rightarrow> Inr (j, False))"
proof -
  have tx: "tx_insert_job_with_key now p key h (w_db w) = (Inr None, w_db w)" for now
    using assms(2-5) by (simp add: tx_insert_job_with_key_def sql_insert_job_def Let_def)
  have "exec faultless (resolveExisting key h) w x w1"
    using assms(1,6) by (auto simp: repo_CreateJob_def exec_step [of "InsertJobWithKey p k h f" for k h f] on_db_def tx)
  then show ?thesis
    using assms(2)
    by (auto simp: resolveExisting_def exec_step [of "SelectKey k f" for k f] exec_bind exec_GetJob split: if_splits option.splits)
qed

lemma exec_CreateJob_replay:
  assumes "wf_db (w_db w)" and "cji_IdempotencyKey inp \<noteq> ''''" and "key_of (w_db w) (cji_IdempotencyKey inp) = Some row"
    and "1 \<le> svc_maxAttempts s" and "fits_int32 (svc_maxAttempts s)" and "always_encodes (svc_lib s)"
    and "exec (fresh_jobs (w_db w)) (CreateJob s inp) w r w'"
  shows "rejected w r w' \<or> (\<exists>key. fields_ok inp key \<and>
    (if ik_RequestHash row \<noteq> hash_for inp key then r = Inl (Sentinel ErrIdempotencyConflict) \<and> w' = w
     else \<exists>job. job_of (w_db w) (ik_JobID row) = Some job \<and>
       (if job_Status job = StatusPending
        then \<exists>q. r = Inr (q, False) \<and> queued_as (svc_lib s) q w w' \<and> same_origin job q
        else r = Inr (job, False) \<and> w' = w)))"
proof -
  have "?thesis" if "\<not> rejected w r w'"
  proof -
    from exec_CreateJob [OF assms(7)] that obtain key i x w1 where valid: "fields_ok inp key" "job_of (w_db w) i = None"
        and repo: "exec faultless (repo_CreateJob (params_for s inp key i) (cji_IdempotencyKey inp) (hash_for inp key)) w x w1"
        and fin: "exec faultless (case x of Inl e \<Rightarrow> Return (Inl e) | Inr (job, created) \<Rightarrow> finish_create s job created) w1 r w'"
      by blast
    have "row \<in> set (idempotency_keys (w_db w))" using row_of_SomeD [OF assms(3)] by simp
    then obtain job where job: "job_of (w_db w) (ik_JobID row) = Some job"
      using assms(1) by (auto simp: wf_db_def wf_keys_def list_all_iff)
    have x: "w1 = w" "x = (if ik_RequestHash row \<noteq> hash_for inp key then Inl (Sentinel ErrIdempotencyConflict) else Inr (job, False))"
      using exec_repo_CreateJob_replay [OF assms(2,3) _ _ _ repo] valid(2) assms(4,5) job by (simp_all add: params_for_def)
    show ?thesis
    proof (cases "ik_RequestHash row = hash_for inp key")
      case False
      then show ?thesis using fin x valid(1) by (intro disjI2 exI [of _ key]) simp
    next
      case True
      then have fin': "exec faultless (finish_create s job False) w r w'" using fin x by simp
      show ?thesis
      proof (cases "job_Status job = StatusPending")
        case pending: True
        have "job_of (w_db w) (job_ID job) = Some job" using job row_of_key [OF job] by simp
        from exec_finish_pending [OF assms(1) this pending assms(6) fin'] obtain now where
            "r = Inr (updated_row now (JobUpdate StatusQueued) job, False)"
            "queued_as (svc_lib s) (updated_row now (JobUpdate StatusQueued) job) w w'" by blast
        moreover have "same_origin job (updated_row now (JobUpdate StatusQueued) job)" by (rule job_becomes_origin)
        ultimately show ?thesis using True valid(1) job pending by (intro disjI2 exI [of _ key]) auto
      next
        case False
        then show ?thesis using True valid(1) job fin' by (intro disjI2 exI [of _ key]) (simp add: finish_create_def)
      qed
    qed
  qed
  then show ?thesis by blast
qed

text \<open>
  A replay of an idempotency key, when the services answer: an invalid request is
  refused; a request with another body than the one the key is bound to is a conflict; both
  change nothing. Otherwise the answer is the job of the first request and says that it was
  not created. If that job was still PENDING it is queued and its message published; in any
  other state nothing changes, and in particular nothing is published.
\<close>

theorem CreateJob_replays:
  assumes "wf_db (w_db w)" and "cji_IdempotencyKey inp \<noteq> ''''" and "key_of (w_db w) (cji_IdempotencyKey inp) = Some row"
    and "1 \<le> svc_maxAttempts s" and "fits_int32 (svc_maxAttempts s)" and "always_encodes (svc_lib s)"
    and "exec (fresh_jobs (w_db w)) (CreateJob s inp) w r w'"
  shows "rejected w r w' \<or> (\<exists>key. fields_ok inp key \<and>
    (if ik_RequestHash row \<noteq> hash_for inp key then r = Inl (Sentinel ErrIdempotencyConflict) \<and> w' = w
     else \<exists>job. job_of (w_db w) (ik_JobID row) = Some job \<and>
       (if job_Status job = StatusPending
        then \<exists>q. r = Inr (q, False) \<and> queued_as (svc_lib s) q w w' \<and> same_origin job q
        else r = Inr (job, False) \<and> w' = w)))"
  by (rule exec_CreateJob_replay [OF assms])

section \<open>Two requests\<close>

lemma demo_service:
  "1 \<le> svc_maxAttempts (dep_service demo_dep)" "fits_int32 (svc_maxAttempts (dep_service demo_dep))"
  "always_encodes (svc_lib (dep_service demo_dep))"
  by (simp_all add: fits_int32_def always_encodes_def)

lemma all_replicate: "P x \<Longrightarrow> list_all P (replicate n x)"
  by (simp add: list_all_iff)

theorem CreateJob_creates_witness:
  "\<exists>w'. queued_as demo_lib demo_job empty_world w' \<and> fields_ok demo_input ''uploads/a.png''"
proof -
  have "\<exists>w'. run (replicate 5 calm) (CreateJob (dep_service demo_dep) demo_input) empty_world
      = (Return (Inr (demo_job, True)), w')"
    by (simp add: demo_input_def demo_states demo_programs demo_sql demo_token demo_trims numeral_eq_Suc)
  moreover have "fresh_jobs (w_db empty_world) calm"
    by (simp add: fresh_jobs_def faultless_def empty_world_def empty_db_def)
  ultimately obtain w' where ex: "exec (fresh_jobs (w_db empty_world)) (CreateJob (dep_service demo_dep) demo_input)
      empty_world (Inr (demo_job, True)) w'"
    unfolding exec_iff_run using all_replicate [of "fresh_jobs (w_db empty_world)"] by blast
  have "wf_db (w_db empty_world)" using reachable_wf [OF reachable_init] by (simp add: initial_system_def)
  from CreateJob_creates [OF this _ demo_service ex] have "queued_as demo_lib demo_job empty_world w'
      \<and> (\<exists>key. fields_ok demo_input key)"
    by (auto simp: rejected_def demo_input_def)
  then show ?thesis by (auto simp: fields_ok_def demo_input_def demo_token)
qed

theorem CreateJob_replays_witness:
  "\<exists>r w'. exec (fresh_jobs (sys_db replayed_system)) (CreateJob (dep_service demo_dep) keyed_input) (sys_world replayed_system) r w'
     \<and> r = Inr (demo_job, False) \<and> w' = sys_world replayed_system"
proof -
  let ?oc = "calm\<lparr>o_uuid := 2\<rparr>"
  have "\<exists>w'. run (replicate 5 ?oc) (CreateJob (dep_service demo_dep) keyed_input) (sys_world replayed_system)
      = (Return (Inr (demo_job, False)), w')"
    by (simp add: keyed_input_def demo_input_def demo_states demo_programs demo_sql demo_token demo_trims
      replayed_system_def tx_insert_job_with_key_def resolveExisting_def demo_hash_def [symmetric] numeral_eq_Suc)
  moreover have "fresh_jobs (sys_db replayed_system) ?oc"
    by (simp add: fresh_jobs_def faultless_def replayed_system_def demo_states)
  ultimately obtain w' where ex: "exec (fresh_jobs (sys_db replayed_system)) (CreateJob (dep_service demo_dep) keyed_input)
      (sys_world replayed_system) (Inr (demo_job, False)) w'"
    unfolding exec_iff_run using all_replicate [of "fresh_jobs (sys_db replayed_system)"] by blast
  have "wf_db (sys_db replayed_system)"
    by (rule reachable_wf [OF perform_all_reachable [OF reachable_init perform_replay]])
  from CreateJob_replays [OF this _ _ demo_service ex, of "\<lparr>ik_Key = ''key1'', ik_JobID = 1, ik_RequestHash = demo_hash, ik_CreatedAt = 5\<rparr>"]
  have "w' = sys_world replayed_system"
    by (auto simp: rejected_def keyed_input_def replayed_system_def demo_states split: if_splits)
  then show ?thesis using ex by (intro exI conjI) auto
qed

end
