(* ===== verification/Liveness.thy ===== *)
theory Liveness
  imports Delivering Creation
begin

text \<open>
  Liveness of a job: a QUEUED job whose message is redelivered after every negative
  acknowledgement reaches its end. A complete run of a delivery is a run of the system, so
  the outcome of one delivery can be iterated along the redeliveries, while the rest of the
  system goes on working on other jobs.
\<close>

section \<open>A complete run is a run of the system\<close>

lemma exec_sys_steps:
  "exec F p w r w' \<Longrightarrow> sys_threads s t = Some p \<Longrightarrow> sys_world s = w
    \<Longrightarrow> \<exists>s'. (sys_step dep)\<^sup>*\<^sup>* s s' \<and> sys_world s' = w'"
proof (induction arbitrary: s rule: exec.induct)
  case (exec_call p oc w r w')
  then have "\<exists>s'. (sys_step dep)\<^sup>*\<^sup>* (called t oc p s) s' \<and> sys_world s' = w'"
    by (intro exec_call.IH) simp_all
  then obtain s' where "(sys_step dep)\<^sup>*\<^sup>* (called t oc p s) s'" "sys_world s' = w'"
    by blast
  moreover have "sys_step dep s (called t oc p s)"
    by (rule sys_step.call [OF exec_call.prems(1) exec_call.hyps(1)])
  ultimately show ?case by (intro exI [of _ s'] conjI converse_rtranclp_into_rtranclp [of "sys_step dep" s])
qed blast

lemma reachable_finite_calls: "reachable dep s \<Longrightarrow> finite (dom (sys_calls s))"
  by (induction rule: reachable.induct)
    (auto simp: initial_system_def simp del: fun_upd_apply elim!: sys_stepE)

lemma reachable_idle_tid:
  assumes "reachable dep s"
  obtains t where "sys_calls s t = None"
  using ex_new_if_finite [OF infinite_UNIV_nat reachable_finite_calls [OF assms]] by (auto simp: dom_def)

lemma exec_entry:
  assumes "reachable dep s" and "exec F (entry dep r) (sys_world s) out w'"
  shows "\<exists>s'. (sys_step dep)\<^sup>*\<^sup>* s s' \<and> sys_world s' = w'"
proof -
  obtain t where "sys_calls s t = None" using reachable_idle_tid [OF assms(1)] by blast
  then have start: "sys_step dep s (started dep t r s)" by (rule sys_step.start)
  from exec_sys_steps [OF assms(2), of "started dep t r s" t dep] obtain s' where
      "(sys_step dep)\<^sup>*\<^sup>* (started dep t r s) s'" "sys_world s' = w'"
    by auto
  then show ?thesis
    using start by (intro exI [of _ s'] conjI converse_rtranclp_into_rtranclp [of "sys_step dep" s])
qed

section \<open>Deliveries in the running system\<close>

text \<open>
  A delivery that is handled from its arrival to its settlement by services that answer
  (with attempt ids that are not taken), as a run of the system.
\<close>

definition delivers :: "'img deployment \<Rightarrow> string \<Rightarrow> system \<Rightarrow> settlement \<Rightarrow> system \<Rightarrow> bool" where
  "delivers dep payload s out s' \<longleftrightarrow> (sys_step dep)\<^sup>*\<^sup>* s s'
     \<and> exec (fresh_replies (sys_db s)) (process (worker_env dep) payload) (sys_world s) out (sys_world s')"

lemma exec_delivers:
  assumes "reachable dep s"
    and ex: "exec (fresh_replies (sys_db s)) (process (worker_env dep) payload) (sys_world s) out w'"
  shows "\<exists>s'. delivers dep payload s out s' \<and> sys_world s' = w'"
proof -
  have "exec (fresh_replies (sys_db s)) (entry dep (Deliver payload)) (sys_world s) (DeliveryDone out) w'"
    using ex by (auto simp: exec_bind)
  from exec_entry [OF assms(1) this] show ?thesis using ex unfolding delivers_def by blast
qed

text \<open>There is such an id as long as the table does not hold all of them.\<close>

definition ids_left :: "db \<Rightarrow> bool" where
  "ids_left d \<longleftrightarrow> length (attempts d) < 2 ^ 128"

lemma fresh_reply_exists:
  assumes "ids_left d"
  shows "\<exists>oc. fresh_replies d oc"
proof -
  have "card (att_ID ` set (attempts d)) < card (UNIV :: uuid set)"
    using card_image_le [of "set (attempts d)" att_ID] card_length [of "attempts d"] assms
    by (simp add: ids_left_def card_word)
  then have "att_ID ` set (attempts d) \<noteq> UNIV" by (metis less_irrefl)
  then obtain aid where "aid \<notin> att_ID ` set (attempts d)" by blast
  then have "fresh_replies d ((faultless_at 0)\<lparr>o_uuid := aid\<rparr>)"
    by (simp add: fresh_replies_def faultless_def faultless_at_def row_of_None_iff)
  then show ?thesis by blast
qed

text \<open>Then such a delivery can take place.\<close>

lemma delivers_exists:
  assumes "reachable dep s" and "ids_left (sys_db s)"
  shows "\<exists>out s'. delivers dep payload s out s'"
proof -
  obtain oc where "fresh_replies (sys_db s) oc" using fresh_reply_exists [OF assms(2)] by blast
  then obtain out w' where "exec (fresh_replies (sys_db s)) (process (worker_env dep) payload) (sys_world s) out w'"
    using takes_ex_exec [OF takes_process [OF default_registry_takes]] by (metis worker_env_registry)
  then show ?thesis using exec_delivers [OF assms(1)] by blast
qed

lemma delivers_reachable: "delivers dep payload s out s' \<Longrightarrow> reachable dep s \<Longrightarrow> reachable dep s'"
  unfolding delivers_def by (blast intro: reachable_steps)

section \<open>Redelivery until the job ends\<close>

text \<open>
  \<open>ends_within dep payload i P n s\<close>: from \<open>s\<close> a delivery can run to its end (unless the
  table of attempts holds all ids there are), and however the deliveries run, the message is
  acked after at most \<open>n\<close> of them with \<open>P\<close> true then; a delivery that is naked is followed
  by another one, and in between the system may do anything that leaves job \<open>i\<close> as it is.
\<close>

inductive ends_within :: "'img deployment \<Rightarrow> string \<Rightarrow> uuid \<Rightarrow> (world \<Rightarrow> bool) \<Rightarrow> nat \<Rightarrow> system \<Rightarrow> bool"
  for dep payload i P where
  deliver: "(ids_left (sys_db s) \<longrightarrow> (\<exists>out s'. delivers dep payload s out s')) \<Longrightarrow>
    (\<And>out s'. delivers dep payload s out s' \<Longrightarrow> (out = Ack \<and> P (sys_world s')) \<or>
       ((\<exists>d. out = Nak d) \<and> (\<forall>s2. (sys_step dep)\<^sup>*\<^sup>* s' s2 \<longrightarrow> job_of (sys_db s2) i = job_of (sys_db s') i
          \<longrightarrow> ends_within dep payload i P n s2)))
    \<Longrightarrow> ends_within dep payload i P (Suc n) s"

text \<open>The end of a job: completed with its output recorded, or failed.\<close>

definition job_ended :: "library \<Rightarrow> uuid \<Rightarrow> job \<Rightarrow> world \<Rightarrow> bool" where
  "job_ended lib i j w \<longleftrightarrow> (\<exists>j'. job_of (w_db w) i = Some j' \<and> same_origin j j'
     \<and> (job_Status j' = StatusCompleted \<and> output_recorded lib j' w \<or> job_Status j' = StatusFailed))"

lemma job_ended_origin: "same_origin j j1 \<Longrightarrow> job_ended lib i j1 w \<Longrightarrow> job_ended lib i j w"
  by (auto simp: job_ended_def same_origin_def)

lemma ends_within_mono:
  "ends_within dep payload i P n s \<Longrightarrow> (\<And>w. P w \<Longrightarrow> Q w) \<Longrightarrow> ends_within dep payload i Q n s"
proof (induction rule: ends_within.induct)
  case (deliver s n)
  show ?case
  proof (rule ends_within.deliver)
    fix out s' assume "delivers dep payload s out s'"
    with deliver show "(out = Ack \<and> Q (sys_world s')) \<or> ((\<exists>d. out = Nak d) \<and>
        (\<forall>s2. (sys_step dep)\<^sup>*\<^sup>* s' s2 \<longrightarrow> job_of (sys_db s2) i = job_of (sys_db s') i
          \<longrightarrow> ends_within dep payload i Q n s2))"
      by meson
  qed (use deliver in blast)
qed

lemma queued_budget:
  assumes "reachable dep s" and "job_of (sys_db s) i = Some j" and "job_Status j = StatusQueued"
  shows "job_AttemptCount j < job_MaxAttempts j"
  using reachable_fits [OF assms(1) view_job_of [OF assms(2)]] assms(3) by (simp add: job_fits_def)

lemma delivers_outcome:
  assumes "reachable dep s" and "json_Unmarshal (svc_lib (dep_service dep)) payload = Some msg"
    and "uuid_Parse (svc_lib (dep_service dep)) (msg_JobID msg) = Some i"
    and "job_of (sys_db s) i = Some j" and "job_Status j = StatusQueued" and "delivers dep payload s out s'"
  obtains j' where "job_of (sys_db s') i = Some j'" "same_origin j j'" "job_AttemptCount j' = job_AttemptCount j + 1"
    "out = Ack" "job_ended (svc_lib (dep_service dep)) i j (sys_world s')"
  | j' d where "job_of (sys_db s') i = Some j'" "same_origin j j'" "job_AttemptCount j' = job_AttemptCount j + 1"
    "out = Nak d" "job_Status j' = StatusQueued"
proof -
  obtain j' a where "job_of (sys_db s') i = Some j'" "same_origin j j'" "job_AttemptCount j' = job_AttemptCount j + 1"
      "ends_as (svc_lib (dep_service dep)) j' a out (sys_world s')"
    using exec_delivery [OF assms(1-5)] assms(6) unfolding delivers_def by blast
  then show thesis using that by (auto simp: ends_as_def job_ended_def)
qed

lemma redelivery_ends:
  assumes "json_Unmarshal (svc_lib (dep_service dep)) payload = Some msg"
    and "uuid_Parse (svc_lib (dep_service dep)) (msg_JobID msg) = Some i"
  shows "reachable dep s \<Longrightarrow> job_of (sys_db s) i = Some j \<Longrightarrow> job_Status j = StatusQueued
    \<Longrightarrow> job_MaxAttempts j - job_AttemptCount j \<le> int n
    \<Longrightarrow> ends_within dep payload i (job_ended (svc_lib (dep_service dep)) i j) n s"
proof (induction n arbitrary: s j)
  case 0
  then show ?case using queued_budget by fastforce
next
  case (Suc n)
  show ?case
  proof (rule ends_within.deliver)
    show "ids_left (sys_db s) \<longrightarrow> (\<exists>out s'. delivers dep payload s out s')"
      using delivers_exists [OF Suc.prems(1)] by blast
  next
    fix out s' assume del: "delivers dep payload s out s'"
    let ?P = "job_ended (svc_lib (dep_service dep)) i j"
    show "(out = Ack \<and> ?P (sys_world s')) \<or> ((\<exists>d. out = Nak d) \<and>
        (\<forall>s2. (sys_step dep)\<^sup>*\<^sup>* s' s2 \<longrightarrow> job_of (sys_db s2) i = job_of (sys_db s') i
          \<longrightarrow> ends_within dep payload i ?P n s2))"
    proof (cases rule: delivers_outcome [OF Suc.prems(1) assms Suc.prems(2,3) del])
      case (2 j' d)
      have "ends_within dep payload i ?P n s2"
        if "(sys_step dep)\<^sup>*\<^sup>* s' s2" "job_of (sys_db s2) i = job_of (sys_db s') i" for s2
      proof -
        have "reachable dep s2"
          using reachable_steps [OF that(1) delivers_reachable [OF del Suc.prems(1)]] .
        moreover have "job_MaxAttempts j' - job_AttemptCount j' \<le> int n"
          using Suc.prems(4) 2 by (simp add: same_origin_def)
        ultimately have "ends_within dep payload i (job_ended (svc_lib (dep_service dep)) i j') n s2"
          using that(2) 2 by (intro Suc.IH) simp_all
        then show ?thesis by (rule ends_within_mono) (rule job_ended_origin [OF 2(2)])
      qed
      then show ?thesis using 2 by blast
    qed simp
  qed
qed

lemma queued_gets_done:
  assumes "reachable dep s" and "json_Unmarshal (svc_lib (dep_service dep)) payload = Some msg"
    and "uuid_Parse (svc_lib (dep_service dep)) (msg_JobID msg) = Some i"
    and "job_of (sys_db s) i = Some j" and "job_Status j = StatusQueued"
  shows "ends_within dep payload i (job_ended (svc_lib (dep_service dep)) i j)
    (nat (job_MaxAttempts j - job_AttemptCount j)) s"
  using redelivery_ends [OF assms(2,3,1,4,5)] queued_budget [OF assms(1,4,5)] by simp

text \<open>
  C3. Every job gets done. From any reachable state in which a message names a QUEUED job, if
  the message is delivered, handled to its end by services that answer, and delivered again
  whenever it was naked, then after at most as many deliveries as the job has attempts left
  it is acked, and the job is then COMPLETED with its output stored and recorded, or FAILED.
  Between two deliveries the rest of the system may do anything that leaves this job alone.
\<close>

theorem job_gets_done:
  assumes "reachable dep s" and "json_Unmarshal (svc_lib (dep_service dep)) payload = Some msg"
    and "uuid_Parse (svc_lib (dep_service dep)) (msg_JobID msg) = Some i"
    and "job_of (sys_db s) i = Some j" and "job_Status j = StatusQueued"
  shows "ends_within dep payload i (job_ended (svc_lib (dep_service dep)) i j)
    (nat (job_MaxAttempts j - job_AttemptCount j)) s"
  by (rule queued_gets_done [OF assms])

theorem job_gets_done_witness:
  "reachable demo_dep queued_system
   \<and> ends_within demo_dep ''job1'' 1 (job_ended demo_lib 1 demo_job) (nat (job_MaxAttempts demo_job)) queued_system"
proof -
  have "job_of (sys_db queued_system) 1 = Some demo_job" "job_Status demo_job = StatusQueued" "job_AttemptCount demo_job = 0"
    by (simp_all add: demo_states)
  moreover have lib: "svc_lib (dep_service demo_dep) = demo_lib" by simp
  moreover have "\<exists>msg. json_Unmarshal (svc_lib (dep_service demo_dep)) ''job1'' = Some msg
      \<and> uuid_Parse (svc_lib (dep_service demo_dep)) (msg_JobID msg) = Some 1"
    by (simp add: demo_states)
  then obtain msg where "json_Unmarshal (svc_lib (dep_service demo_dep)) ''job1'' = Some msg"
      "uuid_Parse (svc_lib (dep_service demo_dep)) (msg_JobID msg) = Some 1"
    by blast
  ultimately show ?thesis
    using job_gets_done [OF reachable_queued, of "''job1''" msg 1 demo_job] reachable_queued by simp
qed


section \<open>From the request to the end of the job\<close>

text \<open>
  What is relied on of the libraries that carry a job's id to the worker: messages encode,
  decoding a message gives the id that was encoded, and parsing the text of a UUID gives it
  back.
\<close>

definition faithful_transport :: "library \<Rightarrow> bool" where
  "faithful_transport lib \<longleftrightarrow> always_encodes lib \<and> (\<forall>i. uuid_Parse lib (uuid_String lib i) = Some i)
     \<and> (\<forall>m payload. json_Marshal lib m = Inr payload
          \<longrightarrow> (\<exists>m'. json_Unmarshal lib payload = Some m' \<and> msg_JobID m' = msg_JobID m))"

lemma message_gets_done:
  assumes "reachable dep s" and "faithful_transport (svc_lib (dep_service dep))"
    and "json_Marshal (svc_lib (dep_service dep)) (message_for (svc_lib (dep_service dep)) j) = Inr payload"
    and "job_of (sys_db s) (job_ID j) = Some j" and "job_Status j = StatusQueued"
  shows "ends_within dep payload (job_ID j) (job_ended (svc_lib (dep_service dep)) (job_ID j) j)
    (nat (job_MaxAttempts j - job_AttemptCount j)) s"
proof -
  let ?lib = "svc_lib (dep_service dep)"
  obtain msg where "json_Unmarshal ?lib payload = Some msg" "uuid_Parse ?lib (msg_JobID msg) = Some (job_ID j)"
    using assms(2,3) unfolding faithful_transport_def by (fastforce simp: message_for_def)
  from queued_gets_done [OF assms(1) this assms(4,5)] show ?thesis .
qed


text \<open>A library in which every UUID has a text of its own.\<close>

definition wire_lib :: library where
  "wire_lib = \<lparr>uuid_String = (\<lambda>u. show_nat (unat u)), uuid_Parse = (\<lambda>s. map_option of_nat (read_digits 0 s)),
     json_Marshal = (\<lambda>m. Inr (msg_JobID m)),
     json_Unmarshal = (\<lambda>s. Some \<lparr>msg_JobID = s, msg_AttemptID = '''', msg_Pipeline = '''', msg_PipelineVersion = '''',
        msg_CorrelationID = ''''\<rparr>)\<rparr>"

definition wire_dep :: "(int \<times> int) deployment" where
  "wire_dep = \<lparr>dep_service = NewService wire_lib demo_config, dep_imaging = demo_imaging\<rparr>"

lemma wire_faithful: "faithful_transport wire_lib"
  by (auto simp: faithful_transport_def always_encodes_def wire_lib_def read_show_nat)



section \<open>Stuck jobs\<close>

text \<open>Replies without faults, and with a clock that has reached a given time.\<close>

definition clock_from :: "time \<Rightarrow> outside \<Rightarrow> bool" where
  "clock_from now oc \<longleftrightarrow> faultless oc \<and> now \<le> o_now oc"

lemma clock_from_faultless: "clock_from now oc \<Longrightarrow> faultless oc"
  and clock_from_le: "clock_from now oc \<Longrightarrow> now \<le> o_now oc"
  by (simp_all add: clock_from_def)

lemma queue_entries_mem:
  "j \<in> set js \<Longrightarrow> json_Marshal lib (message_for lib j) = Inr payload
     \<Longrightarrow> (uuid_String lib (job_ID j), payload) \<in> set (queue_entries lib js)"
  by (induction js) (auto simp: queue_entry_def)



lemma wire_queued:
  "\<exists>s. reachable wire_dep s \<and> jobs (sys_db s) = [demo_job]"
proof -
  have "\<exists>w'. run (replicate 5 calm) (entry wire_dep (CallCreateJob demo_input)) empty_world
      = (Return (CreateDone (Inr (demo_job, True))), w') \<and> jobs (w_db w') = [demo_job]"
    by (simp add: wire_dep_def NewService_def demo_config_def wire_lib_def demo_input_def demo_states demo_programs
      demo_sql demo_token demo_trims numeral_eq_Suc)
  moreover have "list_all faultless (replicate 5 calm)" by (simp add: list_all_iff faultless_def)
  ultimately obtain w' where w': "exec faultless (entry wire_dep (CallCreateJob demo_input)) (sys_world initial_system)
      (CreateDone (Inr (demo_job, True))) w'" "jobs (w_db w') = [demo_job]"
    unfolding exec_iff_run by (metis initial_system_def system.select_convs(1))
  with exec_entry [OF reachable_init w'(1)] show ?thesis using reachable_steps [OF _ reachable_init] by blast
qed


end
