(* ===== verification/Completion.thy ===== *)
theory Completion
  imports Liveness
begin

text \<open>
  Jobs of a healthy deployment are COMPLETED: when nothing fails, nobody cancels and the input
  is an image that the imaging library can read, the shipped pipeline runs to its end, its
  output is stored and recorded, and the delivery is acked with the job COMPLETED.
\<close>

section \<open>Runs that cannot fail\<close>

definition stage_succeeds :: "(outside \<Rightarrow> bool) \<Rightarrow> 'img processor \<Rightarrow> bool" where
  "stage_succeeds F p \<longleftrightarrow> (\<forall>inp w r w'. exec F (proc_Process p inp) w r w' \<longrightarrow> (\<exists>out. r = Inr out))"

lemma exec_stages_succeed:
  assumes "\<And>oc. F oc \<Longrightarrow> o_ctx oc = CtxLive"
  shows "exec F (run_stages ps cur steps) w (steps', out, e) w' \<Longrightarrow> \<forall>p \<in> set ps. stage_succeeds F p \<Longrightarrow> e = None"
proof (induction ps arbitrary: cur steps w)
  case (Cons p ps)
  have stage: "\<exists>out. r = Inr out" if "exec F (proc_Process p inp) w r w'" for inp w r w'
    using Cons.prems(2) that unfolding stage_succeeds_def by (meson list.set_intros(1))
  from Cons.prems(1) assms obtain start r w1 w2 stop where
      r: "exec F (proc_Process p cur) w1 r w2"
      and rest: "exec F (case r of
           Inl e \<Rightarrow> Return
             (steps @ [\<lparr>sr_Name = proc_Name p, sr_Status = StepFailed, sr_Duration = stop - start, sr_Err = Some e\<rparr>],
              cur, Some (processor_error (proc_Name p) e))
         | Inr out \<Rightarrow> run_stages ps out
             (steps @ [\<lparr>sr_Name = proc_Name p, sr_Status = StepSucceeded, sr_Duration = stop - start, sr_Err = None\<rparr>]))
        w2 (steps', out, e) w'"
    by (fastforce simp: exec_step exec_bind)
  from stage [OF r] rest Cons.IH Cons.prems(2) show ?case by auto
qed simp

lemma default_stages_succeed:
  assumes "\<And>oc. F oc \<Longrightarrow> o_ctx oc = CtxLive" and "p \<in> set (pipe_processors (default_pipeline lib))"
  shows "stage_succeeds F p"
  using assms by (auto simp: stage_succeeds_def default_pipeline_def NewPipeline_def unless_cancelled_def
      ResizeProcessor_def FaceDetectionProcessor_def ColorProcessor_def BeautyProcessor_def BackgroundProcessor_def exec_step)

text \<open>An input that the imaging library reads, within the limits of \<open>Decode\<close>.\<close>

definition readable :: "'img imaging \<Rightarrow> string \<Rightarrow> bool" where
  "readable lib body \<longleftrightarrow> int (length body) \<le> MaxDecodeBytes
     \<and> (case lib_DecodeConfig lib body of
          Inl _ \<Rightarrow> False
        | Inr (width, height) \<Rightarrow> check_pixels width height = None
            \<and> (case lib_Decode lib body of Inl _ \<Rightarrow> False | Inr _ \<Rightarrow> True))"

lemma exec_Decode_readable:
  assumes "\<And>oc. F oc \<Longrightarrow> faultless oc \<and> readable lib (o_bytes oc)" and "exec F (Decode lib) w x w'"
  shows "\<exists>img. x = Inr img"
proof -
  obtain oc where oc: "F oc" and x: "exec F (fst (step_prog oc (Decode lib) w)) (snd (step_prog oc (Decode lib) w)) x w'"
    using assms(2) by (rule exec_callE) (simp add: Decode_def)
  have small: "take (nat (MaxDecodeBytes + 1)) (o_bytes oc) = o_bytes oc" if "int (length (o_bytes oc)) \<le> MaxDecodeBytes"
    using that by simp
  from assms(1) [OF oc] x show ?thesis
    by (auto simp: Decode_def readable_def faultless_def small split: sum.splits prod.splits)
qed

text \<open>What is asked of the replies: nothing fails, ids are fresh and the input is readable.\<close>

definition healthy :: "'img deployment \<Rightarrow> db \<Rightarrow> outside \<Rightarrow> bool" where
  "healthy dep d oc \<longleftrightarrow> fresh_replies d oc \<and> o_ctx oc = CtxLive
     \<and> row_of art_ID (o_uuid oc) (artifacts d) = None \<and> readable (dep_imaging dep) (o_bytes oc)"

definition encodes_always :: "'img imaging \<Rightarrow> bool" where
  "encodes_always lib \<longleftrightarrow> (\<forall>img. \<exists>buf. Encode lib img JPEG 90 = Inr buf)"

lemma healthyD:
  assumes "healthy dep d oc"
  shows "fresh_replies d oc" "faultless oc" "o_ctx oc = CtxLive" "row_of art_ID (o_uuid oc) (artifacts d) = None"
    "readable (dep_imaging dep) (o_bytes oc)"
  using assms fresh_faultless by (auto simp: healthy_def)

lemma exec_store_Get_calm:
  assumes "\<And>oc. F oc \<Longrightarrow> faultless oc" and "exec F (store_Get key) w e w'"
  shows "e = None"
  using assms(2)
  by (auto simp: store_Get_def store_Stat_def exec_bind exec_step faultless_def dest!: assms(1))

lemma exec_store_Put_calm:
  assumes "\<And>oc. F oc \<Longrightarrow> faultless oc" and "exec F (store_Put key buf n ct) w e w'"
  shows "e = None \<and> w_db w' = w_db w"
  using assms(2)
  by (auto simp: store_Put_def exec_step faultless_def faulty_write_def dest!: assms(1))

lemma exec_AddArtifact_calm:
  assumes "\<And>oc. F oc \<Longrightarrow> faultless oc \<and> row_of art_ID (o_uuid oc) (artifacts (w_db w)) = None"
    and "0 \<le> art_SizeBytes a" and "art_ID a = uuid_Nil" and "job_of (w_db w) (art_JobID a) \<noteq> None"
    and "exec F (AddArtifact a) w e w'"
  shows "e = None"
proof -
  let ?up = "\<lambda>i. UpsertArtifact (a\<lparr>art_ID := i\<rparr>) (\<lambda>r. Return
      (case r of Inl e \<Rightarrow> Some (wrap_prefix ''insert artifact'' e) | Inr _ \<Rightarrow> None))"
  obtain oc where oc: "F oc" and up: "exec F (?up (o_uuid oc)) w e w'"
    using assms(3,5) by (auto simp: AddArtifact_def exec_step [of "NewUUID k" for k])
  obtain oc' where oc': "F oc'" and r: "exec F (fst (step_prog oc' (?up (o_uuid oc)) w)) (snd (step_prog oc' (?up (o_uuid oc)) w)) e w'"
    using up by (rule exec_callE) simp_all
  have "fst (sql_upsert_artifact (o_now oc') (a\<lparr>art_ID := o_uuid oc\<rparr>) (w_db w)) = Inr ()"
    using assms(1) [OF oc] assms(2,4) by (auto simp: sql_upsert_artifact_def)
  then show ?thesis using r assms(1) [OF oc'] by (simp add: on_db_def faultless_def)
qed

text \<open>Artifacts of the tables are what the upsert looks at; the run before it leaves them alone.\<close>

lemma exec_runPipeline_healthy:
  assumes pipe: "he_registry (worker_env dep) (job_Pipeline job) (job_PipelineVersion job) = Inr (default_pipeline (dep_imaging dep))"
    and "encodes_always (dep_imaging dep)" and "job_of (w_db w) (job_ID job) \<noteq> None"
    and F: "\<And>oc. F oc \<Longrightarrow> healthy dep d oc" and "artifacts (w_db w) = artifacts d"
    and "exec F (runPipeline (worker_env dep) job) w (steps, e) w'"
  shows "e = None"
proof -
  have Ff: "faultless oc" if "F oc" for oc using healthyD(2) [OF F [OF that]] .
  have img: "he_imaging (worker_env dep) = dep_imaging dep" by (simp add: worker_env_def)
  have got: "g = None \<and> w1 = w" if "exec F (store_Get (job_InputObjectKey job)) w g w1" for g w1
    using exec_store_Get_calm [OF Ff that] exec_store_Get [OF that] by simp
  have decoded: "(\<exists>img. x = Inr img) \<and> w1 = w" if "exec F (Decode (dep_imaging dep)) w x w1" for x w1
    using exec_Decode_readable [OF _ that] healthyD(2,5) [OF F] exec_Decode [OF that] by blast
  have ran: "e' = None \<and> w1 = w" if "exec F (Run (default_pipeline (dep_imaging dep)) inp) w (ss, out, e') w1" for inp ss out e' w1
    using exec_stages_succeed [OF healthyD(3) [OF F] that [unfolded Run_def]] default_stages_succeed [OF healthyD(3) [OF F]]
      exec_run_stages [OF that [unfolded Run_def] stages_read_default] by blast
  have stored: "e' = None" if out: "exec F (store_output (worker_env dep) job ss out) w (ss', e') w1" for ss out ss' e' w1
  proof -
    obtain buf where buf: "Encode (dep_imaging dep) out JPEG 90 = Inr buf" using assms(2) by (auto simp: encodes_always_def)
    let ?key = "output_key (svc_lib (dep_service dep)) job" and ?n = "int (length buf)"
    let ?a = "artifact_for (svc_lib (dep_service dep)) job ?key ?n"
    obtain p w2 where put: "exec F (store_Put ?key buf ?n ''image/jpeg'') w p w2"
        and rest: "exec F (case p of Some e \<Rightarrow> Metric IncStorageError (Return (ss, Transient ''store-output'' (Some e)))
          | None \<Rightarrow> bind_prog (AddArtifact ?a) (\<lambda>a. Return (ss, Transient ''record-artifact'' a))) w2 (ss', e') w1"
      using out unfolding store_output_def img worker_env_sels(1) buf sum.case Let_def exec_bind by blast
    have p: "p = None" "w_db w2 = w_db w" using exec_store_Put_calm [OF Ff put] by simp_all
    then obtain x where x: "exec F (AddArtifact ?a) w2 x w1" "e' = Transient ''record-artifact'' x"
      using rest by (auto simp: exec_bind)
    have "faultless oc \<and> row_of art_ID (o_uuid oc) (artifacts (w_db w2)) = None" if "F oc" for oc
      using healthyD(2,4) [OF F [OF that]] p(2) assms(5) by simp
    from exec_AddArtifact_calm [OF this _ _ _ x(1)] have "x = None"
      using p(2) assms(3) by (simp add: artifact_for_def)
    then show ?thesis using x(2) by (simp add: Transient_def)
  qed
  show ?thesis
    using assms(6) unfolding runPipeline_def pipe
    by (auto simp: exec_bind img dest!: got decoded ran stored)
qed

lemma worker_default_pipeline:
  "he_registry (worker_env dep) ''portrait-enhance'' ''v1'' = Inr (default_pipeline (dep_imaging dep))"
  by (simp add: worker_env_def registry_Get_def default_registry_def)

lemma healthy_delivery:
  assumes "reachable dep s" and "json_Unmarshal (svc_lib (dep_service dep)) payload = Some msg"
    and "uuid_Parse (svc_lib (dep_service dep)) (msg_JobID msg) = Some i"
    and "job_of (sys_db s) i = Some j" and "job_Status j = StatusQueued"
    and "job_Pipeline j = ''portrait-enhance''" and "job_PipelineVersion j = ''v1''"
    and "encodes_always (dep_imaging dep)"
    and "exec (healthy dep (sys_db s)) (process (worker_env dep) payload) (sys_world s) out w'"
  shows "out = Ack \<and> (\<exists>j' a. job_of (w_db w') i = Some j' \<and> job_Status j' = StatusCompleted
    \<and> job_AttemptCount j' = job_AttemptCount j + 1 \<and> attempts (w_db w') = attempts (sys_db s) @ [a]
    \<and> att_JobID a = i \<and> att_Number a = job_AttemptCount j' \<and> att_Status a = AttemptSucceeded
    \<and> output_recorded (svc_lib (dep_service dep)) j' w')"
proof -
  have "clean_run (healthy dep (sys_db s)) (worker_env dep) (claimed_row now j) d"
    if "job_of d i = Some (claimed_row now j)" "artifacts d = artifacts (sys_db s)" for now d
    unfolding clean_run_def
  proof (intro allI impI)
    fix w steps e w2
    assume "w_db w = d" and ex: "exec (healthy dep (sys_db s)) (runPipeline (worker_env dep) (claimed_row now j)) w (steps, e) w2"
    then show "e = None"
      using that assms(6,7) row_of_key [OF that(1)]
      by (intro exec_runPipeline_healthy [OF _ assms(8) _ _ _ ex]) (simp_all add: worker_default_pipeline claimed_row_def)
  qed
  with exec_delivery_runs [OF assms(1-5) healthyD(1) assms(9)] show ?thesis
    by (fastforce simp: ends_as_def)
qed

lemma demo_delivery_run:
  "\<exists>out w'. exec (healthy demo_dep (sys_db queued_system)) (process (worker_env demo_dep) ''job1'') (sys_world queued_system) out w'"
proof -
  have "healthy demo_dep (sys_db queued_system) calm"
    by (simp add: healthy_def fresh_replies_def faultless_def demo_states readable_def MaxDecodeBytes_def demo_imaging_def
        check_pixels_def HasPrefix_def Let_def MaxPixels_def int64_wrap_def)
  then show ?thesis
    using takes_ex_exec [OF takes_process [OF default_registry_takes]] by (metis worker_env_registry)
qed

lemma demo_job_facts:
  "job_of (sys_db queued_system) 1 = Some demo_job" "job_Status demo_job = StatusQueued" "job_AttemptCount demo_job = 0"
  "job_Pipeline demo_job = ''portrait-enhance''" "job_PipelineVersion demo_job = ''v1''" "encodes_always demo_imaging"
  by (simp_all add: demo_states encodes_always_def Encode_def demo_imaging_def)

lemma demo_delivery_completes:
  "\<exists>w' j'. exec (healthy demo_dep (sys_db queued_system)) (process (worker_env demo_dep) ''job1'') (sys_world queued_system) Ack w'
     \<and> job_of (w_db w') 1 = Some j' \<and> job_Status j' = StatusCompleted \<and> job_AttemptCount j' = 1 \<and> output_recorded demo_lib j' w'"
proof -
  obtain out w' where ex: "exec (healthy demo_dep (sys_db queued_system)) (process (worker_env demo_dep) ''job1'')
      (sys_world queued_system) out w'"
    using demo_delivery_run by blast
  show ?thesis
    using healthy_delivery [OF reachable_queued _ _ demo_job_facts(1) _ _ _ _ ex] ex demo_job_facts by fastforce
qed



end
