(* ===== verification/Outputs.thy ===== *)
theory Outputs
  imports Completion
begin

text \<open>
  No COMPLETED job without its output, in any interleaving and under any faults: what a
  worker knows about the object store and the artifacts when it marks a job COMPLETED, and
  that no other call of the program can make such a job or take its output away.
\<close>

section \<open>Outputs and facts about them\<close>

text \<open>The key of a job's output depends on the job's id only.\<close>

definition result_key :: "library \<Rightarrow> uuid \<Rightarrow> string" where
  "result_key lib i = GenerateOutputKey (uuid_String lib i) ''result.jpg''"

lemma output_key_result: "output_key lib job = result_key lib (job_ID job)"
  by (simp add: output_key_def result_key_def)

definition has_object :: "library \<Rightarrow> uuid \<Rightarrow> int \<Rightarrow> world \<Rightarrow> bool" where
  "has_object lib i n w \<longleftrightarrow> (\<exists>buf. (result_key lib i, buf, n, ''image/jpeg'') \<in> set (stored w) \<and> n = int (length buf))"

definition has_artifact :: "uuid \<Rightarrow> world \<Rightarrow> bool" where
  "has_artifact i w \<longleftrightarrow> i \<in> art_JobID ` set (artifacts (w_db w))"

definition backed :: "library \<Rightarrow> world \<Rightarrow> artifact \<Rightarrow> bool" where
  "backed lib w a \<longleftrightarrow> art_ObjectKey a = result_key lib (art_JobID a) \<and> art_Kind a = ''output''
     \<and> art_ContentType a = ''image/jpeg'' \<and> has_object lib (art_JobID a) (art_SizeBytes a) w"

definition outputs_ok :: "library \<Rightarrow> world \<Rightarrow> bool" where
  "outputs_ok lib w \<longleftrightarrow> (\<forall>a \<in> set (artifacts (w_db w)). backed lib w a)
     \<and> (\<forall>j \<in> set (jobs (w_db w)). job_Status j = StatusCompleted \<longrightarrow> has_artifact (job_ID j) w)"

text \<open>Objects are never removed by the program, nor are artifacts: facts about them last.\<close>

definition world_le :: "world \<Rightarrow> world \<Rightarrow> bool" where
  "world_le w w' \<longleftrightarrow> set (stored w) \<subseteq> set (stored w')
     \<and> art_JobID ` set (artifacts (w_db w)) \<subseteq> art_JobID ` set (artifacts (w_db w'))"

definition lasting :: "(world \<Rightarrow> bool) \<Rightarrow> bool" where
  "lasting K \<longleftrightarrow> (\<forall>w w'. K w \<longrightarrow> world_le w w' \<longrightarrow> K w')"

lemma lastingD: "lasting K \<Longrightarrow> K w \<Longrightarrow> world_le w w' \<Longrightarrow> K w'"
  unfolding lasting_def by blast

lemma lasting_facts [simp, intro]:
  "lasting (\<lambda>_. c)" "lasting (has_object lib i n)" "lasting (has_artifact i)"
  by (auto simp: lasting_def world_le_def has_object_def has_artifact_def)

lemma sql_artifacts [simp]:
  "artifacts (snd (sql_insert_job now p d)) = artifacts d"
  "artifacts (snd (tx_insert_job_with_key now p key h d)) = artifacts d"
  "artifacts (snd (sql_update_job now i s u d)) = artifacts d"
  "artifacts (snd (tx_claim now i aid d)) = artifacts d"
  "artifacts (snd (sql_finish_attempt now aid st msg d)) = artifacts d"
  "artifacts (snd (sql_insert_step sr d)) = artifacts d"
  by (auto simp: sql_insert_job_def tx_insert_job_with_key_def sql_update_job_def guarded_update_def tx_claim_def
      sql_insert_attempt_def sql_finish_attempt_def sql_insert_step_def Let_def split: option.splits sum.splits prod.splits)

lemma map_row_image: "(\<And>r. g (f r) = g r) \<Longrightarrow> g ` set (map_row key k f rows) = g ` set rows"
  unfolding map_row_def set_map image_image by (rule image_cong) simp_all

lemma upsert_keeps_artifacts:
  "art_JobID ` set (artifacts d) \<subseteq> art_JobID ` set (artifacts (snd (sql_upsert_artifact now a d)))"
  by (auto simp: sql_upsert_artifact_def map_row_image)

lemma faulty_artifacts:
  "(\<And>d. artifacts (snd (f d)) = artifacts d) \<Longrightarrow> artifacts (snd (faulty_sql fl f d)) = artifacts d"
  "(\<And>d. artifacts (snd (g d)) = artifacts d) \<Longrightarrow> artifacts (snd (faulty_tx fl g d)) = artifacts d"
  by (cases fl; simp)+

text \<open>The calls that could break the invariant: recording an artifact and completing a job.\<close>

fun plain_call :: "'r prog \<Rightarrow> bool" where
  "plain_call (UpsertArtifact a k) \<longleftrightarrow> False"
| "plain_call (UpdateJob i s u k) \<longleftrightarrow> upd_To u \<noteq> StatusCompleted"
| "plain_call _ \<longleftrightarrow> True"


section \<open>What one call does to them\<close>

lemma step_world_le: "world_le w (snd (step_prog oc p w))"
proof -
  have upsert: "art_JobID ` set (artifacts d) \<subseteq> art_JobID ` set (artifacts (snd (faulty_sql fl (sql_upsert_artifact now a) d)))"
    for fl now a d using upsert_keeps_artifacts by (cases fl) auto
  show ?thesis
    by (cases p; cases "o_fault oc")
      (simp_all add: world_le_def on_db_def faulty_artifacts faulty_write_def Let_def upsert upsert_keeps_artifacts,
        auto)
qed

text \<open>Rows that a plain call leaves COMPLETED were COMPLETED before.\<close>

definition no_completion :: "db \<Rightarrow> db \<Rightarrow> bool" where
  "no_completion d d' \<longleftrightarrow> (\<forall>j \<in> set (jobs d'). job_Status j = StatusCompleted \<longrightarrow> j \<in> set (jobs d))"

lemma no_completion_refl [simp]: "jobs d' = jobs d \<Longrightarrow> no_completion d d'"
  by (simp add: no_completion_def)

lemma no_completion_guarded:
  "(\<And>r. job_Status (f r) \<noteq> StatusCompleted) \<Longrightarrow> guarded_update i s f d = (x, d') \<Longrightarrow> no_completion d d'"
  by (auto simp: no_completion_def guarded_update_def map_row_def split: option.splits if_splits)

lemma no_completion_sql:
  "no_completion d (snd (sql_insert_job now p d))"
  "no_completion d (snd (tx_insert_job_with_key now p key h d))"
  "upd_To u \<noteq> StatusCompleted \<Longrightarrow> no_completion d (snd (sql_update_job now i s u d))"
  "no_completion d (snd (tx_claim now i aid d))"
  "no_completion d (snd (sql_finish_attempt now aid st msg d))"
  "no_completion d (snd (sql_insert_step sr d))"
proof -
  show "no_completion d (snd (sql_insert_job now p d))" "no_completion d (snd (tx_insert_job_with_key now p key h d))"
      "no_completion d (snd (sql_finish_attempt now aid st msg d))" "no_completion d (snd (sql_insert_step sr d))"
    by (auto simp: no_completion_def sql_insert_job_def tx_insert_job_with_key_def new_job_row_def
        sql_finish_attempt_def sql_insert_step_def Let_def split: option.splits sum.splits)
  show "no_completion d (snd (sql_update_job now i s u d))" if "upd_To u \<noteq> StatusCompleted"
  proof -
    obtain x d' where g: "guarded_update i s (updated_row now u) d = (x, d')" by fastforce
    have "no_completion d d'" by (rule no_completion_guarded [OF _ g]) (simp add: updated_row_def that)
    then show ?thesis using g by (auto simp: sql_update_job_def split: option.split)
  qed
  show "no_completion d (snd (tx_claim now i aid d))"
  proof -
    obtain x d' where g: "guarded_update i StatusQueued (claimed_row now) d = (x, d')" by fastforce
    have "no_completion d d'" by (rule no_completion_guarded [OF _ g]) (simp add: claimed_row_def)
    moreover have "jobs (snd (sql_insert_attempt a d')) = jobs d'" for a by (simp add: sql_insert_attempt_def)
    ultimately show ?thesis using g
      by (auto simp: tx_claim_def Let_def no_completion_def split: option.split sum.split prod.split) (metis snd_conv)+
  qed
qed

lemma no_completion_faulty:
  "(\<And>d. no_completion d (snd (f d))) \<Longrightarrow> no_completion d (snd (faulty_sql fl f d))"
  "(\<And>d. no_completion d (snd (g d))) \<Longrightarrow> no_completion d (snd (faulty_tx fl g d))"
  by (cases fl; simp)+

lemma plain_step:
  assumes "plain_call p"
  shows "artifacts (w_db (snd (step_prog oc p w))) = artifacts (w_db w) \<and> no_completion (w_db w) (w_db (snd (step_prog oc p w)))"
  using assms
  by (cases p) (simp_all add: on_db_def faulty_artifacts no_completion_faulty no_completion_sql Let_def split: prod.split)

lemma outputs_ok_plain:
  assumes "outputs_ok lib w" and "plain_call p"
  shows "outputs_ok lib (snd (step_prog oc p w))"
proof -
  let ?w = "snd (step_prog oc p w)"
  have same: "artifacts (w_db ?w) = artifacts (w_db w)" "no_completion (w_db w) (w_db ?w)"
    using plain_step [OF assms(2)] by blast+
  have "backed lib ?w a" if "backed lib w a" for a
    using that lastingD [OF lasting_facts(2) _ step_world_le] by (auto simp: backed_def)
  then show ?thesis using assms(1) same by (auto simp: outputs_ok_def no_completion_def has_artifact_def)
qed


section \<open>Programs that complete only jobs with an output\<close>

text \<open>
  \<open>careful lib Q K p\<close>: started when \<open>K\<close> holds, \<open>p\<close> keeps the invariant with each call,
  whatever others do between its calls, and \<open>Q r\<close> holds when it returns \<open>r\<close>.
\<close>

inductive careful :: "library \<Rightarrow> ('r \<Rightarrow> world \<Rightarrow> bool) \<Rightarrow> (world \<Rightarrow> bool) \<Rightarrow> 'r prog \<Rightarrow> bool" for lib Q where
  careful_Return: "(\<And>w. K w \<Longrightarrow> Q r w) \<Longrightarrow> careful lib Q K (Return r)"
| careful_Panic: "careful lib Q K Panic"
| careful_call: "\<not> is_done p \<Longrightarrow> (\<And>oc w. K w \<Longrightarrow> outputs_ok lib w \<Longrightarrow>
      outputs_ok lib (snd (step_prog oc p w))
      \<and> (\<exists>K'. lasting K' \<and> K' (snd (step_prog oc p w)) \<and> careful lib Q K' (fst (step_prog oc p w))))
    \<Longrightarrow> careful lib Q K p"

lemma careful_weaken: "careful lib Q K p \<Longrightarrow> (\<And>w. L w \<Longrightarrow> K w) \<Longrightarrow> careful lib Q L p"
proof (induction arbitrary: L rule: careful.induct)
  case (careful_call p K)
  show ?case
    by (rule careful.careful_call [OF careful_call.hyps(1)]) (use careful_call.IH careful_call.prems in blast)
qed (auto intro: careful.intros)

lemma careful_bind:
  assumes "careful lib Q1 K p" and "\<And>r. careful lib Q (Q1 r) (f r)"
  shows "careful lib Q K (bind_prog p f)"
  using assms(1)
proof (induction rule: careful.induct)
  case (careful_Return K r)
  then show ?case by (auto intro: careful_weaken [OF assms(2)])
next
  case (careful_call p K)
  show ?case
    by (rule careful.careful_call [OF is_done_bind [OF careful_call.hyps(1)]])
      (use careful_call.IH in \<open>simp add: step_prog_bind [OF careful_call.hyps(1)], blast\<close>)
qed (simp add: careful.careful_Panic)

lemma careful_recover:
  "careful lib Q K p \<Longrightarrow> careful lib (\<lambda>_ _. True) K (recover_prog p d)"
proof (induction rule: careful.induct)
  case (careful_call p K)
  then have "\<not> is_done (recover_prog p d)" by simp
  then show ?case
    by (rule careful.careful_call) (use careful_call.IH in \<open>simp add: step_recover [OF careful_call.hyps(1)], blast\<close>)
qed (auto intro: careful.intros)

text \<open>Plain programs make only plain calls, so they keep the invariant and every lasting fact.\<close>

inductive plain :: "'r prog \<Rightarrow> bool" where
  plain_done: "is_done p \<Longrightarrow> plain p"
| plain_next: "\<not> is_done p \<Longrightarrow> plain_call p \<Longrightarrow> (\<And>oc w. plain (fst (step_prog oc p w))) \<Longrightarrow> plain p"

lemma careful_plain:
  assumes "plain p" and "lasting K"
  shows "careful lib (\<lambda>_. K) K p"
  using assms(1)
proof (induction rule: plain.induct)
  case (plain_done p)
  then show ?case by (auto simp: is_done_cases intro: careful.intros)
next
  case (plain_next p)
  show ?case
  proof (rule careful_call [OF plain_next.hyps(1)], intro conjI)
    fix oc w assume "K w" "outputs_ok lib w"
    then show "outputs_ok lib (snd (step_prog oc p w))" by (intro outputs_ok_plain plain_next.hyps(2))
    from \<open>K w\<close> show "\<exists>K'. lasting K' \<and> K' (snd (step_prog oc p w)) \<and> careful lib (\<lambda>_. K) K' (fst (step_prog oc p w))"
      using plain_next.IH assms(2) lastingD [OF assms(2) _ step_world_le] by blast
  qed
qed

lemma careful_plain_True: "plain p \<Longrightarrow> careful lib (\<lambda>_ _. True) K p"
  using careful_plain [of p "\<lambda>_. True"] by (auto intro: careful_weaken)

named_theorems plain_intros \<open>plain calls and their continuations\<close>

lemma plain_Return [simp, intro]: "plain (Return r)"
  by (simp add: plain_done)

lemma plain_bind: "plain p \<Longrightarrow> (\<And>r. plain (f r)) \<Longrightarrow> plain (bind_prog p f)"
proof (induction rule: plain.induct)
  case (plain_done p)
  then show ?case by (auto simp: is_done_cases intro: plain.plain_done)
next
  case (plain_next p)
  have "plain_call (bind_prog p f)" using plain_next.hyps(1,2) by (cases p) simp_all
  then show ?case
    by (rule plain.plain_next [OF is_done_bind [OF plain_next.hyps(1)]])
      (use plain_next.IH plain_next.prems in \<open>simp add: step_prog_bind [OF plain_next.hyps(1)]\<close>)
qed

lemma plain_calls [plain_intros]:
  "(\<And>x. plain (fu x)) \<Longrightarrow> plain (NewUUID fu)"
  "(\<And>x. plain (ft x)) \<Longrightarrow> plain (TimeNow ft)"
  "(\<And>x. plain (fy x)) \<Longrightarrow> plain (YearMonth fy)"
  "(\<And>x. plain (fc x)) \<Longrightarrow> plain (CtxErr fc)"
  "(\<And>x. plain (fi x)) \<Longrightarrow> plain (Int64N m fi)"
  "plain fm \<Longrightarrow> plain (Metric me fm)"
  "(\<And>x. plain (f1 x)) \<Longrightarrow> plain (InsertJob p f1)"
  "(\<And>x. plain (f2 x)) \<Longrightarrow> plain (InsertJobWithKey p k h f2)"
  "(\<And>x. plain (f3 x)) \<Longrightarrow> plain (SelectKey k f3)"
  "(\<And>x. plain (f4 x)) \<Longrightarrow> plain (SelectJob i f4)"
  "upd_To u \<noteq> StatusCompleted \<Longrightarrow> (\<And>x. plain (f5 x)) \<Longrightarrow> plain (UpdateJob i s u f5)"
  "(\<And>x. plain (f6 x)) \<Longrightarrow> plain (ExistsJob i f6)"
  "(\<And>x. plain (f7 x)) \<Longrightarrow> plain (ClaimJob i a f7)"
  "(\<And>x. plain (f8 x)) \<Longrightarrow> plain (UpdateAttempt i st msg f8)"
  "(\<And>x. plain (f9 x)) \<Longrightarrow> plain (InsertStep sr f9)"
  "(\<And>x. plain (f11 x)) \<Longrightarrow> plain (SelectArtifacts i f11)"
  "(\<And>x. plain (f12 x)) \<Longrightarrow> plain (SelectRequeueable c l f12)"
  "(\<And>x. plain (g1 x)) \<Longrightarrow> plain (MinioStat key g1)"
  "(\<And>x. plain (g2 x)) \<Longrightarrow> plain (MinioGet key g2)"
  "(\<And>x. plain (g3 x)) \<Longrightarrow> plain (ReadBody n g3)"
  "(\<And>x. plain (g4 x)) \<Longrightarrow> plain (MinioPut key bytes sz ct g4)"
  "(\<And>x. plain (g6 x)) \<Longrightarrow> plain (MinioPresign g key e g6)"
  "(\<And>x. plain (g7 x)) \<Longrightarrow> plain (PublishMsg key bytes g7)"
  by (rule plain_next; simp add: on_db_def Let_def split: prod.splits; fail)+

lemma plain_repository:
  "plain (GetJob i)" "plain (insertJob p)" "plain (classifyMissingUpdate i)" "plain (FinishAttempt aid st msg)"
  "plain (AddProcessingStep s)" "plain (repo_ListArtifacts i)" "plain (ListRequeueable cutoff limit)"
  "plain (BeginAttempt i)" "plain (resolveExisting key h)" "plain (repo_CreateJob p key h)"
  "upd_To u \<noteq> StatusCompleted \<Longrightarrow> plain (UpdateJobStatus i src u)"
proof -
  show get: "plain (GetJob i)" and ins: "plain (insertJob p)" and miss: "plain (classifyMissingUpdate i)" for i
    by (auto simp: GetJob_def insertJob_def classifyMissingUpdate_def intro!: plain_intros)
  show "plain (FinishAttempt aid st msg)" "plain (AddProcessingStep s)" "plain (repo_ListArtifacts i)"
      "plain (ListRequeueable cutoff limit)"
    by (auto simp: FinishAttempt_def AddProcessingStep_def repo_ListArtifacts_def ListRequeueable_def Let_def
        intro!: plain_intros)
  show resolve: "plain (resolveExisting key h)"
    by (auto simp: resolveExisting_def intro!: plain_intros plain_bind get split: sum.split option.split)
  then show "plain (repo_CreateJob p key h)"
    by (auto simp: repo_CreateJob_def intro!: plain_intros plain_bind ins split: sum.split option.split tx_stage.split)
  show "plain (BeginAttempt i)"
    by (auto simp: BeginAttempt_def intro!: plain_intros plain_bind miss split: sum.split option.split tx_stage.split)
  show "plain (UpdateJobStatus i src u)" if "upd_To u \<noteq> StatusCompleted"
    using that by (auto simp: UpdateJobStatus_def intro!: plain_intros plain_bind miss split: sum.split option.split)
qed


lemma plain_store:
  "plain (store_Stat key)" "plain (store_Get key)" "plain (store_Put key body n ct)" "plain (PresignUpload key expiry)"
  "plain (Publish lib m)" "plain (Decode img)"
proof -
  show stat: "plain (store_Stat key)" for key by (auto simp: store_Stat_def intro!: plain_intros)
  show "plain (store_Get key)"
    by (auto simp: store_Get_def intro!: plain_intros plain_bind stat split: sum.split)
  show "plain (store_Put key body n ct)" "plain (PresignUpload key expiry)" "plain (Publish lib m)" "plain (Decode img)"
    by (auto simp: store_Put_def PresignUpload_def Publish_def Decode_def intro!: plain_intros split: sum.split)
qed

lemma plain_service:
  "plain (CreateUpload s cui)" "plain (CreateJob s inp)" "plain (CancelJob i)" "plain (Sweep lib minAge limit)"
  "plain (watch_tick i)" "plain (svc_GetJob i)" "plain (svc_ListArtifacts i)"
proof -
  note ops = plain_repository plain_store
  show "plain (CreateUpload s cui)"
    by (auto simp: CreateUpload_def Let_def intro!: plain_intros plain_bind ops split: sum.split option.split)
  have enq: "plain (enqueue s job)" for job
    by (auto simp: enqueue_def JobUpdate_def intro!: plain_bind ops split: sum.split)
  have fin: "plain (finish_create s job created)" for job created
    by (auto simp: finish_create_def intro!: plain_bind enq ops split: sum.split option.split)
  show "plain (CreateJob s inp)"
    by (auto simp: CreateJob_def Let_def intro!: plain_intros plain_bind ops fin split: sum.split option.split)
  have loop: "plain (cancel_loop n i job)" for n job
    by (induction n arbitrary: job) (auto simp: JobUpdate_def intro!: plain_bind ops split: sum.split)
  then show "plain (CancelJob i)" by (auto simp: CancelJob_def intro!: plain_bind ops split: sum.split)
  have sweep: "plain (sweep_jobs lib js n)" for js n
    by (induction js arbitrary: n) (auto intro!: plain_bind ops split: option.split)
  then show "plain (Sweep lib minAge limit)"
    by (auto simp: Sweep_def intro!: plain_intros plain_bind ops split: sum.split)
  show "plain (watch_tick i)" "plain (svc_GetJob i)" "plain (svc_ListArtifacts i)"
    by (auto simp: watch_tick_def svc_GetJob_def svc_ListArtifacts_def intro!: plain_bind ops)
qed

definition stages_plain :: "'img processor list \<Rightarrow> bool" where
  "stages_plain ps \<longleftrightarrow> (\<forall>p \<in> set ps. \<forall>d. plain (proc_Process p d))"

lemma plain_run_stages: "stages_plain ps \<Longrightarrow> plain (run_stages ps cur steps)"
  by (induction ps arbitrary: cur steps)
    (auto simp: stages_plain_def intro!: plain_intros plain_bind split: option.split sum.split)

lemma plain_persistSteps: "plain (persistSteps attempt steps)"
  by (induction steps) (auto intro!: plain_intros plain_bind plain_repository)

lemma plain_finalizeFailure: "plain (finalizeFailure job attempt e)"
proof -
  note ops = plain_repository
  have fails: "plain (markFailed i c)" for i c
    by (auto simp: markFailed_def failed_update_def JobUpdate_def intro!: plain_bind ops)
  have retries: "plain (scheduleRetry i c delay)" for i c delay
    by (auto simp: scheduleRetry_def failed_update_def retrying_update_def requeued_update_def JobUpdate_def
        intro!: plain_bind plain_intros ops split: sum.split)
  have "plain (backoff n)" for n by (auto simp: backoff_def Let_def intro!: plain_intros)
  then have "plain (retry_or_fail job e)"
    by (auto simp: retry_or_fail_def Let_def intro!: plain_bind plain_intros fails retries split: option.split)
  then show ?thesis
    by (auto simp: finalizeFailure_def intro!: plain_intros plain_bind ops split: sum.split)
qed

section \<open>The worker\<close>

text \<open>Storing and recording an output.\<close>

lemma careful_store_Put:
  "careful lib (\<lambda>r w. r = None \<longrightarrow> has_object lib i (int (length buf)) w) K
     (store_Put (result_key lib i) buf (int (length buf)) ''image/jpeg'')"
  unfolding store_Put_def
proof (rule careful_call, simp, intro conjI)
  fix oc w assume "outputs_ok lib w"
  let ?k = "\<lambda>r. Return (case r of Inl e \<Rightarrow> Some (wrap_keyed ''put'' (result_key lib i) e) | Inr _ \<Rightarrow> None) :: err option prog"
  let ?p = "MinioPut (result_key lib i) buf (int (length buf)) ''image/jpeg'' ?k"
  show "outputs_ok lib (snd (step_prog oc ?p w))" by (rule outputs_ok_plain) (use \<open>outputs_ok lib w\<close> in simp_all)
  let ?ok = "o_fault oc = NoFault"
  have "?ok \<Longrightarrow> has_object lib i (int (length buf)) (snd (step_prog oc ?p w))"
    by (auto simp: has_object_def faulty_write_def)
  moreover have "\<not> ?ok \<Longrightarrow> \<exists>e. fst (step_prog oc ?p w) = Return (Some e)"
    by (cases "o_fault oc") (auto simp: faulty_write_def)
  moreover have "?ok \<Longrightarrow> fst (step_prog oc ?p w) = Return None" by (simp add: faulty_write_def)
  ultimately show "\<exists>K'. lasting K' \<and> K' (snd (step_prog oc ?p w))
      \<and> careful lib (\<lambda>r w. r = None \<longrightarrow> has_object lib i (int (length buf)) w) K' (fst (step_prog oc ?p w))"
    by (intro exI [of _ "if ?ok then has_object lib i (int (length buf)) else (\<lambda>_. True)"])
      (auto intro!: careful_Return)
qed

lemma outputs_ok_upsert:
  assumes ok: "outputs_ok lib w" and a: "backed lib w a" and d': "sql_upsert_artifact now a (w_db w) = (x, d')"
  shows "outputs_ok lib (w\<lparr>w_db := d'\<rparr>) \<and> (x = Inr () \<longrightarrow> has_artifact (art_JobID a) (w\<lparr>w_db := d'\<rparr>))"
proof -
  have le: "art_JobID ` set (artifacts (w_db w)) \<subseteq> art_JobID ` set (artifacts d')" and jobs: "jobs d' = jobs (w_db w)"
    using upsert_keeps_artifacts [of "w_db w" now a] d'
    by (auto simp: sql_upsert_artifact_def split: if_splits)
  have "backed lib w r" if "r \<in> set (artifacts d')" for r
    using that d' ok a by (auto simp: sql_upsert_artifact_def map_row_def outputs_ok_def backed_def split: if_splits)
  then have "\<forall>r \<in> set (artifacts d'). backed lib (w\<lparr>w_db := d'\<rparr>) r"
    by (auto simp: backed_def has_object_def)
  moreover have "art_JobID a \<in> art_JobID ` set (artifacts d')" if "x = Inr ()"
  proof (cases "row_of art_slot (art_slot a) (artifacts (w_db w))")
    case None
    then have "artifacts d' = artifacts (w_db w) @ [a\<lparr>art_CreatedAt := now\<rparr>]"
      using d' that by (auto simp: sql_upsert_artifact_def split: if_splits)
    then show ?thesis by simp
  next
    case (Some r)
    then have "r \<in> set (artifacts (w_db w))" "art_JobID r = art_JobID a" using row_of_SomeD [OF Some] by simp_all
    then show ?thesis using le by (metis image_eqI subsetD)
  qed
  ultimately show ?thesis using ok le jobs by (auto simp: outputs_ok_def has_artifact_def)
qed


lemma backed_any_id: "backed lib w (a\<lparr>art_ID := u\<rparr>) \<longleftrightarrow> backed lib w a"
  by (simp add: backed_def)

lemma careful_plain_call:
  assumes "\<not> is_done p" and "plain_call p" and "lasting K" and "\<And>oc w. careful lib Q K (fst (step_prog oc p w))"
  shows "careful lib Q K p"
proof (rule careful_call [OF assms(1)], intro conjI)
  fix oc w assume "K w" "outputs_ok lib w"
  then show "outputs_ok lib (snd (step_prog oc p w))" by (intro outputs_ok_plain assms(2))
  show "\<exists>K'. lasting K' \<and> K' (snd (step_prog oc p w)) \<and> careful lib Q K' (fst (step_prog oc p w))"
    using assms(3,4) lastingD [OF assms(3) \<open>K w\<close> step_world_le] by blast
qed

lemma careful_prims:
  "lasting K \<Longrightarrow> careful lib Q K f \<Longrightarrow> careful lib Q K (Metric m f)"
  "lasting K \<Longrightarrow> (\<And>u. careful lib Q K (fu u)) \<Longrightarrow> careful lib Q K (NewUUID fu)"
  "lasting K \<Longrightarrow> (\<And>t. careful lib Q K (ft t)) \<Longrightarrow> careful lib Q K (TimeNow ft)"
  by (rule careful_plain_call; simp)+

lemma careful_UpsertArtifact:
  assumes "\<And>w. K w \<Longrightarrow> backed lib w a" and "\<And>e. Q (Some e) = (\<lambda>_. True)" and "Q None = has_artifact (art_JobID a)"
  shows "careful lib Q K (UpsertArtifact a (\<lambda>r. Return
     (case r of Inl e \<Rightarrow> Some (wrap_prefix ''insert artifact'' e) | Inr _ \<Rightarrow> None)))" (is "careful lib Q K ?p")
proof (rule careful_call, simp)
  fix oc :: outside and w :: world
  assume "K w" and ok: "outputs_ok lib w"
  obtain x d' where x: "sql_upsert_artifact (o_now oc) a (w_db w) = (x, d')" by fastforce
  note up = outputs_ok_upsert [OF ok assms(1) [OF \<open>K w\<close>] x]
  show "outputs_ok lib (snd (step_prog oc ?p w)) \<and>
      (\<exists>K'. lasting K' \<and> K' (snd (step_prog oc ?p w)) \<and> careful lib Q K' (fst (step_prog oc ?p w)))"
  proof (cases "o_fault oc = NoFault \<and> x = Inr ()")
    case True
    then show ?thesis
      using up x assms(3) by (intro conjI exI [of _ "has_artifact (art_JobID a)"]) (auto simp: on_db_def intro!: careful_Return)
  next
    case False
    then obtain e where "fst (step_prog oc ?p w) = Return (Some e)"
      using x by (cases "o_fault oc"; cases x) (auto simp: on_db_def)
    moreover have "outputs_ok lib (snd (step_prog oc ?p w))"
      using up ok x by (cases "o_fault oc") (auto simp: on_db_def)
    ultimately show ?thesis
      using assms(2) by (intro conjI exI [of _ "\<lambda>_. True"]) (auto intro!: careful_Return)
  qed
qed

lemma careful_AddArtifact:
  assumes "lasting K" and "\<And>w. K w \<Longrightarrow> backed lib w a"
  shows "careful lib (\<lambda>r w. r = None \<longrightarrow> has_artifact (art_JobID a) w) K (AddArtifact a)"
proof -
  let ?Q = "\<lambda>r w. r = None \<longrightarrow> has_artifact (art_JobID a) w"
  have up: "careful lib ?Q K (UpsertArtifact (a\<lparr>art_ID := u\<rparr>) (\<lambda>r. Return
      (case r of Inl e \<Rightarrow> Some (wrap_prefix ''insert artifact'' e) | Inr _ \<Rightarrow> None)))" for u
    by (rule careful_UpsertArtifact) (simp_all add: backed_any_id assms(2))
  have "careful lib ?Q K (NewUUID (\<lambda>u. UpsertArtifact (a\<lparr>art_ID := u\<rparr>) (\<lambda>r. Return
      (case r of Inl e \<Rightarrow> Some (wrap_prefix ''insert artifact'' e) | Inr _ \<Rightarrow> None))))"
    by (rule careful_prims [OF assms(1) up])
  then show ?thesis using up [of "art_ID a"] by (simp add: AddArtifact_def)
qed

lemma careful_consequence:
  "careful lib Q K p \<Longrightarrow> (\<And>r w. Q r w \<Longrightarrow> Q' r w) \<Longrightarrow> careful lib Q' K p"
proof (induction rule: careful.induct)
  case (careful_call p K)
  show ?case
    by (rule careful.careful_call [OF careful_call.hyps(1)]) (use careful_call.IH careful_call.prems in blast)
qed (auto intro: careful.intros)

text \<open>What the pipeline's run tells when it returns no error.\<close>

definition run_promise :: "job \<Rightarrow> step_result list \<times> err option \<Rightarrow> world \<Rightarrow> bool" where
  "run_promise job r w \<longleftrightarrow> (snd r = None \<longrightarrow> has_artifact (job_ID job) w)"

lemma careful_error: "careful lib (run_promise job) K (Return (steps, Some e))"
  by (rule careful_Return) (simp add: run_promise_def)

lemma careful_store_output:
  "careful (he_lib h) (run_promise job) K (store_output h job steps img)"
proof (cases "Encode (he_imaging h) img JPEG 90")
  case (Inl e)
  then show ?thesis by (simp add: store_output_def Transient_def careful_error)
next
  case (Inr buf)
  let ?lib = "he_lib h" and ?n = "int (length buf)"
  let ?a = "artifact_for ?lib job (output_key ?lib job) ?n"
  have "careful ?lib (run_promise job) (\<lambda>w. p = None \<longrightarrow> has_object ?lib (job_ID job) ?n w)
      (case p of Some e \<Rightarrow> Metric IncStorageError (Return (steps, Transient ''store-output'' (Some e)))
       | None \<Rightarrow> bind_prog (AddArtifact ?a) (\<lambda>a. Return (steps, Transient ''record-artifact'' a)))" for p
  proof (cases p)
    case None
    have "careful ?lib (\<lambda>r w. r = None \<longrightarrow> has_artifact (art_JobID ?a) w) (has_object ?lib (job_ID job) ?n) (AddArtifact ?a)"
      by (rule careful_AddArtifact) (simp_all add: backed_def artifact_for_def output_key_result)
    then show ?thesis
      using None by (auto intro!: careful_bind careful_Return simp: run_promise_def Transient_def artifact_for_def split: option.splits)
  next
    case (Some e)
    then show ?thesis by (simp add: Transient_def careful_prims careful_error)
  qed
  then show ?thesis
    unfolding store_output_def Inr Let_def sum.case output_key_result
    by (intro careful_bind [OF careful_store_Put]) simp
qed

lemma careful_runPipeline:
  assumes "\<And>n v pipe. he_registry h n v = Inr pipe \<Longrightarrow> stages_plain (pipe_processors pipe)"
  shows "careful (he_lib h) (run_promise job) K (runPipeline h job)"
proof -
  let ?lib = "he_lib h"
  have errs: "careful ?lib (run_promise job) K (Return (steps, Permanent op (Some e)))"
      "careful ?lib (run_promise job) K (Return (steps, Transient op (Some e)))" for K steps op e
    by (simp_all add: Permanent_def Transient_def careful_error)
  show ?thesis
  proof (cases "he_registry h (job_Pipeline job) (job_PipelineVersion job)")
    case (Inl e)
    then show ?thesis by (simp add: runPipeline_def errs)
  next
    case (Inr pipe)
    have run: "plain (Run pipe inp)" for inp
      unfolding Run_def by (rule plain_run_stages [OF assms [OF Inr]])

    show ?thesis
      unfolding runPipeline_def Inr sum.case
      by (rule careful_bind [OF careful_plain_True [OF plain_store(2)]], simp split: option.split,
          intro conjI impI allI careful_prims errs lasting_facts,
          rule careful_bind [OF careful_plain_True [OF plain_store(6)]], simp split: sum.split,
          intro conjI impI allI errs,
          rule careful_bind [OF careful_plain_True [OF run]], clarsimp split: option.split)
        (auto intro: errs careful_error careful_store_output)
  qed
qed

text \<open>The move to COMPLETED, by someone who knows that the output is recorded.\<close>

lemma no_completion_complete:
  assumes u: "sql_update_job now i s u d = (x, d')" and j: "j \<in> set (jobs d')" "job_Status j = StatusCompleted"
  shows "j \<in> set (jobs d) \<or> job_ID j = i"
  using u j by (auto simp: sql_update_job_def guarded_update_def map_row_def updated_row_def split: option.splits if_splits)

lemma careful_complete:
  assumes K: "\<And>w. K w \<Longrightarrow> has_artifact i w" and "\<And>x. careful lib Q (\<lambda>_. True) (f x)"
  shows "careful lib Q K (UpdateJob i s u f)" (is "careful lib Q K ?p")
proof (rule careful_call, simp)
  fix oc :: outside and w :: world
  assume "K w" and ok: "outputs_ok lib w"
  let ?w = "snd (step_prog oc ?p w)"
  obtain x d' where x: "sql_update_job (o_now oc) i s u (w_db w) = (x, d')" by fastforce
  have "artifacts d' = artifacts (w_db w)" using sql_artifacts(3) [of "o_now oc" i s u "w_db w"] x by simp
  then have upd: "outputs_ok lib (w\<lparr>w_db := d'\<rparr>)"
    using ok K [OF \<open>K w\<close>] no_completion_complete [OF x]
    by (auto simp: outputs_ok_def has_artifact_def backed_def has_object_def)
  then have "outputs_ok lib ?w"
    using ok x by (cases "o_fault oc") (auto simp: on_db_def)
  moreover have "\<exists>y. fst (step_prog oc ?p w) = f y"
    by (auto simp: on_db_def split: prod.split)
  ultimately show "outputs_ok lib ?w \<and> (\<exists>K'. lasting K' \<and> K' ?w \<and> careful lib Q K' (fst (step_prog oc ?p w)))"
    using assms(2) by (intro conjI exI [of _ "\<lambda>_. True"]) auto
qed

lemma careful_finalizeSuccess:
  "careful lib (\<lambda>_ _. True) (has_artifact (job_ID job)) (finalizeSuccess job attempt)"
proof -
  have reply: "plain (case r of Inl e \<Rightarrow> Return (Inl e) | Inr (Some job) \<Rightarrow> Return (Inr job)
      | Inr None \<Rightarrow> bind_prog (classifyMissingUpdate i) (\<lambda>e. Return (Inl e)))" for r :: "err + job option" and i
    by (auto intro!: plain_bind plain_repository split: sum.split option.split)
  have upd: "careful lib (\<lambda>_ _. True) (has_artifact (job_ID job))
      (UpdateJobStatus (job_ID job) StatusProcessing (JobUpdate StatusCompleted))"
    unfolding UpdateJobStatus_def
    by (simp split: option.split) (intro conjI impI allI careful_Return TrueI careful_complete careful_plain_True reply)
  show ?thesis
    unfolding finalizeSuccess_def
    by (rule careful_bind [OF careful_plain [OF plain_repository(4) lasting_facts(3)]], simp split: option.split,
        intro conjI impI allI careful_Return TrueI, rule careful_bind [OF upd])
      (auto split: sum.split intro!: careful_Return careful_prims)
qed

definition registry_plain :: "'img handler_env \<Rightarrow> bool" where
  "registry_plain h \<longleftrightarrow> (\<forall>n v pipe. he_registry h n v = Inr pipe \<longrightarrow> stages_plain (pipe_processors pipe))"

lemma careful_process_claimed:
  assumes "registry_plain h" and "lasting K"
  shows "careful (he_lib h) (\<lambda>_ _. True) K (process_claimed h job attempt)"
proof -
  have promised: "lasting (run_promise job r)" for r
    by (cases "snd r") (simp_all add: run_promise_def [abs_def])
  have run: "careful (he_lib h) (run_promise job) K (runPipeline h job)"
    by (rule careful_runPipeline) (use assms(1) in \<open>auto simp: registry_plain_def\<close>)
  have fin: "careful (he_lib h) (\<lambda>_ _. True) (run_promise job (steps, e))
      (case e of None \<Rightarrow> finalizeSuccess job attempt | Some e \<Rightarrow> finalizeFailure job attempt e)" for steps e
    by (cases e) (auto simp: run_promise_def intro: careful_weaken [OF careful_finalizeSuccess]
        careful_weaken [OF careful_plain_True [OF plain_finalizeFailure]])
  show ?thesis
    unfolding process_claimed_def
    by (intro careful_prims assms(2), rule careful_bind [OF run], clarify,
        intro careful_prims promised, rule careful_bind [OF careful_plain [OF plain_persistSteps promised]], rule fin)
qed

lemma careful_process:
  assumes "registry_plain h"
  shows "careful (he_lib h) (\<lambda>_ _. True) (\<lambda>_. True) (process h payload)"
proof -
  note claimed = careful_process_claimed [OF assms lasting_facts(1)]
  have handle: "careful (he_lib h) (\<lambda>_ _. True) (\<lambda>_. True) (Handle h msg)" for msg
    unfolding Handle_def
    by (auto split: option.split sum.split intro!: careful_Return claimed
        careful_bind [OF careful_plain_True [OF plain_repository(1)]] careful_bind [OF careful_plain_True [OF plain_repository(8)]])
  show ?thesis
    unfolding process_def handleWithRecovery_def
    by (auto split: option.split intro!: careful_Return careful_prims careful_bind [OF careful_recover [OF handle]])
qed

lemma registry_plain_worker: "registry_plain (worker_env dep)"
  by (auto simp: registry_plain_def stages_plain_def worker_env_def registry_Get_def default_registry_def
      default_pipeline_def NewPipeline_def unless_cancelled_def ResizeProcessor_def FaceDetectionProcessor_def
      ColorProcessor_def BeautyProcessor_def BackgroundProcessor_def intro!: plain_intros
      split: option.splits if_splits)

lemma careful_entry: "careful (svc_lib (dep_service dep)) (\<lambda>_ _. True) (\<lambda>_. True) (entry dep r)"
proof -
  have "he_lib (worker_env dep) = svc_lib (dep_service dep)" by (simp add: worker_env_def)
  then have "careful (svc_lib (dep_service dep)) (\<lambda>_ _. True) (\<lambda>_. True) (process (worker_env dep) payload)" for payload
    using careful_process [OF registry_plain_worker, of dep payload] by simp
  then show ?thesis
    by (cases r) (simp_all add: careful_plain_True [OF plain_bind [OF _ plain_Return]] plain_service,
        rule careful_bind, assumption, simp add: careful_Return)
qed


section \<open>Every reachable state\<close>

text \<open>Every goroutine is careful, under what it knows.\<close>

definition careful_thread :: "library \<Rightarrow> world \<Rightarrow> outcome prog \<Rightarrow> bool" where
  "careful_thread lib w p \<longleftrightarrow> (\<exists>K. lasting K \<and> K w \<and> careful lib (\<lambda>_ _. True) K p)"

definition outputs_inv :: "library \<Rightarrow> system \<Rightarrow> bool" where
  "outputs_inv lib s \<longleftrightarrow> outputs_ok lib (sys_world s)
     \<and> (\<forall>t p. sys_threads s t = Some p \<longrightarrow> careful_thread lib (sys_world s) p)"

lemma careful_thread_le: "careful_thread lib w p \<Longrightarrow> world_le w w' \<Longrightarrow> careful_thread lib w' p"
  unfolding careful_thread_def by (blast intro: lastingD)

lemma careful_thread_call:
  assumes "careful_thread lib w p" and "\<not> is_done p" and "outputs_ok lib w"
  shows "outputs_ok lib (snd (step_prog oc p w)) \<and> careful_thread lib (snd (step_prog oc p w)) (fst (step_prog oc p w))"
proof -
  obtain K where K: "K w" "careful lib (\<lambda>_ _. True) K p" using assms(1) by (auto simp: careful_thread_def)
  from K(2) show ?thesis
    by cases (use assms(2,3) K(1) in \<open>auto simp: careful_thread_def\<close>)
qed

lemma outputs_inv_step:
  assumes inv: "outputs_inv (svc_lib (dep_service dep)) s" and "sys_step dep s s'"
  shows "outputs_inv (svc_lib (dep_service dep)) s'"
  using assms(2)
proof cases
  case (start t r)
  have "careful_thread (svc_lib (dep_service dep)) w (entry dep r)" for w
    using careful_entry lasting_facts(1) unfolding careful_thread_def by blast
  then show ?thesis using inv start by (auto simp: outputs_inv_def)
next
  case (call t p oc)
  then show ?thesis
    using inv careful_thread_call [of _ "sys_world s" p oc] careful_thread_le [OF _ step_world_le, of _ "sys_world s" _ oc p]
    by (auto simp: outputs_inv_def)
next
  case (crash t)
  then show ?thesis using inv by (auto simp: outputs_inv_def split: if_splits)
qed

lemma reachable_outputs: "reachable dep s \<Longrightarrow> outputs_ok (svc_lib (dep_service dep)) (sys_world s)"
proof -
  assume "reachable dep s"
  then have "outputs_inv (svc_lib (dep_service dep)) s"
    by (induction rule: reachable.induct)
      (auto simp: outputs_inv_step, simp add: outputs_inv_def outputs_ok_def initial_system_def empty_world_def empty_db_def)
  then show ?thesis by (simp add: outputs_inv_def)
qed

lemma demo_completed:
  "\<exists>s j. reachable demo_dep s \<and> job_of (sys_db s) 1 = Some j \<and> job_Status j = StatusCompleted"
proof -
  obtain w' j' where w': "exec (healthy demo_dep (sys_db queued_system)) (process (worker_env demo_dep) ''job1'')
      (sys_world queued_system) Ack w'"
      and j': "job_of (w_db w') 1 = Some j'" "job_Status j' = StatusCompleted"
    using demo_delivery_completes by blast
  have "exec (healthy demo_dep (sys_db queued_system)) (entry demo_dep (Deliver ''job1'')) (sys_world queued_system)
      (DeliveryDone Ack) w'"
    using w' by (auto simp: exec_bind)
  from exec_entry [OF reachable_queued this] obtain s where s: "reachable demo_dep s" "sys_world s = w'"
    using reachable_steps [OF _ reachable_queued] by blast
  then show ?thesis using j' by auto
qed

lemma completed_output:
  assumes "reachable dep s" and "job_of (sys_db s) i = Some j" and "job_Status j = StatusCompleted"
  shows "output_recorded (svc_lib (dep_service dep)) j (sys_world s)"
proof -
  have j: "j \<in> set (jobs (sys_db s))" using row_of_SomeD [OF assms(2)] by simp
  then obtain a where a: "a \<in> set (artifacts (sys_db s))" "art_JobID a = job_ID j"
    using reachable_outputs [OF assms(1)] assms(3) by (auto simp: outputs_ok_def has_artifact_def)
  then have "backed (svc_lib (dep_service dep)) (sys_world s) a"
    using reachable_outputs [OF assms(1)] by (auto simp: outputs_ok_def)
  then show ?thesis using a by (auto simp: output_recorded_def backed_def has_object_def output_key_result)
qed

text \<open>
  C9. No COMPLETED job without its output. In every reachable state, whatever was started,
  interleaved, crashed or failed: a COMPLETED job has an artifact of kind output, content type
  image/jpeg and the key outputs/<id>/result.jpg, and the object store was given an object
  under that key whose length is the artifact's size.
\<close>

theorem completed_has_output:
  assumes "reachable dep s" and "job_of (sys_db s) i = Some j" and "job_Status j = StatusCompleted"
  shows "output_recorded (svc_lib (dep_service dep)) j (sys_world s)"
  by (rule completed_output [OF assms])

theorem completed_has_output_witness:
  "\<exists>s j. reachable demo_dep s \<and> job_of (sys_db s) 1 = Some j \<and> job_Status j = StatusCompleted
     \<and> output_recorded demo_lib j (sys_world s)"
  using demo_completed completed_has_output [of demo_dep _ 1] by fastforce

end
