(* ===== verification/Api.thy ===== *)
theory Api
  imports Service Config
begin

text \<open>
  The HTTP surface, \<open>internal/api\<close>: routes, middleware, handlers, and the mapping of
  errors to responses. A handler is a program that returns the response it writes; the JSON
  decoder is a parameter, and a body is what \<open>http.MaxBytesReader\<close> lets through together
  with whether it was cut.
\<close>

section \<open>Requests and responses\<close>

type_synonym body = "string \<times> bool"

record create_upload_request =
  cur_ContentType :: string
  cur_SizeBytes :: int

record create_job_request =
  cjr_UploadID :: string
  cjr_Pipeline :: string
  cjr_PipelineVersion :: string

text \<open>Decoding with unknown fields disallowed: the request, or nothing when it fails.\<close>

record json_decoder =
  decode_upload :: "body \<Rightarrow> create_upload_request option"
  decode_job :: "body \<Rightarrow> create_job_request option"

text \<open>
  A request: \<open>rq_Path\<close> is the cleaned path, \<open>rq_Header\<close> looks up a header (empty when
  absent), \<open>rq_RequestID\<close> is the context's value under \<open>requestIDKey\<close>.
\<close>

record http_request =
  rq_Method :: string
  rq_Path :: string
  rq_Header :: "string \<Rightarrow> string"
  rq_Body :: string
  rq_RequestID :: "string option"
  rq_PathID :: string

record upload_response =
  ur_UploadID :: string
  ur_ObjectKey :: string
  ur_UploadURL :: string
  ur_ExpiresInSeconds :: int

record job_response =
  jr_ID :: uuid
  jr_Status :: string
  jr_Pipeline :: string
  jr_PipelineVersion :: string
  jr_AttemptCount :: int
  jr_MaxAttempts :: int
  jr_LastError :: err_text
  jr_CreatedAt :: time
  jr_UpdatedAt :: time

record artifact_response =
  ar_Kind :: string
  ar_ObjectKey :: string
  ar_ContentType :: string
  ar_SizeBytes :: int
  ar_CreatedAt :: time

record artifacts_response =
  asr_JobID :: uuid
  asr_Artifacts :: "artifact_response list"

record error_detail =
  ed_Code :: string
  ed_Message :: err_text

datatype payload =
    UploadBody upload_response
  | JobBody job_response
  | ArtifactsBody artifacts_response
  | ErrorBody error_detail
  | StatusBody string
  | MetricsBody
  | PlainBody string

record http_response =
  rs_Status :: int
  rs_Body :: payload
  rs_Header :: "(string \<times> string) list"

definition writeJSON :: "int \<Rightarrow> payload \<Rightarrow> http_response" where
  "writeJSON status v = \<lparr>rs_Status = status, rs_Body = v, rs_Header = [(''Content-Type'', ''application/json'')]\<rparr>"

definition writeError :: "int \<Rightarrow> string \<Rightarrow> err_text \<Rightarrow> http_response" where
  "writeError status code message = writeJSON status (ErrorBody \<lparr>ed_Code = code, ed_Message = message\<rparr>)"

definition internal_error :: http_response where
  "internal_error = writeError 500 ''internal'' [Lit ''internal server error'']"

section \<open>Handlers\<close>

record server =
  srv_jobs :: service
  srv_json :: json_decoder
  srv_metrics :: bool

definition requestIDFrom :: "http_request \<Rightarrow> string" where
  "requestIDFrom r = (case rq_RequestID r of Some v \<Rightarrow> v | None \<Rightarrow> '''')"

definition maxJobBodyBytes :: nat where
  "maxJobBodyBytes = push_bit 10 16"

definition limited_body :: "http_request \<Rightarrow> body" where
  "limited_body r = (take maxJobBodyBytes (rq_Body r), maxJobBodyBytes < length (rq_Body r))"

definition invalid_body :: http_response where
  "invalid_body = writeError 400 ''invalid_body'' [Lit ''request body is not valid JSON'']"

text \<open>The switch of \<open>writeServiceError\<close>.\<close>

definition writeServiceError :: "err \<Rightarrow> http_response" where
  "writeServiceError e =
     (if errors_Is ErrValidation e \<or> errors_Is ErrUnsupportedMedia e \<or> errors_Is ErrTooLarge e
      then writeError 400 ''validation'' (Error e)
      else if errors_Is ErrNotFound e then writeError 404 ''not_found'' [Lit ''job not found'']
      else if errors_Is ErrIdempotencyConflict e then writeError 409 ''idempotency_conflict''
        [Lit ''idempotency key was reused with a different request'']
      else if errors_Is ErrNotCancellable e then writeError 409 ''not_cancellable''
        [Lit ''job is already in a terminal state'']
      else internal_error)"

definition toJobResponse :: "job \<Rightarrow> job_response" where
  "toJobResponse j = \<lparr>jr_ID = job_ID j, jr_Status = status_string (job_Status j), jr_Pipeline = job_Pipeline j,
     jr_PipelineVersion = job_PipelineVersion j, jr_AttemptCount = job_AttemptCount j,
     jr_MaxAttempts = job_MaxAttempts j, jr_LastError = job_LastError j, jr_CreatedAt = job_CreatedAt j,
     jr_UpdatedAt = job_UpdatedAt j\<rparr>"

definition artifact_response_of :: "artifact \<Rightarrow> artifact_response" where
  "artifact_response_of a = \<lparr>ar_Kind = art_Kind a, ar_ObjectKey = art_ObjectKey a,
     ar_ContentType = art_ContentType a, ar_SizeBytes = art_SizeBytes a, ar_CreatedAt = art_CreatedAt a\<rparr>"

definition handleHealth :: "http_response prog" where
  "handleHealth = Return (writeJSON 200 (StatusBody ''ok''))"

definition handleReady :: "http_response prog" where
  "handleReady = Return (writeJSON 200 (StatusBody ''ready''))"

definition handleCreateUpload :: "server \<Rightarrow> http_request \<Rightarrow> http_response prog" where
  "handleCreateUpload s r =
     (case decode_upload (srv_json s) (limited_body r) of
        None \<Rightarrow> Return invalid_body
      | Some req \<Rightarrow>
          bind_prog (CreateUpload (srv_jobs s) \<lparr>cui_ContentType = cur_ContentType req, cui_SizeBytes = cur_SizeBytes req\<rparr>)
            (\<lambda>u. Return (case u of
               Inl e \<Rightarrow> writeServiceError e
             | Inr up \<Rightarrow> writeJSON 201 (UploadBody \<lparr>ur_UploadID = up_UploadID up, ur_ObjectKey = up_ObjectKey up,
                 ur_UploadURL = up_UploadURL up, ur_ExpiresInSeconds = go_quot (up_ExpiresIn up) Second\<rparr>))))"

definition handleCreateJob :: "server \<Rightarrow> http_request \<Rightarrow> http_response prog" where
  "handleCreateJob s r =
     (case decode_job (srv_json s) (limited_body r) of
        None \<Rightarrow> Return invalid_body
      | Some req \<Rightarrow>
          bind_prog (CreateJob (srv_jobs s) \<lparr>cji_UploadID = cjr_UploadID req, cji_Pipeline = cjr_Pipeline req,
              cji_PipelineVersion = cjr_PipelineVersion req, cji_IdempotencyKey = rq_Header r ''Idempotency-Key'',
              cji_CorrelationID = requestIDFrom r\<rparr>)
            (\<lambda>c. case c of
               Inl e \<Rightarrow> Return (writeServiceError e)
             | Inr (job, created) \<Rightarrow>
                 if created then Metric IncJobsCreated (Return (writeJSON 201 (JobBody (toJobResponse job))))
                 else Return (writeJSON 200 (JobBody (toJobResponse job)))))"

text \<open>\<open>parseID\<close> answers an invalid id itself; otherwise the handler goes on.\<close>

definition parseID :: "server \<Rightarrow> http_request \<Rightarrow> (uuid \<Rightarrow> http_response prog) \<Rightarrow> http_response prog" where
  "parseID s r continue =
     (case uuid_Parse (svc_lib (srv_jobs s)) (rq_PathID r) of
        None \<Rightarrow> Return (writeError 400 ''invalid_id'' [Lit ''job id must be a UUID''])
      | Some i \<Rightarrow> continue i)"

definition job_or_error :: "err + job \<Rightarrow> http_response" where
  "job_or_error g =
     (case g of Inl e \<Rightarrow> writeServiceError e | Inr job \<Rightarrow> writeJSON 200 (JobBody (toJobResponse job)))"

definition handleGetJob :: "server \<Rightarrow> http_request \<Rightarrow> http_response prog" where
  "handleGetJob s r = parseID s r (\<lambda>i. bind_prog (svc_GetJob i) (\<lambda>g. Return (job_or_error g)))"

definition handleCancelJob :: "server \<Rightarrow> http_request \<Rightarrow> http_response prog" where
  "handleCancelJob s r = parseID s r (\<lambda>i. bind_prog (CancelJob i) (\<lambda>g. Return (job_or_error g)))"

definition handleListArtifacts :: "server \<Rightarrow> http_request \<Rightarrow> http_response prog" where
  "handleListArtifacts s r = parseID s r (\<lambda>i. bind_prog (svc_GetJob i) (\<lambda>g.
     case g of
       Inl e \<Rightarrow> Return (writeServiceError e)
     | Inr _ \<Rightarrow> bind_prog (svc_ListArtifacts i) (\<lambda>l. Return
         (case l of
            Inl e \<Rightarrow> writeServiceError e
          | Inr arts \<Rightarrow> writeJSON 200
              (ArtifactsBody \<lparr>asr_JobID = i, asr_Artifacts = map artifact_response_of arts\<rparr>)))))"

section \<open>Routes\<close>

datatype endpoint =
    Health | Ready | MetricsPage | CreateUploadE | CreateJobE | GetJobE | CancelJobE | ListArtifactsE

text \<open>The patterns registered with the mux: method, path, handler.\<close>

definition routes :: "bool \<Rightarrow> (string \<times> string \<times> endpoint) list" where
  "routes enabled =
     [(''GET'', ''/health'', Health), (''GET'', ''/ready'', Ready)]
     @ (if enabled then [(''GET'', ''/metrics'', MetricsPage)] else [])
     @ [(''POST'', ''/v1/uploads'', CreateUploadE), (''POST'', ''/v1/jobs'', CreateJobE),
        (''GET'', ''/v1/jobs/{id}'', GetJobE), (''POST'', ''/v1/jobs/{id}/cancel'', CancelJobE),
        (''GET'', ''/v1/jobs/{id}/artifacts'', ListArtifactsE)]"

text \<open>
  A pattern segment in braces matches one non-empty segment and captures it, any other
  segment matches itself; a pattern for GET serves HEAD as well.
\<close>

fun match_segments :: "string list \<Rightarrow> string list \<Rightarrow> string list option" where
  "match_segments [] [] = Some []"
| "match_segments (p # ps) (s # ss) =
     (if HasPrefix p ''{'' then (if s = '''' then None else map_option ((#) s) (match_segments ps ss))
      else if p = s then match_segments ps ss else None)"
| "match_segments _ _ = None"

definition match_path :: "string \<Rightarrow> string \<Rightarrow> string list option" where
  "match_path pattern path = match_segments (split_slash pattern) (split_slash path)"

definition match_method :: "string \<Rightarrow> string \<Rightarrow> bool" where
  "match_method want m \<longleftrightarrow> want = m \<or> want = ''GET'' \<and> m = ''HEAD''"

definition candidates :: "bool \<Rightarrow> string \<Rightarrow> (string \<times> string \<times> endpoint) list" where
  "candidates enabled path = filter (\<lambda>(m, p, e). match_path p path \<noteq> None) (routes enabled)"

fun endpoint_prog :: "server \<Rightarrow> endpoint \<Rightarrow> http_request \<Rightarrow> http_response prog" where
  "endpoint_prog s Health r = handleHealth"
| "endpoint_prog s Ready r = handleReady"
| "endpoint_prog s MetricsPage r = Return \<lparr>rs_Status = 200, rs_Body = MetricsBody, rs_Header = []\<rparr>"
| "endpoint_prog s CreateUploadE r = handleCreateUpload s r"
| "endpoint_prog s CreateJobE r = handleCreateJob s r"
| "endpoint_prog s GetJobE r = handleGetJob s r"
| "endpoint_prog s CancelJobE r = handleCancelJob s r"
| "endpoint_prog s ListArtifactsE r = handleListArtifacts s r"

definition plain_error :: "int \<Rightarrow> string \<Rightarrow> http_response" where
  "plain_error status m = \<lparr>rs_Status = status, rs_Body = PlainBody m,
     rs_Header = [(''Content-Type'', ''text/plain; charset=utf-8'')]\<rparr>"

text \<open>
  The mux: the matching route, 405 when only other methods match the path, else 404. With
  the response comes \<open>r.Pattern\<close>, empty when nothing matched.
\<close>

definition serve_mux :: "server \<Rightarrow> http_request \<Rightarrow> (http_response \<times> string) prog" where
  "serve_mux s r =
     (case find (\<lambda>(m, p, e). match_method m (rq_Method r)) (candidates (srv_metrics s) (rq_Path r)) of
        Some (m, p, e) \<Rightarrow>
          bind_prog (endpoint_prog s e (r\<lparr>rq_PathID :=
              (case match_path p (rq_Path r) of Some (i # _) \<Rightarrow> i | _ \<Rightarrow> '''')\<rparr>))
            (\<lambda>resp. Return (resp, m @ '' '' @ p))
      | None \<Rightarrow> Return
          (if candidates (srv_metrics s) (rq_Path r) = [] then plain_error 404 ''404 page not found''
           else plain_error 405 ''Method Not Allowed'', ''''))"

section \<open>Middleware\<close>

text \<open>Logging reads the clock around the handler and changes nothing.\<close>

type_synonym http_handler = "http_request \<Rightarrow> (http_response \<times> string) prog"

definition withLogging :: "http_handler \<Rightarrow> http_handler" where
  "withLogging nxt = (\<lambda>r. TimeNow (\<lambda>start. bind_prog (nxt r) (\<lambda>res. TimeNow (\<lambda>stop. Return res))))"

text \<open>
  The recorder that wraps the writer: it starts at 200 and keeps the status of the header
  that is written.
\<close>

record status_recorder =
  sr_status :: int

definition WriteHeader :: "int \<Rightarrow> status_recorder \<Rightarrow> status_recorder" where
  "WriteHeader code rec = rec\<lparr>sr_status := code\<rparr>"

definition recorded_status :: "http_response \<Rightarrow> int" where
  "recorded_status resp = sr_status (WriteHeader (rs_Status resp) \<lparr>sr_status = 200\<rparr>)"

lemma recorded_status [simp]: "recorded_status resp = rs_Status resp"
  by (simp add: recorded_status_def WriteHeader_def)

definition withMetrics :: "bool \<Rightarrow> http_handler \<Rightarrow> http_handler" where
  "withMetrics enabled nxt =
     (if \<not> enabled then nxt
      else (\<lambda>r. TimeNow (\<lambda>start. bind_prog (nxt r) (\<lambda>(resp, pattern). TimeNow (\<lambda>stop.
        Metric (ObserveHTTP (rq_Method r) (if pattern = '''' then ''unmatched'' else pattern)
            (show_int (recorded_status resp)) (stop - start))
          (Return (resp, pattern)))))))"

definition withRecovery :: "http_handler \<Rightarrow> http_handler" where
  "withRecovery nxt = (\<lambda>r. recover_prog (nxt r) (internal_error, ''''))"

text \<open>The id is taken from the client or drawn, put on the response and into the context.\<close>

definition withRequestID :: "library \<Rightarrow> http_handler \<Rightarrow> http_handler" where
  "withRequestID lib nxt = (\<lambda>r.
     let serve = (\<lambda>i. bind_prog (nxt (r\<lparr>rq_RequestID := Some i\<rparr>)) (\<lambda>(resp, pattern).
           Return (resp\<lparr>rs_Header := (''X-Request-ID'', i) # rs_Header resp\<rparr>, pattern)))
     in if rq_Header r ''X-Request-ID'' = '''' then NewUUID (\<lambda>u. serve (uuid_String lib u))
        else serve (rq_Header r ''X-Request-ID''))"

definition withMiddleware :: "server \<Rightarrow> http_handler \<Rightarrow> http_handler" where
  "withMiddleware s nxt =
     withRequestID (svc_lib (srv_jobs s)) (withRecovery (withMetrics (srv_metrics s) (withLogging nxt)))"

definition serve_http :: "server \<Rightarrow> http_handler" where
  "serve_http s = withMiddleware s (serve_mux s)"

end
