(* ===== verification/ApiSpec.thy ===== *)
theory ApiSpec
  imports Api Calls
begin

text \<open>
  What a client of the HTTP surface can rely on: every request is answered, the answer is
  one of the documented shapes, and the routes are unambiguous.
\<close>

section \<open>Well-formed answers\<close>

text \<open>The status that goes with each error code.\<close>

definition error_status :: "string \<Rightarrow> int option" where
  "error_status = map_of [(''invalid_body'', 400), (''invalid_id'', 400), (''validation'', 400),
     (''not_found'', 404), (''idempotency_conflict'', 409), (''not_cancellable'', 409), (''internal'', 500)]"

text \<open>
  Only a validation error shows the text of an error to the client; the message of every
  other code is fixed.
\<close>

definition fixed_message :: "string \<Rightarrow> string option" where
  "fixed_message = map_of [(''invalid_body'', ''request body is not valid JSON''),
     (''invalid_id'', ''job id must be a UUID''), (''not_found'', ''job not found''),
     (''idempotency_conflict'', ''idempotency key was reused with a different request''),
     (''not_cancellable'', ''job is already in a terminal state''), (''internal'', ''internal server error'')]"

fun body_ok :: "int \<Rightarrow> payload \<Rightarrow> bool" where
  "body_ok st (UploadBody u) \<longleftrightarrow> st = 201"
| "body_ok st (JobBody j) \<longleftrightarrow> st = 200 \<or> st = 201"
| "body_ok st (ArtifactsBody a) \<longleftrightarrow> st = 200"
| "body_ok st (ErrorBody d) \<longleftrightarrow> error_status (ed_Code d) = Some st \<and>
     (\<forall>m. fixed_message (ed_Code d) = Some m \<longrightarrow> ed_Message d = [Lit m])"
| "body_ok st (StatusBody s) \<longleftrightarrow> st = 200"
| "body_ok st MetricsBody \<longleftrightarrow> st = 200"
| "body_ok st (PlainBody s) \<longleftrightarrow> st = 404 \<or> st = 405"

definition response_ok :: "http_response \<Rightarrow> bool" where
  "response_ok resp \<longleftrightarrow> body_ok (rs_Status resp) (rs_Body resp)"

fun answered :: "http_response prog \<Rightarrow> bool" where
  "answered (Return resp) \<longleftrightarrow> response_ok resp"
| "answered _ \<longleftrightarrow> False"

fun routed :: "(http_response \<times> string) prog \<Rightarrow> bool" where
  "routed (Return (resp, pattern)) \<longleftrightarrow> response_ok resp"
| "routed _ \<longleftrightarrow> False"

lemmas ok_defs = response_ok_def writeJSON_def writeError_def error_status_def fixed_message_def

lemma writeServiceError_ok: "response_ok (writeServiceError e)"
  by (simp add: writeServiceError_def internal_error_def ok_defs)

lemma small_responses_ok:
  "response_ok invalid_body" "response_ok internal_error"
  "response_ok (writeError 400 ''invalid_id'' [Lit ''job id must be a UUID''])"
  "response_ok (writeJSON 200 (JobBody j))" "response_ok (writeJSON 201 (JobBody j))"
  "response_ok (writeJSON 201 (UploadBody u))" "response_ok (writeJSON 200 (ArtifactsBody a))"
  "response_ok (writeJSON 200 (StatusBody s))" "response_ok (job_or_error g)"
  using writeServiceError_ok [unfolded response_ok_def]
  by (simp_all add: invalid_body_def internal_error_def job_or_error_def ok_defs split: sum.splits)

section \<open>Handlers\<close>

lemma finishes_answer: "response_ok resp \<Longrightarrow> finishes answered n (Return resp)"
  by (rule takes_Return) simp

lemmas answers = finishes_answer writeServiceError_ok small_responses_ok

lemma finishes_parseID:
  "(\<And>i. finishes answered n (k i)) \<Longrightarrow> finishes answered n (parseID s r k)"
  by (auto simp: parseID_def intro: answers split: option.splits)

lemma finishes_handlers:
  "finishes answered 3 (handleCreateUpload s r)"
  "finishes answered 10 (handleCreateJob s r)"
  "finishes answered 1 (handleGetJob s r)"
  "finishes answered 7 (handleCancelJob s r)"
  "finishes answered 2 (handleListArtifacts s r)"
proof -
  show "finishes answered 3 (handleCreateUpload s r)"
    unfolding handleCreateUpload_def
    by (auto intro!: answers finishes_bind_le [OF finishes_CreateUpload, where n = 0] split: option.splits sum.splits)
  show "finishes answered 10 (handleCreateJob s r)"
    unfolding handleCreateJob_def
    by (auto intro!: answers finishes_call(6) finishes_bind_le [OF finishes_CreateJob, where n = "Suc 0"] split: option.splits sum.splits)
  show "finishes answered 1 (handleGetJob s r)"
    unfolding handleGetJob_def svc_GetJob_def
    by (intro finishes_parseID finishes_bind_le [OF finishes_repository(1), where n = 0]) (auto intro: answers)
  show "finishes answered 7 (handleCancelJob s r)"
    unfolding handleCancelJob_def
    by (intro finishes_parseID finishes_bind_le [OF finishes_CancelJob, where n = 0]) (auto intro: answers)
  have listed: "finishes answered 1 (bind_prog (repo_ListArtifacts i) (\<lambda>l. Return (case l of
      Inl e \<Rightarrow> writeServiceError e
    | Inr arts \<Rightarrow> writeJSON 200 (ArtifactsBody \<lparr>asr_JobID = i, asr_Artifacts = map artifact_response_of arts\<rparr>))))" for i
    by (rule finishes_bind_le [OF finishes_repository(7), where n = 0]) (auto intro!: answers split: sum.splits)
  show "finishes answered 2 (handleListArtifacts s r)"
    unfolding handleListArtifacts_def svc_GetJob_def svc_ListArtifacts_def
    by (intro finishes_parseID finishes_bind_le [OF finishes_repository(1), where n = 1])
      (auto intro: answers listed [simplified] split: sum.splits)
qed

lemma finishes_endpoint: "finishes answered 10 (endpoint_prog s e r)"
  by (cases e) (auto simp: handleHealth_def handleReady_def response_ok_def
      intro: answers takes_mono [OF finishes_handlers(1)] takes_mono [OF finishes_handlers(2)]
        takes_mono [OF finishes_handlers(3)] takes_mono [OF finishes_handlers(4)] takes_mono [OF finishes_handlers(5)])

lemma finishes_mux: "finishes routed 10 (serve_mux s r)"
proof -
  have "finishes routed (10 + 0) (bind_prog (endpoint_prog s e r') (\<lambda>resp. Return (resp, pat)))" for e r' pat
    by (rule takes_bind [OF finishes_endpoint]) auto
  then show ?thesis
    unfolding serve_mux_def by (auto simp: plain_error_def response_ok_def split: option.splits)
qed

section \<open>The whole surface\<close>

definition request_id_ok :: "server \<Rightarrow> http_request \<Rightarrow> http_response \<Rightarrow> bool" where
  "request_id_ok s r resp \<longleftrightarrow> (\<exists>i. (''X-Request-ID'', i) \<in> set (rs_Header resp) \<and>
     (if rq_Header r ''X-Request-ID'' = '''' then i \<in> range (uuid_String (svc_lib (srv_jobs s)))
      else i = rq_Header r ''X-Request-ID''))"

fun served :: "server \<Rightarrow> http_request \<Rightarrow> (http_response \<times> string) prog \<Rightarrow> bool" where
  "served s r (Return (resp, pattern)) \<longleftrightarrow> response_ok resp \<and> request_id_ok s r resp"
| "served s r _ \<longleftrightarrow> False"

lemma finishes_logged: "finishes routed 12 (withLogging (serve_mux s) r)"
proof -
  have "finishes routed (10 + Suc 0) (bind_prog (serve_mux s r) (\<lambda>res. TimeNow (\<lambda>stop. Return res)))"
    by (rule takes_bind [OF finishes_mux]) (auto intro!: finishes_call(2))
  then show ?thesis
    unfolding withLogging_def by (intro finishes_TimeNow [where n = 11]) simp_all
qed

lemma finishes_measured: "finishes routed 15 (withMetrics enabled (withLogging (serve_mux s)) r)"
proof (cases enabled)
  case True
  have measured: "finishes routed (12 + Suc (Suc 0)) (bind_prog (withLogging (serve_mux s) r) (\<lambda>(resp, pattern).
      TimeNow (\<lambda>stop. Metric (ObserveHTTP m (f pattern) (g resp) (stop - start)) (Return (resp, pattern)))))" for start f g m
    by (rule takes_bind [OF finishes_logged]) (auto intro!: finishes_call(2) finishes_call(6))
  then show ?thesis
    using True unfolding withMetrics_def by (auto intro!: finishes_TimeNow [where n = 14])
next
  case False
  then show ?thesis unfolding withMetrics_def by (simp add: takes_mono [OF finishes_logged])
qed

lemma finishes_recovered:
  assumes "finishes routed n p"
  shows "finishes routed n (recover_prog p (internal_error, pattern))"
  using assms
proof (induction rule: takes.induct)
  case (takes_done p n)
  then show ?case using small_responses_ok(2) by (auto simp: is_done_cases)
next
  case (takes_call p n)
  then show ?case by (simp add: takes.takes_call step_recover)
qed

lemma request_id_okI:
  assumes "if rq_Header r ''X-Request-ID'' = '''' then i \<in> range (uuid_String (svc_lib (srv_jobs s)))
        else i = rq_Header r ''X-Request-ID''"
  shows "request_id_ok s r (resp\<lparr>rs_Header := (''X-Request-ID'', i) # hs\<rparr>)"
  unfolding request_id_ok_def using assms by (intro exI [of _ i]) simp

lemma finishes_http: "finishes (served s r) 16 (serve_http s r)"
proof -
  have identified: "finishes (served s r) (15 + 0) (bind_prog (withRecovery (withMetrics (srv_metrics s) (withLogging (serve_mux s))) r')
      (\<lambda>(resp, pattern). Return (resp\<lparr>rs_Header := (''X-Request-ID'', i) # rs_Header resp\<rparr>, pattern)))"
    if "if rq_Header r ''X-Request-ID'' = '''' then i \<in> range (uuid_String (svc_lib (srv_jobs s)))
        else i = rq_Header r ''X-Request-ID''" for r' i
    unfolding withRecovery_def
    by (rule takes_bind [OF finishes_recovered [OF finishes_measured]])
      (auto simp: response_ok_def request_id_okI [OF that])
  show ?thesis
  proof (cases "rq_Header r ''X-Request-ID'' = ''''")
    case True
    have "finishes (served s r) 16 (NewUUID f)" if "\<And>u. finishes (served s r) 15 (f u)" for f
      using takes_mono [OF finishes_call(1) [OF that]] by simp
    then show ?thesis
      unfolding serve_http_def withMiddleware_def withRequestID_def
      using True identified by (simp add: Let_def)
  next
    case False
    then have "finishes (served s r) 15 (serve_http s r)"
      unfolding serve_http_def withMiddleware_def withRequestID_def
      using identified by (auto simp: Let_def)
    then show ?thesis by (rule takes_mono) simp
  qed
qed


section \<open>Routing\<close>

text \<open>Two patterns that can match the same path.\<close>

fun overlap :: "string list \<Rightarrow> string list \<Rightarrow> bool" where
  "overlap [] [] \<longleftrightarrow> True"
| "overlap (p # ps) (q # qs) \<longleftrightarrow> (p = q \<or> HasPrefix p ''{'' \<or> HasPrefix q ''{'') \<and> overlap ps qs"
| "overlap _ _ \<longleftrightarrow> False"

lemma match_overlap: "match_segments ps ss \<noteq> None \<Longrightarrow> match_segments qs ss \<noteq> None \<Longrightarrow> overlap ps qs"
proof (induction ps qs arbitrary: ss rule: overlap.induct)
  case (2 p ps q qs)
  then show ?case by (cases ss) (auto split: if_splits)
qed (auto elim: match_segments.elims)

lemma method_overlap:
  "match_method m1 mth \<Longrightarrow> match_method m2 mth \<Longrightarrow> m1 = m2 \<or> mth = ''HEAD'' \<and> ''HEAD'' \<in> {m1, m2}"
  by (auto simp: match_method_def)

definition routes_overlap :: "string \<times> string \<times> endpoint \<Rightarrow> string \<times> string \<times> endpoint \<Rightarrow> bool" where
  "routes_overlap = (\<lambda>(m1, p1, e1) (m2, p2, e2).
     (m1 = m2 \<or> ''HEAD'' \<in> {m1, m2}) \<and> overlap (split_slash p1) (split_slash p2))"

lemma no_routes_overlap: "sorted_wrt (\<lambda>x y. \<not> routes_overlap x y) (routes enabled)"
  by (cases enabled) (simp_all add: routes_def routes_overlap_def)

lemma at_most_one: "sorted_wrt (\<lambda>x y. \<not> (P x \<and> P y)) xs \<Longrightarrow> length (filter P xs) \<le> 1"
proof (induction xs)
  case (Cons x xs)
  then show ?case by (cases "P x") (auto simp: filter_empty_conv)
qed simp

text \<open>
  Routing is unambiguous: for any method and path at most one registered pattern
  matches, so the order of registration does not matter.
\<close>

theorem routes_unambiguous:
  "length (filter (\<lambda>(m, p, e). match_method m mth) (candidates enabled path)) \<le> 1"
proof -
  let ?P = "\<lambda>(m, p, e :: endpoint). match_method m mth \<and> match_path p path \<noteq> None"
  have "filter (\<lambda>(m, p, e). match_method m mth) (candidates enabled path) = filter ?P (routes enabled)"
    unfolding candidates_def filter_filter by (rule filter_cong) auto
  moreover have "\<not> (?P x \<and> ?P y)" if "\<not> routes_overlap x y" for x y
    using that method_overlap match_overlap
    by (cases x; cases y) (fastforce simp: routes_overlap_def match_path_def)
  ultimately show ?thesis
    using at_most_one [of ?P, OF sorted_wrt_mono_rel [OF _ no_routes_overlap]] by simp
qed

end
