(* ===== verification/Endpoints.thy ===== *)
theory Endpoints
  imports Creation Delivering ApiSpec
begin

text \<open>
  The HTTP surface end to end, when the services answer: what each endpoint replies and does
  to the tables, through the middleware, the mux, the handler, the service, the repository
  and the statements below it.
\<close>

section \<open>The middleware lets requests through\<close>

text \<open>Worlds that differ in the recorded metrics only.\<close>

definition same_but_metrics :: "world \<Rightarrow> world \<Rightarrow> bool" where
  "same_but_metrics w w' \<longleftrightarrow> w_db w' = w_db w \<and> published w' = published w \<and> stored w' = stored w"

lemma same_but_metrics_refl [simp]: "same_but_metrics w w"
  and same_but_metrics_rec [simp]: "same_but_metrics w (w'\<lparr>metrics := ms\<rparr>) \<longleftrightarrow> same_but_metrics w w'"
  by (simp_all add: same_but_metrics_def)

lemma same_but_metrics_trans: "same_but_metrics w w1 \<Longrightarrow> same_but_metrics w1 w2 \<Longrightarrow> same_but_metrics w w2"
  by (simp add: same_but_metrics_def)

lemma panic_free_routed: "finishes routed n p \<Longrightarrow> panic_free p"
  by (rule panic_free_takes, erule takes_weaken) (auto simp: is_done_cases)

lemma exec_withLogging:
  "exec F (withLogging nxt r) w res w' \<Longrightarrow> exec F (nxt r) w res w'"
  by (auto simp: withLogging_def exec_bind exec_step [of "TimeNow k" for k])

lemma exec_withMetrics:
  "exec F (withMetrics enabled nxt r) w (resp, pattern) w' \<Longrightarrow>
    \<exists>w1. exec F (nxt r) w (resp, pattern) w1 \<and> same_but_metrics w1 w'"
  by (auto simp: withMetrics_def exec_bind exec_step [of "TimeNow k" for k] exec_step [of "Metric m k" for m k] split: if_splits)

text \<open>The request and response that pass between the middleware and the mux.\<close>

lemma exec_serve_http:
  assumes "exec F (serve_http s r) w (resp, pattern) w'"
  shows "\<exists>i resp0 w1. exec F (serve_mux s (r\<lparr>rq_RequestID := Some i\<rparr>)) w (resp0, pattern) w1
    \<and> rs_Status resp = rs_Status resp0 \<and> rs_Body resp = rs_Body resp0 \<and> same_but_metrics w1 w'"
proof -
  let ?inner = "withMetrics (srv_metrics s) (withLogging (serve_mux s))"
  have through: "\<exists>resp0 w1. exec F (serve_mux s (r\<lparr>rq_RequestID := Some i\<rparr>)) w (resp0, pattern) w1
      \<and> rs_Status resp = rs_Status resp0 \<and> rs_Body resp = rs_Body resp0 \<and> same_but_metrics w1 w'"
    if answer: "exec F (bind_prog (withRecovery ?inner (r\<lparr>rq_RequestID := Some i\<rparr>)) (\<lambda>(resp, pattern).
        Return (resp\<lparr>rs_Header := (''X-Request-ID'', i) # rs_Header resp\<rparr>, pattern))) w (resp, pattern) w'" for i
  proof -
    obtain resp0 where resp0: "exec F (withRecovery ?inner (r\<lparr>rq_RequestID := Some i\<rparr>)) w (resp0, pattern) w'"
        and resp: "resp = resp0\<lparr>rs_Header := (''X-Request-ID'', i) # rs_Header resp0\<rparr>"
      using answer by (auto simp: exec_bind)
    have "exec F (?inner (r\<lparr>rq_RequestID := Some i\<rparr>)) w (resp0, pattern) w'"
      using exec_recover [OF resp0 [unfolded withRecovery_def] refl panic_free_routed [OF finishes_measured]] .
    from exec_withMetrics [OF this] show ?thesis
      using resp by (auto dest: exec_withLogging)
  qed
  show ?thesis
  proof (cases "rq_Header r ''X-Request-ID'' = ''''")
    case True
    then obtain u where "exec F (bind_prog (withRecovery ?inner (r\<lparr>rq_RequestID := Some (uuid_String (svc_lib (srv_jobs s)) u)\<rparr>)) (\<lambda>(resp, pattern).
        Return (resp\<lparr>rs_Header := (''X-Request-ID'', uuid_String (svc_lib (srv_jobs s)) u) # rs_Header resp\<rparr>, pattern))) w (resp, pattern) w'"
      using assms by (auto simp: serve_http_def withMiddleware_def withRequestID_def Let_def exec_step [of "NewUUID k" for k])
    from through [OF this] show ?thesis by blast
  next
    case False
    then have "exec F (bind_prog (withRecovery ?inner (r\<lparr>rq_RequestID := Some (rq_Header r ''X-Request-ID'')\<rparr>)) (\<lambda>(resp, pattern).
        Return (resp\<lparr>rs_Header := (''X-Request-ID'', rq_Header r ''X-Request-ID'') # rs_Header resp\<rparr>, pattern))) w (resp, pattern) w'"
      using assms by (auto simp: serve_http_def withMiddleware_def withRequestID_def Let_def)
    from through [OF this] show ?thesis by blast
  qed
qed

text \<open>Conversely, whatever the mux does, the whole surface can do.\<close>

lemma exec_recoverI: "exec F p w r w' \<Longrightarrow> exec F (recover_prog p d) w r w'"
proof (induction rule: exec.induct)
  case (exec_call p oc w r w')
  then show ?case
    using exec.exec_call [of "recover_prog p d" F oc w r w'] by (simp add: step_recover)
qed simp

lemma exec_withLoggingI:
  "exec F (nxt r) w res w' \<Longrightarrow> F oc \<Longrightarrow> exec F (withLogging nxt r) w res w'"
  by (cases res) (auto simp: withLogging_def exec_bind exec_step [of "TimeNow k" for k])

lemma exec_withMetricsI:
  assumes "exec F (nxt r) w (resp, pattern) w1" and "F oc"
  shows "\<exists>w'. exec F (withMetrics enabled nxt r) w (resp, pattern) w' \<and> same_but_metrics w1 w'"
proof (cases enabled)
  case True
  let ?m = "ObserveHTTP (rq_Method r) (if pattern = '''' then ''unmatched'' else pattern) (show_int (rs_Status resp)) (o_now oc - o_now oc)"
  have "exec F (Metric ?m (Return (resp, pattern))) w1 (resp, pattern) (w1\<lparr>metrics := metrics w1 @ [?m]\<rparr>)"
    by - (rule exec_call [where oc = oc]; simp add: assms(2))
  then have "exec F (TimeNow (\<lambda>stop. Metric (ObserveHTTP (rq_Method r) (if pattern = '''' then ''unmatched'' else pattern)
      (show_int (rs_Status resp)) (stop - o_now oc)) (Return (resp, pattern)))) w1 (resp, pattern) (w1\<lparr>metrics := metrics w1 @ [?m]\<rparr>)"
    by - (rule exec_call [where oc = oc]; simp add: assms(2))
  then have "exec F (bind_prog (nxt r) (\<lambda>(resp, pattern). TimeNow (\<lambda>stop. Metric (ObserveHTTP (rq_Method r)
      (if pattern = '''' then ''unmatched'' else pattern) (show_int (rs_Status resp)) (stop - o_now oc)) (Return (resp, pattern)))))
      w (resp, pattern) (w1\<lparr>metrics := metrics w1 @ [?m]\<rparr>)"
    by (intro exec_bindI [OF assms(1)]) (simp only: prod.case)
  then have "exec F (withMetrics enabled nxt r) w (resp, pattern) (w1\<lparr>metrics := metrics w1 @ [?m]\<rparr>)"
    using True by (simp add: withMetrics_def split del: if_split)
      (rule exec_call [where oc = oc]; simp add: assms(2) split del: if_split)
  then show ?thesis by (intro exI conjI) (assumption, simp add: same_but_metrics_def)
next
  case False
  then show ?thesis using assms(1) by (intro exI [of _ w1]) (simp add: withMetrics_def)
qed

lemma exec_serve_httpI:
  assumes "rq_Header r ''X-Request-ID'' = ''''" and "F oc"
    and "exec F (serve_mux s (r\<lparr>rq_RequestID := Some (uuid_String (svc_lib (srv_jobs s)) (o_uuid oc))\<rparr>)) w (resp0, pattern) w1"
  shows "\<exists>resp w'. exec F (serve_http s r) w (resp, pattern) w'
    \<and> rs_Status resp = rs_Status resp0 \<and> rs_Body resp = rs_Body resp0 \<and> same_but_metrics w1 w'"
proof -
  let ?i = "uuid_String (svc_lib (srv_jobs s)) (o_uuid oc)"
  obtain w' where "exec F (withMetrics (srv_metrics s) (withLogging (serve_mux s)) (r\<lparr>rq_RequestID := Some ?i\<rparr>)) w (resp0, pattern) w'"
      and same: "same_but_metrics w1 w'"
    using exec_withMetricsI [where nxt = "withLogging (serve_mux s)" and oc = oc]
      exec_withLoggingI [where nxt = "serve_mux s" and oc = oc] assms(2,3) by blast
  from exec_recoverI [OF this(1), of "(internal_error, '''')"]
  have "exec F (bind_prog (withRecovery (withMetrics (srv_metrics s) (withLogging (serve_mux s))) (r\<lparr>rq_RequestID := Some ?i\<rparr>))
      (\<lambda>(resp, pattern). Return (resp\<lparr>rs_Header := (''X-Request-ID'', ?i) # rs_Header resp\<rparr>, pattern)))
      w (resp0\<lparr>rs_Header := (''X-Request-ID'', ?i) # rs_Header resp0\<rparr>, pattern) w'"
    unfolding withRecovery_def by (rule exec_bindI) simp
  then have "exec F (serve_http s r) w (resp0\<lparr>rs_Header := (''X-Request-ID'', ?i) # rs_Header resp0\<rparr>, pattern) w'"
    using assms(1) by (simp add: serve_http_def withMiddleware_def withRequestID_def Let_def)
      (rule exec_call [where oc = oc], simp_all add: assms(2))
  then show ?thesis using same by (intro exI conjI) (assumption | simp)+
qed

section \<open>Routing to the endpoints of a job\<close>

text \<open>The method and path of each endpoint that works on one job.\<close>

fun job_route :: "endpoint \<Rightarrow> string \<Rightarrow> string \<times> string" where
  "job_route GetJobE i = (''GET'', ''/v1/jobs/'' @ i)"
| "job_route CancelJobE i = (''POST'', ''/v1/jobs/'' @ i @ ''/cancel'')"
| "job_route ListArtifactsE i = (''GET'', ''/v1/jobs/'' @ i @ ''/artifacts'')"
| "job_route _ i = ('''', '''')"

lemma split_job_paths:
  assumes "slash \<notin> set i"
  shows "split_slash (''/v1/jobs/'' @ i) = ['''', ''v1'', ''jobs'', i]"
    and "split_slash (''/v1/jobs/'' @ i @ ''/cancel'') = ['''', ''v1'', ''jobs'', i, ''cancel'']"
    and "split_slash (''/v1/jobs/'' @ i @ ''/artifacts'') = ['''', ''v1'', ''jobs'', i, ''artifacts'']"
  using split_slash_plain [OF assms] split_slash_append [OF assms, of "''cancel''"]
    split_slash_append [OF assms, of "''artifacts''"]
  by simp_all

lemma route_splits:
  "split_slash ''/health'' = ['''', ''health'']" "split_slash ''/ready'' = ['''', ''ready'']"
  "split_slash ''/metrics'' = ['''', ''metrics'']" "split_slash ''/v1/uploads'' = ['''', ''v1'', ''uploads'']"
  "split_slash ''/v1/jobs'' = ['''', ''v1'', ''jobs'']" "split_slash ''/v1/jobs/{id}'' = ['''', ''v1'', ''jobs'', ''{id}'']"
  "split_slash ''/v1/jobs/{id}/cancel'' = ['''', ''v1'', ''jobs'', ''{id}'', ''cancel'']"
  "split_slash ''/v1/jobs/{id}/artifacts'' = ['''', ''v1'', ''jobs'', ''{id}'', ''artifacts'']"
  by simp_all

lemma serve_mux_job:
  assumes "(rq_Method r, rq_Path r) = job_route e i" and "e \<in> {GetJobE, CancelJobE, ListArtifactsE}"
    and "i \<noteq> ''''" and "slash \<notin> set i"
  shows "\<exists>pattern. serve_mux s r = bind_prog (endpoint_prog s e (r\<lparr>rq_PathID := i\<rparr>)) (\<lambda>resp. Return (resp, pattern))"
proof -
  note paths = split_job_paths [OF assms(4)]
  consider "e = GetJobE" | "e = CancelJobE" | "e = ListArtifactsE" using assms(2) by blast
  then show ?thesis
  proof cases
    case 1
    then have "rq_Method r = ''GET''" "split_slash (rq_Path r) = ['''', ''v1'', ''jobs'', i]"
      using assms(1) paths(1) by (simp_all only: job_route.simps prod.inject)
    then show ?thesis
      using 1 assms(3) by (simp add: serve_mux_def candidates_def routes_def match_path_def match_method_def route_splits)
        (rule exI, rule refl)
  next
    case 2
    then have "rq_Method r = ''POST''" "split_slash (rq_Path r) = ['''', ''v1'', ''jobs'', i, ''cancel'']"
      using assms(1) paths(2) by (simp_all only: job_route.simps prod.inject)
    then show ?thesis
      using 2 assms(3) by (simp add: serve_mux_def candidates_def routes_def match_path_def match_method_def route_splits)
        (rule exI, rule refl)
  next
    case 3
    then have "rq_Method r = ''GET''" "split_slash (rq_Path r) = ['''', ''v1'', ''jobs'', i, ''artifacts'']"
      using assms(1) paths(3) by (simp_all only: job_route.simps prod.inject)
    then show ?thesis
      using 3 assms(3) by (simp add: serve_mux_def candidates_def routes_def match_path_def match_method_def route_splits)
        (rule exI, rule refl)
  qed
qed

section \<open>The endpoints of a job\<close>

text \<open>The tables, the queue and the object store are as they were.\<close>

definition answers_with :: "http_response \<Rightarrow> int \<Rightarrow> payload \<Rightarrow> bool" where
  "answers_with resp status body \<longleftrightarrow> rs_Status resp = status \<and> rs_Body resp = body"

definition answers_error :: "http_response \<Rightarrow> int \<Rightarrow> string \<Rightarrow> bool" where
  "answers_error resp status code \<longleftrightarrow> (\<exists>m. answers_with resp status (ErrorBody \<lparr>ed_Code = code, ed_Message = m\<rparr>))"

lemma exec_ListArtifacts:
  "exec faultless (repo_ListArtifacts i) w r w' \<Longrightarrow> r = Inr (sql_select_artifacts i (w_db w)) \<and> w' = w"
  by (auto simp: repo_ListArtifacts_def exec_step faultless_def)

text \<open>What an endpoint of a job answers and does, given the tables.\<close>

definition job_endpoint_spec :: "library \<Rightarrow> endpoint \<Rightarrow> string \<Rightarrow> world \<Rightarrow> http_response \<Rightarrow> world \<Rightarrow> bool" where
  "job_endpoint_spec lib e i w resp w' \<longleftrightarrow>
     (case uuid_Parse lib i of
        None \<Rightarrow> answers_error resp 400 ''invalid_id'' \<and> same_but_metrics w w'
      | Some k \<Rightarrow>
     (case job_of (w_db w) k of
        None \<Rightarrow> answers_error resp 404 ''not_found'' \<and> same_but_metrics w w'
      | Some j \<Rightarrow>
          if e = GetJobE then answers_with resp 200 (JobBody (toJobResponse j)) \<and> same_but_metrics w w'
          else if e = ListArtifactsE then
            answers_with resp 200 (ArtifactsBody \<lparr>asr_JobID = k,
              asr_Artifacts = map artifact_response_of (sql_select_artifacts k (w_db w))\<rparr>) \<and> same_but_metrics w w'
          else if job_Status j \<in> {StatusPending, StatusQueued, StatusProcessing, StatusRetrying} then
            (\<exists>now w1. answers_with resp 200 (JobBody (toJobResponse (updated_row now (JobUpdate StatusCancelled) j)))
               \<and> job_becomes k (updated_row now (JobUpdate StatusCancelled) j) w w1 \<and> same_but_metrics w1 w')
          else answers_error resp 409 ''not_cancellable'' \<and> same_but_metrics w w'))"

lemmas answer_defs = answers_with_def answers_error_def job_or_error_def writeServiceError_def
  writeError_def writeJSON_def

lemma exec_job_endpoint:
  assumes "wf_db (w_db w)" and "e \<in> {GetJobE, CancelJobE, ListArtifactsE}"
    and "exec faultless (endpoint_prog s e (r\<lparr>rq_PathID := i\<rparr>)) w resp w'"
  shows "job_endpoint_spec (svc_lib (srv_jobs s)) e i w resp w'"
proof (cases "uuid_Parse (svc_lib (srv_jobs s)) i")
  case None
  then show ?thesis
    using assms(2,3) by (auto simp: job_endpoint_spec_def handleGetJob_def handleCancelJob_def handleListArtifacts_def
        parseID_def answer_defs)
next
  case id: (Some k)
  consider "e = GetJobE" | "e = CancelJobE" | "e = ListArtifactsE" using assms(2) by blast
  then show ?thesis
  proof cases
    case 1
    then show ?thesis
      using assms(3) id by (auto simp: job_endpoint_spec_def handleGetJob_def svc_GetJob_def parseID_def exec_bind
          exec_GetJob answer_defs split: option.splits)
  next
    case 2
    then obtain g where g: "exec faultless (CancelJob k) w g w'" and resp: "resp = job_or_error g"
      using assms(3) id by (auto simp: handleCancelJob_def parseID_def exec_bind)
    from exec_CancelJob [OF assms(1) g] show ?thesis
      using resp id 2 same_but_metrics_refl [of w']
      by (auto simp: job_endpoint_spec_def answer_defs split: option.splits if_splits)
        (blast intro: same_but_metrics_refl)+
  next
    case 3
    then show ?thesis
      using assms(3) id by (auto simp: job_endpoint_spec_def handleListArtifacts_def svc_GetJob_def svc_ListArtifacts_def
          parseID_def exec_bind exec_GetJob answer_defs dest!: exec_ListArtifacts split: option.splits)
  qed
qed

lemma job_endpoint_spec_metrics:
  "job_endpoint_spec lib e i w resp0 w1 \<Longrightarrow> rs_Status resp = rs_Status resp0 \<Longrightarrow> rs_Body resp = rs_Body resp0
    \<Longrightarrow> same_but_metrics w1 w' \<Longrightarrow> job_endpoint_spec lib e i w resp w'"
  unfolding job_endpoint_spec_def answers_error_def answers_with_def
  by (auto split: option.splits if_splits intro: same_but_metrics_trans) (blast intro: same_but_metrics_trans)+

lemma exec_http_job:
  assumes "wf_db (w_db w)" and "(rq_Method r, rq_Path r) = job_route e i"
    and "e \<in> {GetJobE, CancelJobE, ListArtifactsE}" and "i \<noteq> ''''" and "slash \<notin> set i"
    and "exec faultless (serve_http s r) w (resp, pattern) w'"
  shows "job_endpoint_spec (svc_lib (srv_jobs s)) e i w resp w'"
proof -
  obtain rid resp0 w1 where mux: "exec faultless (serve_mux s (r\<lparr>rq_RequestID := Some rid\<rparr>)) w (resp0, pattern) w1"
      and same: "rs_Status resp = rs_Status resp0" "rs_Body resp = rs_Body resp0" "same_but_metrics w1 w'"
    using exec_serve_http [OF assms(6)] by blast
  have "\<exists>pat. serve_mux s (r\<lparr>rq_RequestID := Some rid\<rparr>)
      = bind_prog (endpoint_prog s e (r\<lparr>rq_RequestID := Some rid, rq_PathID := i\<rparr>)) (\<lambda>resp. Return (resp, pat))"
    by (rule serve_mux_job) (use assms(2-5) in simp_all)
  with mux have "exec faultless (endpoint_prog s e (r\<lparr>rq_RequestID := Some rid, rq_PathID := i\<rparr>)) w resp0 w1"
    by (auto simp: exec_bind)
  from exec_job_endpoint [OF assms(1,3) this] show ?thesis
    using same by (rule job_endpoint_spec_metrics)
qed

text \<open>
  C27. The endpoints of a job, end to end. When the database answers, a request to read a job,
  to list its artifacts or to cancel it is answered 400 if its path holds no UUID and 404 if
  there is no such job; reading answers 200 with the job, listing 200 with its artifacts in
  order of creation, cancelling 200 with the job CANCELLED, or 409 if it has ended already.
  Nothing but that cancellation changes the tables, the queue or the object store.
\<close>

theorem http_job_endpoints:
  assumes "wf_db (w_db w)" and "(rq_Method r, rq_Path r) = job_route e i"
    and "e \<in> {GetJobE, CancelJobE, ListArtifactsE}" and "i \<noteq> ''''" and "slash \<notin> set i"
    and "exec faultless (serve_http s r) w (resp, pattern) w'"
  shows "job_endpoint_spec (svc_lib (srv_jobs s)) e i w resp w'"
  by (rule exec_http_job [OF assms])

definition demo_server :: server where
  "demo_server = \<lparr>srv_jobs = dep_service demo_dep,
     srv_json = \<lparr>decode_upload = (\<lambda>_. None), decode_job = (\<lambda>_. Some \<lparr>cjr_UploadID = cji_UploadID demo_input,
       cjr_Pipeline = cji_Pipeline demo_input, cjr_PipelineVersion = cji_PipelineVersion demo_input\<rparr>)\<rparr>,
     srv_metrics = True\<rparr>"

definition plain_request :: "string \<Rightarrow> string \<Rightarrow> http_request" where
  "plain_request mth path = \<lparr>rq_Method = mth, rq_Path = path, rq_Header = (\<lambda>_. ''''), rq_Body = '''',
     rq_RequestID = None, rq_PathID = ''''\<rparr>"

lemma http_ends: "\<exists>resp pattern w'. exec faultless (serve_http s r) w (resp, pattern) w'"
proof -
  have "finishes returned 16 (serve_http s r)"
    by (rule takes_weaken [OF finishes_http]) (auto simp: is_done_cases)
  from takes_ex_faultless [OF this] show ?thesis by simp
qed

theorem http_job_endpoints_witness:
  "\<exists>resp pattern (w' :: world). exec faultless (serve_http demo_server (plain_request ''POST'' ''/v1/jobs/job1/cancel''))
       (sys_world queued_system) (resp, pattern) w'
     \<and> rs_Status resp = 200 \<and> map_option job_Status (job_of (w_db w') 1) = Some StatusCancelled"
proof -
  obtain resp pattern w' where ex: "exec faultless (serve_http demo_server
      (plain_request ''POST'' ''/v1/jobs/job1/cancel'')) (sys_world queued_system) (resp, pattern) w'"
    using http_ends by blast
  have job: "job_of (sys_db queued_system) 1 = Some demo_job" "job_Status demo_job = StatusQueued"
      "uuid_Parse demo_lib ''job1'' = Some 1"
    by (simp_all add: demo_states)
  have "job_endpoint_spec (svc_lib (srv_jobs demo_server)) CancelJobE ''job1'' (sys_world queued_system) resp w'"
    by (rule http_job_endpoints [OF reachable_wf [OF reachable_queued] _ _ _ _ ex])
      (simp_all add: plain_request_def)
  then have "rs_Status resp = 200 \<and> map_option job_Status (job_of (w_db w') 1) = Some StatusCancelled"
    using job by (auto simp: job_endpoint_spec_def demo_server_def answers_with_def same_but_metrics_def
        job_Status_updated_row JobUpdate_def)
  then show ?thesis using ex by blast
qed


section \<open>Creating a job\<close>

lemma serve_mux_create:
  assumes "rq_Method r = ''POST''" and "rq_Path r = ''/v1/jobs''"
  shows "\<exists>pattern. serve_mux s r = bind_prog (handleCreateJob s (r\<lparr>rq_PathID := ''''\<rparr>)) (\<lambda>resp. Return (resp, pattern))"
  using assms
  by (simp add: serve_mux_def candidates_def routes_def match_path_def match_method_def route_splits)
    (rule exI, rule refl)

text \<open>The service's input for a decoded request.\<close>

definition job_input :: "http_request \<Rightarrow> create_job_request \<Rightarrow> string \<Rightarrow> create_job_input" where
  "job_input r req rid = \<lparr>cji_UploadID = cjr_UploadID req, cji_Pipeline = cjr_Pipeline req,
     cji_PipelineVersion = cjr_PipelineVersion req, cji_IdempotencyKey = rq_Header r ''Idempotency-Key'',
     cji_CorrelationID = rid\<rparr>"

text \<open>What creating a job answers and does, when the key was not used and when it was.\<close>

definition created_spec :: "service \<Rightarrow> create_job_input \<Rightarrow> world \<Rightarrow> http_response \<Rightarrow> world \<Rightarrow> bool" where
  "created_spec s inp w resp w' \<longleftrightarrow>
     (\<exists>job key. answers_with resp 201 (JobBody (toJobResponse job)) \<and> fields_ok inp key
        \<and> job_of (w_db w) (job_ID job) = None \<and> queued_as (svc_lib s) job w w'
        \<and> job_AttemptCount job = 0 \<and> job_MaxAttempts job = svc_maxAttempts s \<and> job_InputObjectKey job = key
        \<and> (cji_IdempotencyKey inp \<noteq> '''' \<longrightarrow> (\<exists>row. key_of (w_db w') (cji_IdempotencyKey inp) = Some row
             \<and> ik_JobID row = job_ID job \<and> ik_RequestHash row = hash_for inp key)))"

definition replayed_spec :: "service \<Rightarrow> create_job_input \<Rightarrow> idem_row \<Rightarrow> world \<Rightarrow> http_response \<Rightarrow> world \<Rightarrow> bool" where
  "replayed_spec s inp row w resp w' \<longleftrightarrow>
     (\<exists>key. fields_ok inp key \<and>
        (if ik_RequestHash row \<noteq> hash_for inp key
         then answers_error resp 409 ''idempotency_conflict'' \<and> same_but_metrics w w'
         else \<exists>job. job_of (w_db w) (ik_JobID row) = Some job \<and>
           (if job_Status job = StatusPending
            then \<exists>q. answers_with resp 200 (JobBody (toJobResponse q)) \<and> queued_as (svc_lib s) q w w' \<and> same_origin job q
            else answers_with resp 200 (JobBody (toJobResponse job)) \<and> same_but_metrics w w')))"

definition create_endpoint_spec :: "service \<Rightarrow> create_job_input \<Rightarrow> world \<Rightarrow> http_response \<Rightarrow> world \<Rightarrow> bool" where
  "create_endpoint_spec s inp w resp w' \<longleftrightarrow>
     answers_error resp 400 ''validation'' \<and> same_but_metrics w w' \<or>
     (case if cji_IdempotencyKey inp = '''' then None else key_of (w_db w) (cji_IdempotencyKey inp) of
        None \<Rightarrow> created_spec s inp w resp w'
      | Some row \<Rightarrow> replayed_spec s inp row w resp w')"

lemma queued_as_metrics: "queued_as lib q w w1 \<Longrightarrow> same_but_metrics w1 w' \<Longrightarrow> queued_as lib q w w'"
  by (simp add: queued_as_def same_but_metrics_def)

lemma create_endpoint_spec_metrics:
  assumes "create_endpoint_spec s inp w resp0 w1" and "rs_Status resp = rs_Status resp0" and "rs_Body resp = rs_Body resp0"
    and "same_but_metrics w1 w'"
  shows "create_endpoint_spec s inp w resp w'"
proof -
  have "created_spec s inp w resp0 w1 \<Longrightarrow> created_spec s inp w resp w'"
    unfolding created_spec_def answers_with_def
    using assms(2-4) queued_as_metrics [OF _ assms(4)] by (fastforce simp: same_but_metrics_def)
  moreover have "replayed_spec s inp row w resp w'" if replay: "replayed_spec s inp row w resp0 w1" for row
  proof -
    have answer: "answers_with resp = answers_with resp0" "answers_error resp = answers_error resp0"
      using assms(2,3) by (simp_all add: fun_eq_iff answers_error_def answers_with_def)
    obtain key where key: "fields_ok inp key" and out: "if ik_RequestHash row \<noteq> hash_for inp key
         then answers_error resp0 409 ''idempotency_conflict'' \<and> same_but_metrics w w1
         else \<exists>job. job_of (w_db w) (ik_JobID row) = Some job \<and>
           (if job_Status job = StatusPending
            then \<exists>q. answers_with resp0 200 (JobBody (toJobResponse q)) \<and> queued_as (svc_lib s) q w w1 \<and> same_origin job q
            else answers_with resp0 200 (JobBody (toJobResponse job)) \<and> same_but_metrics w w1)"
      using replay unfolding replayed_spec_def by blast
    show ?thesis
      unfolding replayed_spec_def answer
      using out by (intro exI [of _ key] conjI key) (simp split: if_splits,
        (blast intro: queued_as_metrics [OF _ assms(4)] same_but_metrics_trans [OF _ assms(4)])+)
  qed
  ultimately show ?thesis
    using assms(1-3) same_but_metrics_trans [OF _ assms(4)]
    by (auto simp: create_endpoint_spec_def answers_error_def answers_with_def split: option.splits if_splits)
qed

lemma exec_handleCreateJob:
  assumes "wf_db (w_db w)" and "1 \<le> svc_maxAttempts (srv_jobs s)" and "fits_int32 (svc_maxAttempts (srv_jobs s))"
    and "always_encodes (svc_lib (srv_jobs s))" and req: "decode_job (srv_json s) (limited_body r) = Some req"
    and ex: "exec (fresh_jobs (w_db w)) (handleCreateJob s r) w resp w'"
  shows "create_endpoint_spec (srv_jobs s) (job_input r req (requestIDFrom r)) w resp w'"
proof -
  let ?inp = "job_input r req (requestIDFrom r)"
  obtain c w1 where create: "exec (fresh_jobs (w_db w)) (CreateJob (srv_jobs s) ?inp) w c w1"
      and answer: "resp = (case c of Inl e \<Rightarrow> writeServiceError e
        | Inr (job, created) \<Rightarrow> writeJSON (if created then 201 else 200) (JobBody (toJobResponse job)))"
      and same: "same_but_metrics w1 w'"
    using ex req by (auto simp: handleCreateJob_def exec_bind job_input_def exec_case_sum exec_step [of "Metric m k" for m k]
        split: if_splits)
  have rej: ?thesis if "rejected w c w1"
    using that answer same
    by (auto simp: rejected_def create_endpoint_spec_def answer_defs)
  let ?k = "cji_IdempotencyKey ?inp"
  show ?thesis
  proof (cases "if ?k = '''' then None else key_of (w_db w) ?k")
    case None
    then have "?k = '''' \<or> key_of (w_db w) ?k = None" by (simp split: if_splits)
    from exec_CreateJob_new [OF assms(1) this assms(2-4) create] rej
    consider ?thesis | job key where "c = Inr (job, True)" "fields_ok ?inp key" "job_of (w_db w) (job_ID job) = None"
        "queued_as (svc_lib (srv_jobs s)) job w w1" "job_AttemptCount job = 0"
        "job_MaxAttempts job = svc_maxAttempts (srv_jobs s)" "job_InputObjectKey job = key"
        "?k \<noteq> '''' \<longrightarrow> (\<exists>row. key_of (w_db w1) ?k = Some row
             \<and> ik_JobID row = job_ID job \<and> ik_RequestHash row = hash_for ?inp key)"
      by blast
    then show ?thesis
    proof cases
      case (2 job key)
      have "created_spec (srv_jobs s) ?inp w resp w'"
        unfolding created_spec_def
        using 2 answer same queued_as_metrics [OF 2(4) same]
        by (intro exI [of _ job] exI [of _ key]) (simp add: answers_with_def writeJSON_def same_but_metrics_def)
      then show ?thesis using None by (simp add: create_endpoint_spec_def)
    qed
  next
    case (Some row)
    then have "?k \<noteq> ''''" "key_of (w_db w) ?k = Some row" by (simp_all split: if_splits)
    from exec_CreateJob_replay [OF assms(1) this assms(2-4) create] have
        "rejected w c w1 \<or> replayed_spec (srv_jobs s) ?inp row w resp w'"
      unfolding replayed_spec_def
      using answer same queued_as_metrics [OF _ same]
      by (fastforce simp: answer_defs split: if_splits)
    then show ?thesis using rej Some by (auto simp: create_endpoint_spec_def)
  qed
qed




end
