(* ===== verification/Uploads.thy ===== *)
theory Uploads
  imports Endpoints
begin

text \<open>
  \<open>POST /v1/uploads\<close> end to end, when the services answer: from the request to the minted key,
  its token and the presigned URL.
\<close>

section \<open>Minted keys\<close>

lemma minted_key_valid:
  assumes "uuid_text fresh"
  shows "ValidateInputKey (GenerateInputKey year month fresh ext) = None"
  using minted_key_segments [OF assms] unfolding accepted_key_shape .

text \<open>Asked for a content type that is accepted, the server keeps its canonical extension.\<close>

lemma minted_key_extension:
  assumes "contentTypeExt ct = Some ext"
  shows "GenerateInputKey year month fresh ext
    = InputPrefix @ show_int0 4 year @ ''/'' @ show_int0 2 month @ ''/'' @ fresh @ ext"
proof -
  have lower: "ToLower ''.jpg'' = ''.jpg''" "ToLower ''.png'' = ''.png''" by code_simp+
  from assms consider "ext = ''.jpg''" | "ext = ''.png''" by (auto simp: contentTypeExt_def split: if_splits)
  then have "supportedExtensions (ToLower ext) = Some ext"
    by cases (simp_all only: lower, simp_all add: supportedExtensions_def)
  then show ?thesis by (simp add: GenerateInputKey_def Let_def)
qed

section \<open>The endpoint\<close>

text \<open>Whether the service takes an upload of this type and announced size.\<close>

definition upload_accepted :: "service \<Rightarrow> create_upload_request \<Rightarrow> bool" where
  "upload_accepted s req \<longleftrightarrow> cur_ContentType req \<in> {''image/jpeg'', ''image/png''}
     \<and> (cur_SizeBytes req \<le> 0 \<or> cur_SizeBytes req \<le> svc_maxUploadBytes s)"

definition upload_created :: "service \<Rightarrow> create_upload_request \<Rightarrow> http_response \<Rightarrow> bool" where
  "upload_created s req resp \<longleftrightarrow> (\<exists>key url year month u ext.
     answers_with resp 201 (UploadBody \<lparr>ur_UploadID = EncodeUploadID key, ur_ObjectKey = key, ur_UploadURL = url,
       ur_ExpiresInSeconds = go_quot (svc_presignExpiry s) Second\<rparr>)
     \<and> contentTypeExt (cur_ContentType req) = Some ext \<and> 1 \<le> month \<and> month \<le> 12
     \<and> key = InputPrefix @ show_int0 4 year @ ''/'' @ show_int0 2 month @ ''/'' @ uuid_String (svc_lib s) u @ ext
     \<and> ValidateInputKey key = None \<and> DecodeUploadID (EncodeUploadID key) = Inr key)"

lemma ValidateUploadRequest_accepts:
  "ValidateUploadRequest (cur_ContentType req) (cur_SizeBytes req) (svc_maxUploadBytes s) = None \<longleftrightarrow> upload_accepted s req"
  by (auto simp: ValidateUploadRequest_def upload_accepted_def SupportedContentType_def contentTypeExt_def)

lemma ValidateUploadRequest_error:
  "ValidateUploadRequest ct n m = Some e \<Longrightarrow> errors_Is ErrValidation (validation_error e)"
  by (simp add: validation_error_def)

lemma exec_handleCreateUpload:
  assumes "\<And>u. uuid_text (uuid_String (svc_lib (srv_jobs s)) u)"
    and req: "decode_upload (srv_json s) (limited_body r) = Some req"
    and ex: "exec faultless (handleCreateUpload s r) w resp w'"
  shows "w' = w \<and> (if upload_accepted (srv_jobs s) req then upload_created (srv_jobs s) req resp
    else answers_error resp 400 ''validation'')"
proof (cases "upload_accepted (srv_jobs s) req")
  case False
  then obtain e where e: "ValidateUploadRequest (cur_ContentType req) (cur_SizeBytes req) (svc_maxUploadBytes (srv_jobs s)) = Some e"
    using ValidateUploadRequest_accepts by (metis option.exhaust)
  then have "resp = writeServiceError (validation_error e) \<and> w' = w"
    using ex req by (simp add: handleCreateUpload_def CreateUpload_def)
  then show ?thesis
    using False ValidateUploadRequest_error [OF e] by (simp add: answer_defs)
next
  case True
  then have ok: "ValidateUploadRequest (cur_ContentType req) (cur_SizeBytes req) (svc_maxUploadBytes (srv_jobs s)) = None"
    by (simp add: ValidateUploadRequest_accepts)
  from True obtain ext where ext: "contentTypeExt (cur_ContentType req) = Some ext"
    by (auto simp: upload_accepted_def contentTypeExt_def)
  obtain oc oc' :: outside and url where resp: "resp = writeJSON 201 (UploadBody (let key = GenerateInputKey (fst (o_date oc)) (snd (o_date oc) mod 12 + 1)
        (uuid_String (svc_lib (srv_jobs s)) (o_uuid oc')) ext in \<lparr>ur_UploadID = EncodeUploadID key, ur_ObjectKey = key,
          ur_UploadURL = url, ur_ExpiresInSeconds = go_quot (svc_presignExpiry (srv_jobs s)) Second\<rparr>))" and same: "w' = w"
    using ex req ok ext
    by (auto simp: handleCreateUpload_def CreateUpload_def ExtensionForContentType_def PresignUpload_def exec_bind exec_step
        faultless_def Let_def)
  let ?key = "GenerateInputKey (fst (o_date oc)) (snd (o_date oc) mod 12 + 1) (uuid_String (svc_lib (srv_jobs s)) (o_uuid oc')) ext"
  have key: "ValidateInputKey ?key = None" by (rule minted_key_valid [OF assms(1)])
  have "upload_created (srv_jobs s) req resp"
    unfolding upload_created_def
  proof (intro exI conjI)
    show "answers_with resp 201 (UploadBody \<lparr>ur_UploadID = EncodeUploadID ?key, ur_ObjectKey = ?key, ur_UploadURL = url,
        ur_ExpiresInSeconds = go_quot (svc_presignExpiry (srv_jobs s)) Second\<rparr>)"
      by (simp add: resp answers_with_def writeJSON_def Let_def)
    show "1 \<le> snd (o_date oc) mod 12 + 1" "snd (o_date oc) mod 12 + 1 \<le> 12" by simp_all
  qed (fact ext minted_key_extension [OF ext] key DecodeUploadID_Encode [OF key])+
  then show ?thesis using True same by simp
qed

lemma serve_mux_upload:
  assumes "rq_Method r = ''POST''" and "rq_Path r = ''/v1/uploads''"
  shows "\<exists>pattern. serve_mux s r = bind_prog (handleCreateUpload s (r\<lparr>rq_PathID := ''''\<rparr>)) (\<lambda>resp. Return (resp, pattern))"
  using assms
  by (simp add: serve_mux_def candidates_def routes_def match_path_def match_method_def route_splits)
    (rule exI, rule refl)


definition upload_server :: server where
  "upload_server = demo_server\<lparr>srv_jobs := NewService (demo_lib\<lparr>uuid_String := (\<lambda>_. ''0a1b-2c3d'')\<rparr>) demo_config,
     srv_json := (srv_json demo_server)\<lparr>decode_upload := (\<lambda>_. Some \<lparr>cur_ContentType = ''image/png'', cur_SizeBytes = 10\<rparr>)\<rparr>\<rparr>"


end
