(* ===== verification/ClientView.thy ===== *)
theory ClientView
  imports Outputs Uploads
begin

text \<open>
  What a client can rely on across the programs: the API and the workers share nothing but the
  database, the queue and the object store.
\<close>

section \<open>A completed job's output can be found\<close>

text \<open>An answer that lists an artifact under the key of the job's output, and the stored object.\<close>

definition lists_output :: "library \<Rightarrow> job \<Rightarrow> world \<Rightarrow> http_response \<Rightarrow> bool" where
  "lists_output lib j w resp \<longleftrightarrow> (\<exists>arts a buf.
     answers_with resp 200 (ArtifactsBody \<lparr>asr_JobID = job_ID j, asr_Artifacts = arts\<rparr>) \<and> a \<in> set arts
     \<and> ar_Kind a = ''output'' \<and> ar_ContentType a = ''image/jpeg''
     \<and> ar_ObjectKey a = output_key lib j \<and> ar_SizeBytes a = int (length buf)
     \<and> (output_key lib j, buf, ar_SizeBytes a, ''image/jpeg'') \<in> set (stored w))"

text \<open>
  C25. A client that asks for the artifacts of a COMPLETED job finds its output. In every
  reachable state, after any interleaving of requests, deliveries and sweeps with any faults
  and crashes, when the database answers GET /v1/jobs/<id>/artifacts for a COMPLETED job, the
  response is 200 and lists an artifact of kind output with the job's output key, and the
  object store was given an object of the listed size and type under that key.
\<close>

theorem http_completed_output:
  assumes "reachable dep s" and "srv_jobs srv = dep_service dep"
    and "(rq_Method r, rq_Path r) = job_route ListArtifactsE i" and "i \<noteq> ''''" and "slash \<notin> set i"
    and "uuid_Parse (svc_lib (dep_service dep)) i = Some k"
    and "job_of (sys_db s) k = Some j" and "job_Status j = StatusCompleted"
    and "exec faultless (serve_http srv r) (sys_world s) (resp, pattern) w'"
  shows "lists_output (svc_lib (dep_service dep)) j (sys_world s) resp"
proof -
  let ?lib = "svc_lib (dep_service dep)"
  have "job_endpoint_spec ?lib ListArtifactsE i (sys_world s) resp w'"
    using exec_http_job [OF reachable_wf [OF assms(1)] assms(3) _ assms(4,5,9)] assms(2) by simp
  then have answer: "answers_with resp 200 (ArtifactsBody \<lparr>asr_JobID = job_ID j,
      asr_Artifacts = map artifact_response_of (sql_select_artifacts k (sys_db s))\<rparr>)"
    using assms(6,7) row_of_key [OF assms(7)] by (simp add: job_endpoint_spec_def)
  obtain a buf where a: "a \<in> set (artifacts (sys_db s))" "art_JobID a = job_ID j" "art_ObjectKey a = output_key ?lib j"
      "art_Kind a = ''output''" "art_ContentType a = ''image/jpeg''" "art_SizeBytes a = int (length buf)"
      "(output_key ?lib j, buf, art_SizeBytes a, ''image/jpeg'') \<in> set (stored (sys_world s))"
    using completed_output [OF assms(1,7,8)] unfolding output_recorded_def by blast
  then have "a \<in> set (sql_select_artifacts k (sys_db s))"
    using row_of_key [OF assms(7)] by (simp add: sql_select_artifacts_def)
  then show ?thesis
    unfolding lists_output_def
    using answer a by (intro exI [of _ "artifact_response_of a"] exI [of _ buf] exI conjI) (auto simp: artifact_response_of_def)
qed

theorem http_completed_output_witness:
  "\<exists>s j resp. reachable demo_dep s \<and> job_of (sys_db s) 1 = Some j \<and> job_Status j = StatusCompleted
     \<and> lists_output demo_lib j (sys_world s) resp"
proof -
  obtain s j where s: "reachable demo_dep s" "job_of (sys_db s) 1 = Some j" "job_Status j = StatusCompleted"
    using demo_completed by blast
  let ?r = "plain_request ''GET'' ''/v1/jobs/job1/artifacts''"
  obtain resp pattern w' where ex: "exec faultless (serve_http demo_server ?r) (sys_world s) (resp, pattern) w'"
    using http_ends by blast
  have "(rq_Method ?r, rq_Path ?r) = job_route ListArtifactsE ''job1''" "srv_jobs demo_server = dep_service demo_dep"
    by (simp_all add: plain_request_def demo_server_def)
  from http_completed_output [OF s(1) this(2,1) _ _ _ s(2,3) ex] show ?thesis
    using s by auto
qed

end
