(* ===== verification/Broker.thy ===== *)
theory Broker
  imports Config Handler
begin

text \<open>
  The JetStream client of \<open>internal/messaging\<close>: connecting, the stream and consumer it
  declares, the pull consumer and the adapter of a delivery, and the header carrier of
  \<open>internal/observability/tracing.go\<close>. What the NATS library answers is an argument; the
  model says which library calls are made with which arguments and what is returned.
\<close>

section \<open>The client\<close>

text \<open>\<open>errors.New\<close> and \<open>fmt.Errorf\<close> with a quoted name.\<close>

definition errNotStarted :: err where
  "errNotStarted = Foreign ''consumer not started''"

definition wrap_named :: "string \<Rightarrow> string \<Rightarrow> err \<Rightarrow> err" where
  "wrap_named what name e = WrapErr ([Lit what, Lit '' '', Quoted name, Lit '': ''] @ Error e) [e]"

record connect_options =
  co_URL :: string
  co_Name :: string
  co_MaxReconnects :: int
  co_ReconnectWait :: duration

record client =
  cl_cfg :: nats_config

definition connect_options_of :: "nats_config \<Rightarrow> connect_options" where
  "connect_options_of cfg = \<lparr>co_URL = nats_URL cfg, co_Name = ''portrait-engine'', co_MaxReconnects = - 1,
     co_ReconnectWait = Second\<rparr>"

text \<open>
  \<open>Connect\<close> with the library's two answers: the result, and whether the connection is left
  open.
\<close>

definition Connect :: "nats_config \<Rightarrow> (connect_options \<Rightarrow> err option) \<Rightarrow> err option \<Rightarrow> (err + client) \<times> bool" where
  "Connect cfg dial jetstream_New =
     (case dial (connect_options_of cfg) of
        Some e \<Rightarrow> (Inl (wrap_prefix ''connect nats'' e), False)
      | None \<Rightarrow>
          (case jetstream_New of
             Some e \<Rightarrow> (Inl (wrap_prefix ''init jetstream'' e), False)
           | None \<Rightarrow> (Inr \<lparr>cl_cfg = cfg\<rparr>, True)))"

section \<open>The stream and the consumer\<close>

datatype storage_type = FileStorage | MemoryStorage
datatype retention_policy = LimitsPolicy | InterestPolicy | WorkQueuePolicy
datatype discard_policy = DiscardOld | DiscardNew
datatype ack_policy = AckExplicitPolicy | AckAllPolicy | AckNonePolicy

record stream_config =
  stream_Name :: string
  stream_Subjects :: "string list"
  stream_Storage :: storage_type
  stream_Retention :: retention_policy
  stream_Discard :: discard_policy
  stream_MaxMsgs :: int
  stream_Duplicates :: duration
  stream_Description :: string

definition stream_config_of :: "nats_config \<Rightarrow> stream_config" where
  "stream_config_of cfg = \<lparr>stream_Name = nats_Stream cfg, stream_Subjects = [nats_Subject cfg],
     stream_Storage = FileStorage, stream_Retention = WorkQueuePolicy, stream_Discard = DiscardOld,
     stream_MaxMsgs = - 1, stream_Duplicates = 2 * Minute,
     stream_Description = ''Portrait Engine job work queue''\<rparr>"

definition EnsureStream :: "client \<Rightarrow> (stream_config \<Rightarrow> err option) \<Rightarrow> err option" where
  "EnsureStream c createOrUpdate =
     (case createOrUpdate (stream_config_of (cl_cfg c)) of
        Some e \<Rightarrow> Some (wrap_named ''ensure stream'' (nats_Stream (cl_cfg c)) e)
      | None \<Rightarrow> None)"

record consumer_config =
  cc_Durable :: string
  cc_FilterSubject :: string
  cc_AckPolicy :: ack_policy
  cc_MaxDeliver :: int
  cc_AckWait :: duration

definition consumer_config_of :: "nats_config \<Rightarrow> consumer_config" where
  "consumer_config_of cfg = \<lparr>cc_Durable = nats_Durable cfg, cc_FilterSubject = nats_Subject cfg,
     cc_AckPolicy = AckExplicitPolicy, cc_MaxDeliver = nats_MaxDeliver cfg, cc_AckWait = nats_AckWait cfg\<rparr>"

text \<open>The shared pull consumer: whether it was started, with which limit, and stopped.\<close>

record iterator =
  it_MaxMessages :: int
  it_Stopped :: bool

record consumer =
  con_iter :: "iterator option"

definition NewConsumer :: "client \<Rightarrow> (string \<Rightarrow> consumer_config \<Rightarrow> err option) \<Rightarrow> err + consumer" where
  "NewConsumer c createOrUpdate =
     (case createOrUpdate (nats_Stream (cl_cfg c)) (consumer_config_of (cl_cfg c)) of
        Some e \<Rightarrow> Inl (wrap_named ''ensure consumer'' (nats_Durable (cl_cfg c)) e)
      | None \<Rightarrow> Inr \<lparr>con_iter = None\<rparr>)"

definition publisher_subject :: "client \<Rightarrow> string" where
  "publisher_subject c = nats_Subject (cl_cfg c)"

definition Ping :: "bool \<Rightarrow> string \<Rightarrow> err option" where
  "Ping up status =
     (if \<not> up then Some (WrapErr [Lit ''nats not connected (status '', Lit status, Lit '')''] []) else None)"

section \<open>The pull consumer\<close>

definition consumer_Start :: "consumer \<Rightarrow> int \<Rightarrow> err option \<Rightarrow> err option \<times> consumer" where
  "consumer_Start c maxInFlight messages_result =
     (case messages_result of
        Some e \<Rightarrow> (Some e, c)
      | None \<Rightarrow> (None, c\<lparr>con_iter := Some \<lparr>it_MaxMessages = maxInFlight, it_Stopped = False\<rparr>\<rparr>))"

text \<open>\<open>pull\<close> is what the iterator's \<open>Next\<close> answers.\<close>

definition consumer_Next :: "consumer \<Rightarrow> (iterator \<Rightarrow> err + 'm) \<Rightarrow> err + 'm" where
  "consumer_Next c pull =
     (case con_iter c of
        None \<Rightarrow> Inl errNotStarted
      | Some it \<Rightarrow> (case pull it of Inl e \<Rightarrow> Inl e | Inr m \<Rightarrow> Inr m))"

definition consumer_Stop :: "consumer \<Rightarrow> consumer" where
  "consumer_Stop c =
     (case con_iter c of
        None \<Rightarrow> c
      | Some it \<Rightarrow> c\<lparr>con_iter := Some (it\<lparr>it_Stopped := True\<rparr>)\<rparr>)"

section \<open>Deliveries\<close>

text \<open>A message of the library: its data, headers and metadata.\<close>

record js_msg =
  js_Data :: string
  js_Headers :: "string \<Rightarrow> string list"
  js_Metadata :: "err + 64 word"

datatype settle_call = MsgAck | MsgNak | MsgNakWithDelay duration | MsgTerm

text \<open>How the adapter settles a delivery.\<close>

fun settle_call_of :: "settlement \<Rightarrow> settle_call" where
  "settle_call_of Ack = MsgAck"
| "settle_call_of (Nak delay) = (if delay \<le> 0 then MsgNak else MsgNakWithDelay delay)"
| "settle_call_of Term = MsgTerm"

text \<open>\<open>int(md.NumDelivered)\<close> of an unsigned 64-bit number; 0 when the metadata is missing.\<close>

definition Deliveries :: "js_msg \<Rightarrow> int" where
  "Deliveries m = (case js_Metadata m of Inl e \<Rightarrow> 0 | Inr n \<Rightarrow> sint n)"

section \<open>Headers that carry the trace\<close>

type_synonym headers = "string \<Rightarrow> string list option"

definition carrier_Get :: "headers \<Rightarrow> string \<Rightarrow> string" where
  "carrier_Get c key = (case c key of Some (v # _) \<Rightarrow> v | _ \<Rightarrow> '''')"

definition carrier_Set :: "headers \<Rightarrow> string \<Rightarrow> string \<Rightarrow> headers" where
  "carrier_Set c key v = c(key \<mapsto> [v])"

definition carrier_Keys :: "headers \<Rightarrow> string set" where
  "carrier_Keys c = dom c"

text \<open>The propagator (a list of the fields it writes) puts its fields into the headers.\<close>

definition InjectTrace :: "(string \<times> string) list \<Rightarrow> headers \<Rightarrow> headers" where
  "InjectTrace kvs c = fold (\<lambda>(k, v) c. carrier_Set c k v) kvs c"

definition ExtractTrace :: "string list \<Rightarrow> headers \<Rightarrow> string list" where
  "ExtractTrace names c = map (carrier_Get c) names"

lemma carrier_Get_Set: "carrier_Get (carrier_Set c k v) k' = (if k' = k then v else carrier_Get c k')"
  by (simp add: carrier_Get_def carrier_Set_def)

lemma carrier_Get_Inject:
  "distinct (map fst kvs) \<Longrightarrow> carrier_Get (InjectTrace kvs c) k =
     (case map_of kvs k of Some v \<Rightarrow> v | None \<Rightarrow> carrier_Get c k)"
proof (induction kvs arbitrary: c)
  case (Cons kv kvs)
  have step: "InjectTrace (kv # kvs) c = InjectTrace kvs (carrier_Set c (fst kv) (snd kv))"
    by (simp add: InjectTrace_def case_prod_beta)
  have "map_of kvs (fst kv) = None"
    using Cons.prems by (simp add: map_of_eq_None_iff)
  then show ?case
    using Cons step by (cases kv) (auto simp: carrier_Get_Set split: option.splits)
qed (simp add: InjectTrace_def)

text \<open>
  A trace that the publisher injects into a message's headers is what the worker
  extracts: reading the propagator's fields back gives the values written, whatever was in
  the headers before.
\<close>

theorem trace_roundtrip:
  assumes "distinct (map fst kvs)"
  shows "ExtractTrace (map fst kvs) (InjectTrace kvs c) = map snd kvs"
proof -
  have "carrier_Get (InjectTrace kvs c) k = v" if "(k, v) \<in> set kvs" for k v
    using that assms by (simp add: carrier_Get_Inject)
  then show ?thesis by (auto simp: ExtractTrace_def)
qed

theorem trace_roundtrip_witness:
  "ExtractTrace [''traceparent'', ''baggage''] (InjectTrace [(''traceparent'', ''00-ab''), (''baggage'', '''')] Map.empty)
     = [''00-ab'', '''']"
  using trace_roundtrip [of "[(''traceparent'', ''00-ab''), (''baggage'', '''')]" Map.empty] by simp

end
