(* ===== verification/Pool.thy ===== *)
theory Pool
  imports Broker "HOL-Library.Multiset"
begin

text \<open>
  The worker pool of \<open>internal/worker/pool.go\<close> as a state machine: the dispatcher, a fixed
  number of workers and the goroutine that runs \<open>Run\<close>, stepping in any order. A worker's
  processing of a delivery is one step that settles it (\<open>Calls\<close> shows that it always does).
\<close>

section \<open>Construction\<close>

record options =
  opt_Concurrency :: int
  opt_JobTimeout :: duration
  opt_ShutdownTimeout :: duration

record pool =
  pool_concurrency :: int
  pool_jobTimeout :: duration
  pool_shutdownTimeout :: duration

definition NewPool :: "options \<Rightarrow> pool" where
  "NewPool opts = \<lparr>pool_concurrency = (if opt_Concurrency opts < 1 then 1 else opt_Concurrency opts),
     pool_jobTimeout = opt_JobTimeout opts, pool_shutdownTimeout = opt_ShutdownTimeout opts\<rparr>"

section \<open>The goroutines\<close>

datatype 'd dispatcher = Pulling | Holding 'd | Dispatched

datatype 'd worker = Idle | Busy 'd | Exited

datatype runner =
    AwaitSignal
  | AwaitDispatcher
  | AwaitWorkers
  | AwaitCancelled
  | Finished

text \<open>
  \<open>ps_pulled\<close> and \<open>ps_settled\<close> record the deliveries received and how each was settled;
  \<open>ps_closed\<close> is the closed channel, \<open>ps_cancelled\<close> the cancelled processing context.
\<close>

record 'd pool_state =
  ps_signal :: bool
  ps_stopped :: bool
  ps_dispatcher :: "'d dispatcher"
  ps_workers :: "'d worker list"
  ps_closed :: bool
  ps_cancelled :: bool
  ps_runner :: runner
  ps_pulled :: "'d list"
  ps_settled :: "('d \<times> settlement) list"

definition pool_started :: "pool \<Rightarrow> 'd pool_state" where
  "pool_started p = \<lparr>ps_signal = False, ps_stopped = False, ps_dispatcher = Pulling,
     ps_workers = replicate (nat (pool_concurrency p)) Idle, ps_closed = False, ps_cancelled = False,
     ps_runner = AwaitSignal, ps_pulled = [], ps_settled = []\<rparr>"

text \<open>\<open>Run\<close> starts the consumer first and gives up when that fails.\<close>

definition pool_Run :: "pool \<Rightarrow> consumer \<Rightarrow> err option \<Rightarrow> (err + 'd pool_state) \<times> consumer" where
  "pool_Run p c start_result =
     (case consumer_Start c (pool_concurrency p) start_result of
        (Some e, c') \<Rightarrow> (Inl e, c')
      | (None, c') \<Rightarrow> (Inr (pool_started p), c'))"

datatype 'd label =
    Signal
  | Pull 'd
  | NextFails
  | HandOff nat
  | ForcedNak
  | Settle nat settlement
  | WorkerExits nat
  | StopConsumer
  | CloseWork
  | Drained
  | TimesOut
  | ForcedDrained

text \<open>
  One step. The dispatcher's \<open>Next\<close> may deliver or fail at any time; a worker takes from
  the unbuffered channel only when it is idle; the select of the dispatcher and the waits of
  \<open>Run\<close> are the guards.
\<close>

inductive pool_step :: "'d pool_state \<Rightarrow> 'd label \<Rightarrow> 'd pool_state \<Rightarrow> bool" where
  signal: "\<not> ps_signal s \<Longrightarrow> pool_step s Signal (s\<lparr>ps_signal := True\<rparr>)"
| pull: "ps_dispatcher s = Pulling \<Longrightarrow>
    pool_step s (Pull d) (s\<lparr>ps_dispatcher := Holding d, ps_pulled := ps_pulled s @ [d]\<rparr>)"
| next_fails: "ps_dispatcher s = Pulling \<Longrightarrow> pool_step s NextFails (s\<lparr>ps_dispatcher := Dispatched\<rparr>)"
| hand_off: "ps_dispatcher s = Holding d \<Longrightarrow> i < length (ps_workers s) \<Longrightarrow> ps_workers s ! i = Idle \<Longrightarrow>
    \<not> ps_closed s \<Longrightarrow>
    pool_step s (HandOff i) (s\<lparr>ps_dispatcher := Pulling, ps_workers := (ps_workers s)[i := Busy d]\<rparr>)"
| forced_nak: "ps_dispatcher s = Holding d \<Longrightarrow> ps_cancelled s \<Longrightarrow>
    pool_step s ForcedNak (s\<lparr>ps_dispatcher := Dispatched, ps_settled := ps_settled s @ [(d, Nak 0)]\<rparr>)"
| settles: "i < length (ps_workers s) \<Longrightarrow> ps_workers s ! i = Busy d \<Longrightarrow>
    pool_step s (Settle i r) (s\<lparr>ps_workers := (ps_workers s)[i := Idle], ps_settled := ps_settled s @ [(d, r)]\<rparr>)"
| worker_exits: "i < length (ps_workers s) \<Longrightarrow> ps_workers s ! i = Idle \<Longrightarrow> ps_closed s \<Longrightarrow>
    pool_step s (WorkerExits i) (s\<lparr>ps_workers := (ps_workers s)[i := Exited]\<rparr>)"
| stop_consumer: "ps_runner s = AwaitSignal \<Longrightarrow> ps_signal s \<Longrightarrow>
    pool_step s StopConsumer (s\<lparr>ps_stopped := True, ps_runner := AwaitDispatcher\<rparr>)"
| close_work: "ps_runner s = AwaitDispatcher \<Longrightarrow> ps_dispatcher s = Dispatched \<Longrightarrow>
    pool_step s CloseWork (s\<lparr>ps_closed := True, ps_runner := AwaitWorkers\<rparr>)"
| drained: "ps_runner s = AwaitWorkers \<Longrightarrow> list_all (\<lambda>x. x = Exited) (ps_workers s) \<Longrightarrow>
    pool_step s Drained (s\<lparr>ps_runner := Finished\<rparr>)"
| times_out: "ps_runner s = AwaitWorkers \<Longrightarrow>
    pool_step s TimesOut (s\<lparr>ps_cancelled := True, ps_runner := AwaitCancelled\<rparr>)"
| forced_drained: "ps_runner s = AwaitCancelled \<Longrightarrow> list_all (\<lambda>x. x = Exited) (ps_workers s) \<Longrightarrow>
    pool_step s ForcedDrained (s\<lparr>ps_runner := Finished\<rparr>)"

inductive_cases pool_stepE: "pool_step s l s'"

inductive pool_reach :: "pool \<Rightarrow> 'd pool_state \<Rightarrow> bool" for p where
  pool_init: "pool_reach p (pool_started p)"
| pool_next: "pool_reach p s \<Longrightarrow> pool_step s l s' \<Longrightarrow> pool_reach p s'"

section \<open>Invariants\<close>

fun held_by_dispatcher :: "'d dispatcher \<Rightarrow> 'd multiset" where
  "held_by_dispatcher (Holding d) = {#d#}"
| "held_by_dispatcher _ = {#}"

fun held_by_worker :: "'d worker \<Rightarrow> 'd multiset" where
  "held_by_worker (Busy d) = {#d#}"
| "held_by_worker _ = {#}"

definition in_flight :: "'d pool_state \<Rightarrow> 'd multiset" where
  "in_flight s = held_by_dispatcher (ps_dispatcher s) + sum_list (map held_by_worker (ps_workers s))"

definition accounted :: "'d pool_state \<Rightarrow> bool" where
  "accounted s \<longleftrightarrow> mset (ps_pulled s) = in_flight s + mset (map fst (ps_settled s))"

text \<open>What the runner's position says about the channel, the context and the dispatcher.\<close>

definition phases_ok :: "'d pool_state \<Rightarrow> bool" where
  "phases_ok s \<longleftrightarrow>
     ps_closed s = (ps_runner s \<in> {AwaitWorkers, AwaitCancelled, Finished}) \<and>
     (ps_closed s \<longrightarrow> ps_dispatcher s = Dispatched) \<and>
     (ps_cancelled s \<longrightarrow> ps_runner s \<in> {AwaitCancelled, Finished}) \<and>
     ps_stopped s = (ps_runner s \<noteq> AwaitSignal) \<and>
     (ps_stopped s \<longrightarrow> ps_signal s) \<and>
     (ps_runner s = Finished \<longrightarrow> list_all (\<lambda>x. x = Exited) (ps_workers s)) \<and>
     (Exited \<in> set (ps_workers s) \<longrightarrow> ps_closed s)"

lemma sum_list_update_worker:
  assumes "i < length ws"
  shows "sum_list (map held_by_worker (ws[i := x])) + held_by_worker (ws ! i)
    = sum_list (map held_by_worker ws) + held_by_worker x"
  using assms
proof (induction ws arbitrary: i)
  case (Cons w ws)
  then show ?case by (cases i) (auto simp: ac_simps)
qed simp

lemma accounted_step: "pool_step s l s' \<Longrightarrow> accounted s \<Longrightarrow> accounted s'"
proof (induction rule: pool_step.induct)
  case (hand_off s d i)
  then show ?case
    using sum_list_update_worker [of i "ps_workers s" "Busy d"]
    by (simp add: accounted_def in_flight_def)
next
  case (settles i s d r)
  then show ?case
    using sum_list_update_worker [of i "ps_workers s" Idle]
    by (simp add: accounted_def in_flight_def)
next
  case (worker_exits i s)
  then show ?case
    using sum_list_update_worker [of i "ps_workers s" Exited]
    by (simp add: accounted_def in_flight_def)
qed (simp_all add: accounted_def in_flight_def)

lemma Exited_update: "x \<noteq> Exited \<Longrightarrow> Exited \<in> set (ws[i := x]) \<Longrightarrow> Exited \<in> set ws"
  using set_update_subset_insert [of ws i x] by auto

lemma all_exited_update: "list_all (\<lambda>x. x = Exited) ws \<Longrightarrow> list_all (\<lambda>x. x = Exited) (ws[i := Exited])"
  by (auto simp: list_all_iff dest!: set_update_subset_insert [THEN subsetD])

lemma phases_step: "pool_step s l s' \<Longrightarrow> phases_ok s \<Longrightarrow> phases_ok s'"
proof (induction rule: pool_step.induct)
  case (hand_off s d i)
  then show ?case using Exited_update [of "Busy d" "ps_workers s" i] by (auto simp: phases_ok_def)
next
  case (settles i s d r)
  then have "\<not> list_all (\<lambda>x. x = Exited) (ps_workers s)" by (auto simp: list_all_length)
  with settles show ?case using Exited_update [of Idle "ps_workers s" i] by (simp add: phases_ok_def) blast
next
  case (worker_exits i s)
  then show ?case using all_exited_update [of "ps_workers s" i] by (simp add: phases_ok_def)
qed (auto simp: phases_ok_def)

lemma workers_step: "pool_step s l s' \<Longrightarrow> length (ps_workers s') = length (ps_workers s)"
  by (erule pool_step.cases) simp_all

lemma pool_invariants:
  assumes "pool_reach p s"
  shows "accounted s \<and> phases_ok s \<and> length (ps_workers s) = nat (pool_concurrency p)"
  using assms
proof (induction rule: pool_reach.induct)
  case pool_init
  have "sum_list (map held_by_worker (replicate n Idle)) = {#}" for n
    by (induction n) simp_all
  then show ?case
    by (auto simp: pool_started_def accounted_def in_flight_def phases_ok_def)
next
  case (pool_next s l s')
  then show ?case
    using accounted_step phases_step workers_step by metis
qed

lemma size_in_flight: "size (in_flight s) \<le> length (ps_workers s) + 1"
proof -
  have one: "size (held_by_worker x) \<le> 1" for x :: "'a worker" by (cases x) auto
  have "size (sum_list (map held_by_worker ws)) \<le> length ws" for ws :: "'a worker list"
  proof (induction ws)
    case (Cons w ws)
    then show ?case using one [of w] by simp
  qed simp
  moreover have "size (held_by_dispatcher x) \<le> 1" for x :: "'a dispatcher" by (cases x) auto
  ultimately show ?thesis unfolding in_flight_def size_union by (metis add.commute add_mono)
qed

lemma idle_in_flight:
  "list_all (\<lambda>x. x = Exited) (ps_workers s) \<Longrightarrow> ps_dispatcher s = Dispatched \<Longrightarrow> in_flight s = {#}"
proof -
  have "list_all (\<lambda>x. x = Exited) ws \<Longrightarrow> sum_list (map held_by_worker ws) = {#}" for ws :: "'a worker list"
    by (induction ws) simp_all
  then show "list_all (\<lambda>x. x = Exited) (ps_workers s) \<Longrightarrow> ps_dispatcher s = Dispatched \<Longrightarrow> in_flight s = {#}"
    by (simp add: in_flight_def)
qed

lemma finished_settled:
  assumes "pool_reach p s" and "ps_runner s = Finished"
  shows "in_flight s = {#} \<and> list_all (\<lambda>x. x = Exited) (ps_workers s) \<and> mset (ps_pulled s) = mset (map fst (ps_settled s))"
  using pool_invariants [OF assms(1)] idle_in_flight [of s] assms(2) by (simp add: phases_ok_def accounted_def)

text \<open>
  C18. The pool neither loses nor settles a delivery twice. At any moment the deliveries
  received are exactly those in flight and those settled, each once; at most one per worker
  and one more are in flight; when \<open>Run\<close> returns every worker has exited and nothing is in
  flight. The dispatcher's branch for a forced drain, which would return a message, is never
  taken: the processing context is cancelled only after the dispatcher is done.
\<close>

theorem pool_conservation:
  assumes "pool_reach p s"
  shows "mset (ps_pulled s) = in_flight s + mset (map fst (ps_settled s))
    \<and> size (in_flight s) \<le> nat (pool_concurrency p) + 1
    \<and> \<not> (\<exists>s'. pool_step s ForcedNak s')
    \<and> (ps_runner s = Finished \<longrightarrow> in_flight s = {#} \<and> list_all (\<lambda>x. x = Exited) (ps_workers s))"
proof -
  have inv: "accounted s" "phases_ok s" "length (ps_workers s) = nat (pool_concurrency p)"
    using pool_invariants [OF assms] by simp_all
  have "\<not> (\<exists>s'. pool_step s ForcedNak s')"
    using inv(2) by (auto simp: phases_ok_def elim!: pool_stepE)
  then show ?thesis
    using inv size_in_flight [of s] finished_settled [OF assms] by (auto simp: accounted_def)
qed

section \<open>Draining\<close>

fun dispatcher_rank :: "'d dispatcher \<Rightarrow> nat" where
  "dispatcher_rank (Holding d) = 3"
| "dispatcher_rank Pulling = 1"
| "dispatcher_rank Dispatched = 0"

fun worker_rank :: "'d worker \<Rightarrow> nat" where
  "worker_rank (Busy d) = 2"
| "worker_rank Idle = 1"
| "worker_rank Exited = 0"

fun runner_rank :: "runner \<Rightarrow> nat" where
  "runner_rank AwaitSignal = 4"
| "runner_rank AwaitDispatcher = 3"
| "runner_rank AwaitWorkers = 2"
| "runner_rank AwaitCancelled = 1"
| "runner_rank Finished = 0"

definition drain_measure :: "'d pool_state \<Rightarrow> nat" where
  "drain_measure s = dispatcher_rank (ps_dispatcher s) + sum_list (map worker_rank (ps_workers s))
     + runner_rank (ps_runner s) + (if ps_signal s then 0 else 1)"

text \<open>A step of the drain: any step but receiving another message.\<close>

definition drain_step :: "'d pool_state \<Rightarrow> 'd pool_state \<Rightarrow> bool" where
  "drain_step s s' \<longleftrightarrow> (\<exists>l. (\<forall>d. l \<noteq> Pull d) \<and> pool_step s l s')"

lemma sum_rank_update:
  "i < length ws \<Longrightarrow> sum_list (map worker_rank (ws[i := x])) + worker_rank (ws ! i)
    = sum_list (map worker_rank ws) + worker_rank x"
proof (induction ws arbitrary: i)
  case (Cons w ws)
  then show ?case by (cases i) auto
qed simp

lemma pool_step_measure: "pool_step s l s' \<Longrightarrow> (\<And>d. l \<noteq> Pull d) \<Longrightarrow> drain_measure s' < drain_measure s"
proof (induction rule: pool_step.induct)
  case (hand_off s d i)
  then show ?case using sum_rank_update [of i "ps_workers s" "Busy d"] by (simp add: drain_measure_def)
next
  case (settles i s d r)
  then show ?case using sum_rank_update [of i "ps_workers s" Idle] by (simp add: drain_measure_def)
next
  case (worker_exits i s)
  then show ?case using sum_rank_update [of i "ps_workers s" Exited] by (simp add: drain_measure_def)
next
  case (pull s d)
  then show ?case by blast
qed (simp_all add: drain_measure_def)

lemma drain_step_measure: "drain_step s s' \<Longrightarrow> drain_measure s' < drain_measure s"
  unfolding drain_step_def using pool_step_measure by blast

text \<open>Some worker that has not exited can move, or all have exited.\<close>

lemma worker_moves:
  assumes "\<not> list_all (\<lambda>x. x = Exited) (ps_workers s)" and "ps_closed s"
  shows "\<exists>s'. drain_step s s'"
proof -
  obtain i where i: "i < length (ps_workers s)" "ps_workers s ! i \<noteq> Exited"
    using assms(1) by (auto simp: list_all_length)
  show ?thesis
  proof (cases "ps_workers s ! i")
    case Idle
    then show ?thesis unfolding drain_step_def using worker_exits [OF i(1) Idle assms(2)] by blast
  next
    case (Busy d)
    then show ?thesis unfolding drain_step_def using settles [OF i(1) Busy] by blast
  qed (use i in simp)
qed

lemma dispatcher_moves:
  assumes "phases_ok s" and "ps_runner s = AwaitDispatcher" and "ps_workers s \<noteq> []"
  shows "\<exists>s'. drain_step s s'"
proof (cases "ps_dispatcher s")
  case Pulling
  then show ?thesis unfolding drain_step_def using next_fails [OF Pulling] by blast
next
  case Dispatched
  then show ?thesis unfolding drain_step_def using close_work [OF assms(2) Dispatched] by blast
next
  case (Holding d)
  have free: "\<not> ps_closed s" "Exited \<notin> set (ps_workers s)" "0 < length (ps_workers s)"
    using assms by (auto simp: phases_ok_def)
  have first: "ps_workers s ! 0 \<noteq> Exited" using free(2) nth_mem [OF free(3)] by metis
  show ?thesis
  proof (cases "ps_workers s ! 0")
    case Idle
    then show ?thesis unfolding drain_step_def using hand_off [OF Holding free(3) Idle free(1)] by blast
  next
    case (Busy d)
    then show ?thesis unfolding drain_step_def using settles [OF free(3) Busy] by blast
  qed (use first in simp)
qed

lemma drain_progress:
  assumes "phases_ok s" and "ps_workers s \<noteq> []" and "ps_signal s" and "ps_runner s \<noteq> Finished"
  shows "\<exists>s'. drain_step s s'"
proof (cases "ps_runner s")
  case AwaitSignal
  then show ?thesis unfolding drain_step_def using stop_consumer [OF AwaitSignal assms(3)] by blast
next
  case AwaitDispatcher
  then show ?thesis using dispatcher_moves assms by blast
next
  case AwaitWorkers
  then show ?thesis unfolding drain_step_def using times_out [OF AwaitWorkers] by blast
next
  case AwaitCancelled
  show ?thesis
  proof (cases "list_all (\<lambda>x. x = Exited) (ps_workers s)")
    case True
    then show ?thesis unfolding drain_step_def using forced_drained [OF AwaitCancelled] by blast
  next
    case False
    moreover have "ps_closed s" using assms(1) AwaitCancelled by (simp add: phases_ok_def)
    ultimately show ?thesis by (rule worker_moves)
  qed
qed (use assms in simp)

lemma pool_step_signal: "pool_step s l s' \<Longrightarrow> ps_signal s \<Longrightarrow> ps_signal s'"
  by (erule pool_step.cases) simp_all

lemma drain_keeps:
  "drain_step s s' \<Longrightarrow> phases_ok s \<and> ps_workers s \<noteq> [] \<and> ps_signal s \<Longrightarrow>
     phases_ok s' \<and> ps_workers s' \<noteq> [] \<and> ps_signal s'"
  unfolding drain_step_def
  by (metis length_0_conv phases_step pool_step_signal workers_step)

lemma drain_reach: "drain_step\<^sup>*\<^sup>* s s' \<Longrightarrow> pool_reach p s \<Longrightarrow> pool_reach p s'"
  by (induction rule: rtranclp_induct) (auto simp: drain_step_def intro: pool_next)

text \<open>The pool winds down once the signal came.\<close>

definition shutting_down :: "'d pool_state \<Rightarrow> bool" where
  "shutting_down s \<longleftrightarrow> phases_ok s \<and> ps_workers s \<noteq> [] \<and> ps_signal s"

interpretation shutdown: draining drain_step drain_measure shutting_down "\<lambda>s. ps_runner s = Finished"
  by unfold_locales (use drain_step_measure drain_keeps drain_progress in \<open>auto simp: shutting_down_def\<close>)

text \<open>
  After a shutdown signal the pool drains. With at least one worker, which
  \<open>NewPool\<close> makes sure of, \<open>Run\<close> can always finish; every way of going on without receiving
  another message has boundedly many steps and can only stop when \<open>Run\<close> has returned; and
  then every delivery received has been settled.
\<close>

theorem pool_drains:
  assumes "pool_reach (NewPool opts) s" and "ps_signal s"
  shows "(\<exists>s'. drain_step\<^sup>*\<^sup>* s s' \<and> ps_runner s' = Finished)
    \<and> (\<forall>n s'. (drain_step ^^ n) s s' \<longrightarrow> n \<le> drain_measure s)
    \<and> (\<forall>s'. drain_step\<^sup>*\<^sup>* s s' \<longrightarrow> (\<nexists>s''. drain_step s' s'') \<longrightarrow>
         ps_runner s' = Finished \<and> mset (ps_pulled s') = mset (map fst (ps_settled s')))"
proof -
  have ok: "shutting_down s"
    using pool_invariants [OF assms(1)] assms(2) by (auto simp: shutting_down_def NewPool_def split: if_splits)
  have "ps_runner s' = Finished \<and> mset (ps_pulled s') = mset (map fst (ps_settled s'))"
    if run: "drain_step\<^sup>*\<^sup>* s s'" and stuck: "\<nexists>s''. drain_step s' s''" for s'
  proof -
    have fin: "ps_runner s' = Finished" by (rule shutdown.stuck_ended [OF run ok stuck])
    then show ?thesis
      using finished_settled [OF drain_reach [OF run assms(1)] fin] by simp
  qed
  moreover have "n \<le> drain_measure s" if "(drain_step ^^ n) s s'" for n s'
    using shutdown.steps_bounded [OF that ok] by simp
  ultimately show ?thesis using shutdown.reaches_end [OF ok] by blast
qed

section \<open>A pool at work\<close>

text \<open>
  A pool asked for no worker has one. It received message 7, handed it over, received
  message 8 and was told to stop.
\<close>

definition demo_pool :: pool where
  "demo_pool = NewPool \<lparr>opt_Concurrency = 0, opt_JobTimeout = Minute, opt_ShutdownTimeout = Minute\<rparr>"

definition full_pool :: "nat pool_state" where
  "full_pool = \<lparr>ps_signal = True, ps_stopped = True, ps_dispatcher = Holding 8, ps_workers = [Busy 7],
     ps_closed = False, ps_cancelled = False, ps_runner = AwaitDispatcher, ps_pulled = [7, 8], ps_settled = []\<rparr>"

lemma reach_full_pool: "pool_reach demo_pool full_pool"
proof -
  let ?s0 = "pool_started demo_pool :: nat pool_state"
  have s0: "?s0 = \<lparr>ps_signal = False, ps_stopped = False, ps_dispatcher = Pulling, ps_workers = [Idle],
      ps_closed = False, ps_cancelled = False, ps_runner = AwaitSignal, ps_pulled = [], ps_settled = []\<rparr>"
    by (simp add: pool_started_def demo_pool_def NewPool_def)
  have "pool_reach demo_pool ?s0" by (rule pool_init)
  note r1 = pool_next [OF this pull [of ?s0 7]]
  note r2 = pool_next [OF r1 hand_off [of _ 7 0]]
  note r3 = pool_next [OF r2 pull [of _ 8]]
  note r4 = pool_next [OF r3 signal]
  note r5 = pool_next [OF r4 stop_consumer]
  from r5 show ?thesis by (simp add: s0 full_pool_def)
qed

theorem pool_conservation_witness:
  "mset [7, 8] = in_flight full_pool \<and> \<not> (\<exists>s'. pool_step full_pool ForcedNak s')"
  using pool_conservation [OF reach_full_pool] by (simp add: full_pool_def)

theorem pool_drains_witness:
  "\<exists>s'. drain_step\<^sup>*\<^sup>* full_pool s' \<and> ps_runner s' = Finished"
  using pool_drains [OF reach_full_pool [unfolded demo_pool_def]] by (simp add: full_pool_def)

text \<open>
  In this state the shutdown timeout is not running yet: \<open>Run\<close> still waits for the
  dispatcher, which waits for a worker, so nothing but a worker that finishes helps.
\<close>

lemma shutdown_waits_for_worker: "pool_step full_pool l s' \<Longrightarrow> \<exists>r. l = Settle 0 r"
  by (erule pool_stepE) (simp_all add: full_pool_def)

text \<open>
  An error from \<open>Next\<close> ends the dispatcher for good, whether or not a shutdown was asked
  for: no message is ever received again, and \<open>Run\<close> goes on waiting for its signal.
\<close>

lemma dispatcher_stays_done:
  "pool_step s l s' \<Longrightarrow> ps_dispatcher s = Dispatched \<Longrightarrow> ps_dispatcher s' = Dispatched \<and> ps_pulled s' = ps_pulled s"
  by (erule pool_stepE) simp_all

lemma next_error_silences_pool:
  "pool_step (pool_started p) NextFails ((pool_started p)\<lparr>ps_dispatcher := Dispatched\<rparr>)
   \<and> ps_runner ((pool_started p)\<lparr>ps_dispatcher := Dispatched\<rparr>) = AwaitSignal
   \<and> ((\<lambda>s s'. \<exists>l. pool_step s l s')\<^sup>*\<^sup>* ((pool_started p)\<lparr>ps_dispatcher := Dispatched\<rparr>) s \<longrightarrow> ps_pulled s = [])"
proof -
  have "ps_dispatcher s = Dispatched \<and> ps_pulled s = []"
    if "(\<lambda>s s'. \<exists>l. pool_step s l s')\<^sup>*\<^sup>* ((pool_started p)\<lparr>ps_dispatcher := Dispatched\<rparr>) s"
    using that
  proof (induction rule: rtranclp_induct)
    case base
    show ?case by (simp add: pool_started_def)
  next
    case (step s s')
    then show ?case using dispatcher_stays_done by metis
  qed
  then show ?thesis using next_fails [of "pool_started p"] by (auto simp: pool_started_def)
qed

end
