(* ===== verification/WorkerProcess.thy ===== *)
theory WorkerProcess
  imports Liveness Pool
begin

text \<open>
  A whole worker process inside the running system: the pool of \<open>internal/worker/pool.go\<close>
  whose workers run \<open>process\<close> call by call, beside everything else that uses the database,
  the object store and the queue. \<open>Pool\<close> takes the processing of a delivery as one step and
  \<open>Concurrency\<close> takes deliveries as goroutines of their own; here the two are one machine,
  which is shown to implement both, and to drain.
\<close>

section \<open>The process\<close>

text \<open>
  A delivery is its payload. \<open>wp_threads\<close> gives the goroutine in which a worker processes
  its delivery, \<open>wp_finished\<close> the goroutines of the settled deliveries, in order.
\<close>

record worker_process =
  wp_pool :: "string pool_state"
  wp_threads :: "nat \<Rightarrow> tid option"
  wp_finished :: "tid list"
  wp_system :: system

datatype wp_label = PoolMove "string label" | WorkCall nat | Elsewhere

definition wp_started :: "pool \<Rightarrow> system \<Rightarrow> worker_process" where
  "wp_started p y = \<lparr>wp_pool = pool_started p, wp_threads = Map.empty, wp_finished = [], wp_system = y\<rparr>"

definition wp_tids :: "worker_process \<Rightarrow> tid set" where
  "wp_tids s = ran (wp_threads s) \<union> set (wp_finished s)"

text \<open>
  A worker that takes a delivery starts \<open>process\<close> on it; each of its calls is a step; it
  settles with what \<open>process\<close> returned. The rest of the pool moves as in \<open>Pool\<close>, and the
  rest of the system moves as it likes, but for the goroutines of this process.
\<close>

inductive wp_step :: "'img deployment \<Rightarrow> worker_process \<Rightarrow> wp_label \<Rightarrow> worker_process \<Rightarrow> bool" for dep where
  taken: "ps_dispatcher (wp_pool s) = Holding d \<Longrightarrow> pool_step (wp_pool s) (HandOff i) p \<Longrightarrow>
    sys_calls (wp_system s) t = None \<Longrightarrow>
    wp_step dep s (PoolMove (HandOff i)) (s\<lparr>wp_pool := p, wp_threads := (wp_threads s)(i \<mapsto> t),
      wp_system := started dep t (Deliver d) (wp_system s)\<rparr>)"
| work: "wp_threads s i = Some t \<Longrightarrow> sys_threads (wp_system s) t = Some q \<Longrightarrow> \<not> is_done q \<Longrightarrow>
    wp_step dep s (WorkCall i) (s\<lparr>wp_system := called t oc q (wp_system s)\<rparr>)"
| settled: "wp_threads s i = Some t \<Longrightarrow> sys_threads (wp_system s) t = Some (Return (DeliveryDone r)) \<Longrightarrow>
    pool_step (wp_pool s) (Settle i r) p \<Longrightarrow>
    wp_step dep s (PoolMove (Settle i r)) (s\<lparr>wp_pool := p, wp_threads := (wp_threads s)(i := None),
      wp_finished := wp_finished s @ [t]\<rparr>)"
| plain: "pool_step (wp_pool s) l p \<Longrightarrow> (\<And>i. l \<noteq> HandOff i) \<Longrightarrow> (\<And>i r. l \<noteq> Settle i r) \<Longrightarrow>
    wp_step dep s (PoolMove l) (s\<lparr>wp_pool := p\<rparr>)"
| elsewhere: "sys_step dep (wp_system s) y \<Longrightarrow>
    (\<And>t. t \<in> wp_tids s \<Longrightarrow> sys_threads y t = sys_threads (wp_system s) t) \<Longrightarrow>
    wp_step dep s Elsewhere (s\<lparr>wp_system := y\<rparr>)"

inductive_cases wp_stepE: "wp_step dep s l s'"
inductive_cases hand_offE: "pool_step s (HandOff i) s'"
inductive_cases settleE: "pool_step s (Settle i r) s'"

inductive wp_reach :: "'img deployment \<Rightarrow> pool \<Rightarrow> worker_process \<Rightarrow> bool" for dep p where
  wp_init: "reachable dep y \<Longrightarrow> wp_reach dep p (wp_started p y)"
| wp_next: "wp_reach dep p s \<Longrightarrow> wp_step dep s l s' \<Longrightarrow> wp_reach dep p s'"

section \<open>It implements the pool and the system\<close>

lemma wp_step_pool:
  "wp_step dep s l s' \<Longrightarrow> wp_pool s' = wp_pool s \<or> (\<exists>l'. l = PoolMove l' \<and> pool_step (wp_pool s) l' (wp_pool s'))"
  by (erule wp_step.cases) simp_all

lemma wp_step_system: "wp_step dep s l s' \<Longrightarrow> (sys_step dep)\<^sup>*\<^sup>* (wp_system s) (wp_system s')"
  by (erule wp_step.cases) (auto intro: sys_step.intros)

lemma wp_reach_parts: "wp_reach dep p s \<Longrightarrow> pool_reach p (wp_pool s) \<and> reachable dep (wp_system s)"
proof (induction rule: wp_reach.induct)
  case (wp_init y)
  then show ?case by (simp add: wp_started_def pool_init)
next
  case (wp_next s l s')
  then show ?case
    using wp_step_pool [OF wp_next.hyps(2)] reachable_steps [OF wp_step_system [OF wp_next.hyps(2)]]
    by (auto intro: pool_next)
qed


section \<open>The invariant\<close>

definition delivered :: "outcome prog \<Rightarrow> bool" where
  "delivered q \<longleftrightarrow> (\<exists>r. q = Return (DeliveryDone r))"

lemma delivered_simps [simp]: "delivered (Return (DeliveryDone r))" "\<not> delivered Panic"
  by (simp_all add: delivered_def)

abbreviation processing :: "nat \<Rightarrow> outcome prog \<Rightarrow> bool" where
  "processing \<equiv> takes (\<lambda>_ _. True) delivered"

lemma processing_entry: "processing 64 (entry dep (Deliver d))"
proof -
  have "takes (\<lambda>_ _. True) returned ((6 + 1) * 5 + 29) (process (worker_env dep) d)"
    by (rule takes_process, rule default_registry_takes [of _ "dep_imaging dep"]) (simp add: worker_env_def)
  from takes_bind [OF this, of delivered 0 "\<lambda>r. Return (DeliveryDone r)"] show ?thesis by simp
qed

definition running :: "worker_process \<Rightarrow> nat \<Rightarrow> tid \<Rightarrow> bool" where
  "running s i t \<longleftrightarrow> i < length (ps_workers (wp_pool s)) \<and> t \<notin> set (wp_finished s)
     \<and> (\<exists>d q. ps_workers (wp_pool s) ! i = Busy d \<and> sys_calls (wp_system s) t = Some (Deliver d)
          \<and> sys_threads (wp_system s) t = Some q \<and> processing 64 q)"

text \<open>A settled delivery and its goroutine, which returned what the delivery was settled with.\<close>

definition settled_by :: "system \<Rightarrow> string \<times> settlement \<Rightarrow> tid \<Rightarrow> bool" where
  "settled_by y = (\<lambda>(d, r) t. sys_calls y t = Some (Deliver d) \<and> sys_threads y t = Some (Return (DeliveryDone r)))"

definition one_worker :: "(nat \<Rightarrow> tid option) \<Rightarrow> bool" where
  "one_worker f \<longleftrightarrow> (\<forall>i k t. f i = Some t \<longrightarrow> f k = Some t \<longrightarrow> i = k)"

lemma one_workerD: "one_worker f \<Longrightarrow> f i = Some t \<Longrightarrow> f k = Some t \<Longrightarrow> i = k"
  unfolding one_worker_def by blast

lemma one_worker_upd: "one_worker f \<Longrightarrow> t \<notin> ran f \<Longrightarrow> one_worker (f(i \<mapsto> t))"
  unfolding one_worker_def ran_def fun_upd_apply by (metis (mono_tags, lifting) mem_Collect_eq option.inject)

lemma one_worker_None: "one_worker f \<Longrightarrow> one_worker (f(i := None))"
  unfolding one_worker_def by simp

definition wp_ok :: "worker_process \<Rightarrow> bool" where
  "wp_ok s \<longleftrightarrow> phases_ok (wp_pool s)
     \<and> (\<forall>i t. wp_threads s i = Some t \<longrightarrow> running s i t)
     \<and> one_worker (wp_threads s)
     \<and> (\<forall>i < length (ps_workers (wp_pool s)). \<forall>d. ps_workers (wp_pool s) ! i = Busy d \<longrightarrow> wp_threads s i \<noteq> None)
     \<and> distinct (wp_finished s) \<and> list_all2 (settled_by (wp_system s)) (ps_settled (wp_pool s)) (wp_finished s)"

text \<open>A move of the pool that no delivery is taken or settled by.\<close>

lemma plain_pool_step:
  assumes "pool_step s l s'" and "\<And>i. l \<noteq> HandOff i" and "\<And>i r. l \<noteq> Settle i r" and "phases_ok s"
  shows "ps_settled s' = ps_settled s \<and> length (ps_workers s') = length (ps_workers s)
    \<and> (\<forall>i < length (ps_workers s). \<forall>d. ps_workers s' ! i = Busy d \<longleftrightarrow> ps_workers s ! i = Busy d)"
  using assms(1)
proof cases
  case (forced_nak d)
  then show ?thesis using assms(4) by (auto simp: phases_ok_def)
next
  case (worker_exits i)
  then show ?thesis by (auto simp: nth_list_update)
qed (use assms(2,3) in auto)

text \<open>A step of the system that leaves some goroutines alone keeps what is known of them.\<close>

lemma sys_step_calls: "sys_step dep y y' \<Longrightarrow> sys_calls y t = Some c \<Longrightarrow> sys_calls y' t = Some c"
  by (erule sys_step.cases) auto

lemma running_kept:
  assumes "running s i t" and "wp_pool s' = wp_pool s" and "wp_finished s' = wp_finished s"
    and "sys_calls (wp_system s') t = sys_calls (wp_system s) t"
    and "sys_threads (wp_system s') t = sys_threads (wp_system s) t"
  shows "running s' i t"
  using assms by (auto simp: running_def)

lemma settled_kept:
  assumes "list_all2 (settled_by y) rs ts"
    and "\<And>t. t \<in> set ts \<Longrightarrow> sys_threads y' t = sys_threads y t"
    and "\<And>t c. t \<in> set ts \<Longrightarrow> sys_calls y t = Some c \<Longrightarrow> sys_calls y' t = Some c"
  shows "list_all2 (settled_by y') rs ts"
  using assms by (auto simp: list_all2_conv_all_nth settled_by_def)

lemma settled_calls: "list_all2 (settled_by y) rs ts \<Longrightarrow> t \<in> set ts \<Longrightarrow> \<exists>d. sys_calls y t = Some (Deliver d)"
  by (auto simp: list_all2_conv_all_nth settled_by_def in_set_conv_nth)


lemma wp_ok_running: "wp_ok s \<Longrightarrow> wp_threads s i = Some t \<Longrightarrow> running s i t"
  by (simp add: wp_ok_def)

lemma runningE:
  assumes "running s i t"
  obtains d q where "i < length (ps_workers (wp_pool s))" "t \<notin> set (wp_finished s)"
    "ps_workers (wp_pool s) ! i = Busy d" "sys_calls (wp_system s) t = Some (Deliver d)"
    "sys_threads (wp_system s) t = Some q" "processing 64 q"
  using assms by (auto simp: running_def)

lemma wp_ok_taken:
  assumes ok: "wp_ok s" and "ps_dispatcher (wp_pool s) = Holding d" and step: "pool_step (wp_pool s) (HandOff i) p"
    and new: "sys_calls (wp_system s) t = None"
  shows "wp_ok (s\<lparr>wp_pool := p, wp_threads := (wp_threads s)(i \<mapsto> t), wp_system := started dep t (Deliver d) (wp_system s)\<rparr>)"
    (is "wp_ok ?s")
proof -
  from step assms(2) have i: "i < length (ps_workers (wp_pool s))" "ps_workers (wp_pool s) ! i = Idle"
      and p: "ps_workers p = (ps_workers (wp_pool s))[i := Busy d]" "ps_settled p = ps_settled (wp_pool s)"
    by (auto elim!: hand_offE)
  have others: "t' \<noteq> t" if "wp_threads s k = Some t'" for k t'
    using wp_ok_running [OF ok that] new by (auto elim: runningE)
  have idle: "wp_threads s i = None" using wp_ok_running [OF ok, of i] i by (cases "wp_threads s i") (auto elim: runningE)
  have gone: "t \<notin> set (wp_finished s)" using ok new settled_calls by (fastforce simp: wp_ok_def)
  have "running ?s k t'" if "wp_threads ?s k = Some t'" for k t'
  proof (cases "k = i")
    case True
    then show ?thesis using that i gone processing_entry [of dep d] p by (auto simp: running_def)
  next
    case False
    then have k: "wp_threads s k = Some t'" using that by simp
    then have "running s k t'" using ok by (simp add: wp_ok_def)
    then show ?thesis using others [OF k] False p by (auto simp: running_def)
  qed
  moreover have "one_worker ((wp_threads s)(i \<mapsto> t))"
    by (rule one_worker_upd) (use ok others in \<open>auto simp: wp_ok_def ran_def\<close>)
  moreover have "wp_threads ?s k \<noteq> None" if "k < length (ps_workers p)" "ps_workers p ! k = Busy e" for k e
    using that ok p by (cases "k = i") (auto simp: wp_ok_def)
  moreover have "list_all2 (settled_by (wp_system ?s)) (ps_settled p) (wp_finished s)"
    unfolding p(2) by (rule settled_kept [of "wp_system s"]) (use ok gone in \<open>auto simp: wp_ok_def\<close>)
  ultimately show ?thesis using ok phases_step [OF step] by (simp add: wp_ok_def)
qed

lemma wp_ok_settled:
  assumes ok: "wp_ok s" and thread: "wp_threads s i = Some t"
    and res: "sys_threads (wp_system s) t = Some (Return (DeliveryDone r))" and step: "pool_step (wp_pool s) (Settle i r) p"
  shows "wp_ok (s\<lparr>wp_pool := p, wp_threads := (wp_threads s)(i := None), wp_finished := wp_finished s @ [t]\<rparr>)"
    (is "wp_ok ?s")
proof -
  have run: "running s i t" using ok thread by (simp add: wp_ok_def)
  then obtain d where d: "ps_workers (wp_pool s) ! i = Busy d" "sys_calls (wp_system s) t = Some (Deliver d)"
    by (auto simp: running_def)
  with step have i: "i < length (ps_workers (wp_pool s))"
      and p: "ps_workers p = (ps_workers (wp_pool s))[i := Idle]" "ps_settled p = ps_settled (wp_pool s) @ [(d, r)]"
    by (auto elim!: settleE)
  have others: "t' \<noteq> t" if "wp_threads s k = Some t'" "k \<noteq> i" for k t'
    using ok that thread one_workerD [of "wp_threads s" k t i] unfolding wp_ok_def by blast
  have "running ?s k t'" if "wp_threads ?s k = Some t'" for k t'
  proof -
    have k: "wp_threads s k = Some t'" "k \<noteq> i" using that by (auto split: if_splits)
    then have "running s k t'" using ok by (simp add: wp_ok_def)
    then show ?thesis using others [OF k] k(2) p by (auto simp: running_def)
  qed
  moreover have "one_worker ((wp_threads s)(i := None))"
    using ok by (simp add: wp_ok_def one_worker_None)
  moreover have "wp_threads ?s k \<noteq> None" if "k < length (ps_workers p)" "ps_workers p ! k = Busy e" for k e
    using that ok p i by (cases "k = i") (auto simp: wp_ok_def)
  moreover have "list_all2 (settled_by (wp_system ?s)) (ps_settled p) (wp_finished ?s)" "distinct (wp_finished ?s)"
    using ok run d res p by (simp_all add: wp_ok_def list_all2_appendI settled_by_def running_def)
  ultimately show ?thesis using ok phases_step [OF step] by (simp add: wp_ok_def)
qed

lemma wp_ok_system:
  assumes ok: "wp_ok s"
    and kept: "\<And>t. t \<in> set (wp_finished s) \<Longrightarrow> sys_threads y t = sys_threads (wp_system s) t"
    and calls: "\<And>t c. sys_calls (wp_system s) t = Some c \<Longrightarrow> sys_calls y t = Some c"
    and run: "\<And>i t q. wp_threads s i = Some t \<Longrightarrow> sys_threads (wp_system s) t = Some q \<Longrightarrow> processing 64 q
      \<Longrightarrow> \<exists>q. sys_threads y t = Some q \<and> processing 64 q"
  shows "wp_ok (s\<lparr>wp_system := y\<rparr>)"
proof -
  have "running (s\<lparr>wp_system := y\<rparr>) i t" if t: "wp_threads s i = Some t" for i t
  proof -
    obtain d q where "i < length (ps_workers (wp_pool s))" "t \<notin> set (wp_finished s)"
        "ps_workers (wp_pool s) ! i = Busy d" "sys_calls (wp_system s) t = Some (Deliver d)"
        "sys_threads (wp_system s) t = Some q" "processing 64 q"
      using wp_ok_running [OF ok t] by (rule runningE)
    with run [OF t this(5,6)] calls [OF this(4)] show ?thesis by (auto simp: running_def)
  qed
  moreover have "list_all2 (settled_by y) (ps_settled (wp_pool s)) (wp_finished s)"
    by (rule settled_kept [of "wp_system s"]) (use ok kept calls in \<open>auto simp: wp_ok_def\<close>)
  ultimately show ?thesis using ok by (simp add: wp_ok_def)
qed

lemma processing_done: "processing n q \<Longrightarrow> is_done q \<Longrightarrow> \<exists>r. q = Return (DeliveryDone r)"
  by (erule takes.cases) (auto simp: delivered_def)

lemma processing_step:
  "processing n q \<Longrightarrow> \<not> is_done q \<Longrightarrow> \<exists>m. n = Suc m \<and> processing m (fst (step_prog oc q w))"
  by (erule takes.cases) auto

lemma processing_kept: "processing n q \<Longrightarrow> \<not> is_done q \<Longrightarrow> processing n (fst (step_prog oc q w))"
  using processing_step [of n q oc w] by (auto intro: takes_mono)


lemma wp_ok_step:
  assumes "wp_step dep s l s'" and ok: "wp_ok s"
  shows "wp_ok s'"
  using assms(1)
proof cases
  case (taken d i p t)
  show ?thesis unfolding taken(2) by (rule wp_ok_taken [OF ok taken(3-5)])
next
  case (work i t q oc)
  have others: "t' \<noteq> t" if "wp_threads s k = Some t'" "k \<noteq> i" for k t'
    using ok that work(3) one_workerD [of "wp_threads s" k t i] unfolding wp_ok_def by blast
  have "t \<notin> set (wp_finished s)" using wp_ok_running [OF ok work(3)] by (simp add: running_def)
  then show ?thesis
    unfolding work(2)
  proof (intro wp_ok_system [OF ok])
    fix k t' q'
    assume k: "wp_threads s k = Some t'" "sys_threads (wp_system s) t' = Some q'" "processing 64 q'"
    show "\<exists>q'. sys_threads (called t oc q (wp_system s)) t' = Some q' \<and> processing 64 q'"
    proof (cases "k = i")
      case True
      then have "t' = t" "q' = q" using k work(3,4) by simp_all
      then show ?thesis using processing_kept [OF k(3), of oc "sys_world (wp_system s)"] work(5) by auto
    next
      case False
      then show ?thesis using k others [OF k(1)] by auto
    qed
  qed auto
next
  case (settled i t r p)
  show ?thesis unfolding settled(2) by (rule wp_ok_settled [OF ok settled(3-5)])
next
  case (plain l p)
  then have p: "ps_settled p = ps_settled (wp_pool s)" "length (ps_workers p) = length (ps_workers (wp_pool s))"
      "\<And>i d. i < length (ps_workers (wp_pool s)) \<Longrightarrow> ps_workers p ! i = Busy d \<longleftrightarrow> ps_workers (wp_pool s) ! i = Busy d"
    using plain_pool_step [of "wp_pool s" l p] ok by (auto simp: wp_ok_def)
  have "running (s\<lparr>wp_pool := p\<rparr>) i t" if "wp_threads s i = Some t" for i t
    using wp_ok_running [OF ok that] p by (auto simp: running_def)
  then show ?thesis using ok p phases_step [OF plain(3)] unfolding plain(2) wp_ok_def by simp
next
  case (elsewhere y)
  show ?thesis
    unfolding elsewhere(2)
  proof (rule wp_ok_system [OF ok])
    show "\<exists>q. sys_threads y t = Some q \<and> processing 64 q"
      if "wp_threads s i = Some t" "sys_threads (wp_system s) t = Some q" "processing 64 q" for i t q
      using that elsewhere(4) [of t] by (auto simp: wp_tids_def intro: ranI)
  qed (use elsewhere(3,4) sys_step_calls in \<open>auto simp: wp_tids_def\<close>)
qed


lemma wp_reach_ok: "wp_reach dep p s \<Longrightarrow> wp_ok s"
proof (induction rule: wp_reach.induct)
  case (wp_init y)
  have "phases_ok (pool_started p :: string pool_state)" using pool_invariants [OF pool_init] by blast
  then show ?case by (auto simp: wp_ok_def wp_started_def one_worker_def pool_started_def)
qed (rule wp_ok_step)


section \<open>Draining\<close>

text \<open>The calls a goroutine still has to make at most.\<close>

definition calls_left :: "outcome prog \<Rightarrow> nat" where
  "calls_left q = (LEAST n. processing n q)"

lemma calls_left_le: "processing n q \<Longrightarrow> calls_left q \<le> n"
  unfolding calls_left_def by (rule Least_le)

lemma calls_left_step:
  assumes "processing n q" and "\<not> is_done q"
  shows "calls_left (fst (step_prog oc q w)) < calls_left q"
proof -
  have "processing (calls_left q) q" unfolding calls_left_def by (rule LeastI [of _ n]) (rule assms(1))
  from processing_step [OF this assms(2)] show ?thesis using calls_left_le by (metis le_imp_less_Suc)
qed

definition thread_left :: "worker_process \<Rightarrow> nat \<Rightarrow> nat" where
  "thread_left s i = (case wp_threads s i of None \<Rightarrow> 0 | Some t \<Rightarrow>
     (case sys_threads (wp_system s) t of None \<Rightarrow> 0 | Some q \<Rightarrow> calls_left q))"

definition wp_rank :: "worker_process \<Rightarrow> nat" where
  "wp_rank s = 65 * drain_measure (wp_pool s) + (\<Sum>i < length (ps_workers (wp_pool s)). thread_left s i)"

lemma sum_bump:
  fixes f g :: "nat \<Rightarrow> nat"
  assumes "\<And>j. j < n \<Longrightarrow> j \<noteq> i \<Longrightarrow> f j = g j" and "f i \<le> g i + k"
  shows "(\<Sum>j < n. f j) \<le> (\<Sum>j < n. g j) + k"
proof (cases "i < n")
  case True
  have "sum f ({..<n} - {i}) = sum g ({..<n} - {i})" by (rule sum.cong) (use assms(1) in auto)
  then show ?thesis using assms(2) True by (simp add: sum.remove [of "{..<n}" i])
next
  case False
  then have "sum f {..<n} = sum g {..<n}" by (intro sum.cong) (use assms(1) in auto)
  then show ?thesis by simp
qed

lemma thread_left_le: "wp_threads s i = Some t \<Longrightarrow> sys_threads (wp_system s) t = Some q \<Longrightarrow> processing n q \<Longrightarrow> thread_left s i \<le> n"
  by (simp add: thread_left_def calls_left_le)

text \<open>An own step: one of the process that does not receive another message.\<close>

definition own_step :: "'img deployment \<Rightarrow> worker_process \<Rightarrow> worker_process \<Rightarrow> bool" where
  "own_step dep s s' \<longleftrightarrow> (\<exists>l. l \<noteq> Elsewhere \<and> (\<forall>d. l \<noteq> PoolMove (Pull d)) \<and> wp_step dep s l s')"

lemma own_step_rank:
  assumes "own_step dep s s'" and ok: "wp_ok s"
  shows "wp_rank s' < wp_rank s"
proof -
  obtain l where l: "l \<noteq> Elsewhere" "\<And>d. l \<noteq> PoolMove (Pull d)" "wp_step dep s l s'"
    using assms(1) by (auto simp: own_step_def)
  let ?n = "length (ps_workers (wp_pool s))"
  from l(3) show ?thesis
  proof cases
    case (taken d i p t)
    have less: "drain_measure p < drain_measure (wp_pool s)" using pool_step_measure [OF taken(4)] by simp
    have "(\<Sum>j < ?n. thread_left s' j) \<le> (\<Sum>j < ?n. thread_left s j) + 64"
    proof (rule sum_bump [where i = i])
      fix j assume j: "j < ?n" "j \<noteq> i"
      have "t' \<noteq> t" if "wp_threads s j = Some t'" for t'
        using wp_ok_running [OF ok that] taken(5) by (auto elim: runningE)
      then show "thread_left s' j = thread_left s j"
        using j taken(2) by (auto simp: thread_left_def split: option.split)
    next
      have "thread_left s' i \<le> 64"
        by (rule thread_left_le [OF _ _ processing_entry [of dep d], where t = t]) (simp_all add: taken(2))
      then show "thread_left s' i \<le> thread_left s i + 64" by simp
    qed
    then show ?thesis using less workers_step [OF taken(4)] taken(2) by (simp add: wp_rank_def)
  next
    case (work i t q oc)
    have run: "running s i t" by (rule wp_ok_running [OF ok work(3)])
    then have n: "processing 64 q" "i < ?n" using work(4) by (auto elim!: runningE)
    have "thread_left s' i < thread_left s i"
      using calls_left_step [OF n(1) work(5)] work by (simp add: thread_left_def)
    moreover have "thread_left s' j = thread_left s j" if "j \<noteq> i" for j
    proof -
      have "t' \<noteq> t" if "wp_threads s j = Some t'" for t'
        using ok that work(3) \<open>j \<noteq> i\<close> one_workerD [of "wp_threads s" j t i] unfolding wp_ok_def by blast
      then show ?thesis using work(2) by (auto simp: thread_left_def split: option.split)
    qed
    ultimately have "(\<Sum>j < ?n. thread_left s' j) < (\<Sum>j < ?n. thread_left s j)"
      using n(2) by (intro sum_strict_mono_ex1) (auto, metis less_imp_le order_refl)
    then show ?thesis using work(2) by (simp add: wp_rank_def)
  next
    case (settled i t r p)
    have "drain_measure p < drain_measure (wp_pool s)" using pool_step_measure [OF settled(5)] by simp
    moreover have "(\<Sum>j < ?n. thread_left s' j) \<le> (\<Sum>j < ?n. thread_left s j) + 0"
      by (rule sum_bump [where i = i]) (auto simp: settled(2) thread_left_def split: option.split)
    ultimately show ?thesis using workers_step [OF settled(5)] settled(2) by (simp add: wp_rank_def)
  next
    case (plain l' p)
    have "drain_measure p < drain_measure (wp_pool s)" using pool_step_measure [OF plain(3)] l(2) plain(1) by blast
    moreover have "thread_left s' i = thread_left s i" for i
      using plain(2) by (auto simp: thread_left_def split: option.split)
    then have "thread_left s' = thread_left s" ..
    ultimately show ?thesis using workers_step [OF plain(3)] plain(2) by (simp add: wp_rank_def)
  next
    case (elsewhere y)
    then show ?thesis using l(1) by simp
  qed
qed


text \<open>The rest of the system neither helps nor hinders the drain.\<close>

definition others_step :: "'img deployment \<Rightarrow> worker_process \<Rightarrow> worker_process \<Rightarrow> bool" where
  "others_step dep s s' \<longleftrightarrow> wp_step dep s Elsewhere s'"

lemma others_same:
  assumes "others_step dep s s'" and ok: "wp_ok s"
  shows "wp_pool s' = wp_pool s \<and> wp_rank s' = wp_rank s"
proof -
  obtain y where s': "s' = s\<lparr>wp_system := y\<rparr>" "\<And>t. t \<in> wp_tids s \<Longrightarrow> sys_threads y t = sys_threads (wp_system s) t"
    using assms(1) unfolding others_step_def by (auto elim!: wp_stepE)
  then have "thread_left s' i = thread_left s i" for i
    by (cases "wp_threads s i") (auto simp: thread_left_def wp_tids_def ranI)
  then have "thread_left s' = thread_left s" ..
  then show ?thesis using s'(1) by (simp add: wp_rank_def)
qed

definition going_down :: "'img deployment \<Rightarrow> worker_process \<Rightarrow> bool" where
  "going_down dep s \<longleftrightarrow> wp_ok s \<and> shutting_down (wp_pool s) \<and> reachable dep (wp_system s)"

lemma going_down_step:
  assumes "wp_step dep s l s'" and "going_down dep s"
  shows "going_down dep s'"
proof -
  have down: "phases_ok (wp_pool s)" "ps_workers (wp_pool s) \<noteq> []" "ps_signal (wp_pool s)"
    using assms(2) by (simp_all add: going_down_def shutting_down_def)
  have "shutting_down (wp_pool s')"
    using wp_step_pool [OF assms(1)]
  proof (elim disjE exE conjE)
    fix l' assume "pool_step (wp_pool s) l' (wp_pool s')"
    then show ?thesis using down phases_step pool_step_signal workers_step
      unfolding shutting_down_def by (metis length_0_conv)
  qed (use down in \<open>simp add: shutting_down_def\<close>)
  then show ?thesis
    using assms wp_ok_step [OF assms(1)] reachable_steps [OF wp_step_system [OF assms(1)]] by (simp add: going_down_def)
qed

text \<open>Own steps, between which the others may do anything.\<close>

definition drain_move :: "'img deployment \<Rightarrow> worker_process \<Rightarrow> worker_process \<Rightarrow> bool" where
  "drain_move dep s s' \<longleftrightarrow> (\<exists>s1. (others_step dep)\<^sup>*\<^sup>* s s1 \<and> own_step dep s1 s')"

lemma others_steps_same:
  "(others_step dep)\<^sup>*\<^sup>* s s1 \<Longrightarrow> going_down dep s \<Longrightarrow>
     wp_pool s1 = wp_pool s \<and> wp_rank s1 = wp_rank s \<and> going_down dep s1"
proof (induction rule: rtranclp_induct)
  case (step s1 s2)
  have "going_down dep s2" using step going_down_step unfolding others_step_def by blast
  then show ?case using step others_same [OF step.hyps(2)] by (simp add: going_down_def)
qed simp

lemma own_step_exists:
  assumes "going_down dep s" and "ps_runner (wp_pool s) \<noteq> Finished"
  shows "\<exists>s'. own_step dep s s'"
proof -
  have ok: "wp_ok s" using assms(1) by (simp add: going_down_def)
  obtain l p where l: "\<And>d. l \<noteq> Pull d" "pool_step (wp_pool s) l p"
    using shutdown.progress assms unfolding going_down_def drain_step_def by blast
  have own: "own_step dep s s'" if "wp_step dep s l' s'" "l' \<noteq> Elsewhere" "\<And>d. l' \<noteq> PoolMove (Pull d)" for l' s'
    using that by (auto simp: own_step_def)
  show ?thesis
  proof (cases "\<exists>i. l = HandOff i \<or> (\<exists>r. l = Settle i r)")
    case False
    then show ?thesis using own [OF plain [OF l(2)]] l(1) by blast
  next
    case True
    then obtain i where "l = HandOff i \<or> (\<exists>r. l = Settle i r)" by blast
    then show ?thesis
    proof (elim disjE exE)
      assume i: "l = HandOff i"
      with l(2) obtain d where d: "ps_dispatcher (wp_pool s) = Holding d" by (auto elim: hand_offE)
      obtain t where "sys_calls (wp_system s) t = None"
        using reachable_idle_tid assms(1) unfolding going_down_def by blast
      from own [OF taken [OF d l(2) [unfolded i] this]] show ?thesis by blast
    next
      fix r assume r: "l = Settle i r"
      with l(2) obtain d where d: "i < length (ps_workers (wp_pool s))" "ps_workers (wp_pool s) ! i = Busy d"
        by (auto elim: settleE)
      then obtain t where t: "wp_threads s i = Some t" using ok by (auto simp: wp_ok_def)
      then obtain q where q: "sys_threads (wp_system s) t = Some q" "processing 64 q"
        using wp_ok_running [OF ok t] by (auto elim: runningE)
      show ?thesis
      proof (cases "is_done q")
        case True
        with q obtain r' where "q = Return (DeliveryDone r')" using processing_done by blast
        with q t show ?thesis using own [OF wp_step.settled [OF t _ settles [OF d]]] by blast
      next
        case False
        from own [OF work [OF t q(1) False]] show ?thesis by blast
      qed
    qed
  qed
qed

interpretation process_end: draining "drain_move dep" wp_rank "going_down dep" "\<lambda>s. ps_runner (wp_pool s) = Finished"
  for dep
proof
  fix s s'
  assume down: "going_down dep s" and "drain_move dep s s'"
  then obtain s1 where s1: "(others_step dep)\<^sup>*\<^sup>* s s1" "own_step dep s1 s'" by (auto simp: drain_move_def)
  note same = others_steps_same [OF s1(1) down]
  then show "wp_rank s' < wp_rank s" using own_step_rank [OF s1(2)] by (simp add: going_down_def)
  show "going_down dep s'" using s1(2) same going_down_step by (auto simp: own_step_def)
next
  fix s
  assume "going_down dep s" "ps_runner (wp_pool s) \<noteq> Finished"
  from own_step_exists [OF this] show "\<exists>s'. drain_move dep s s'" unfolding drain_move_def by blast
qed


text \<open>The rank in numbers.\<close>

lemma wp_rank_bound:
  assumes "wp_ok s" and "ps_signal (wp_pool s)"
  shows "wp_rank s \<le> 194 * length (ps_workers (wp_pool s)) + 455"
proof -
  have ranks: "dispatcher_rank x \<le> 3" "runner_rank y \<le> 4" "worker_rank z \<le> 2"
    for x :: "string dispatcher" and y and z :: "string worker"
    by (cases x, simp_all, cases y, simp_all, cases z, simp_all)
  have sums: "sum_list (map worker_rank ws) \<le> 2 * length ws" for ws :: "string worker list"
  proof (induction ws)
    case (Cons z ws)
    then show ?case using ranks(3) [of z] by simp
  qed simp
  have "drain_measure (wp_pool s) \<le> 3 + 2 * length (ps_workers (wp_pool s)) + 4"
    using assms(2) ranks(1) [of "ps_dispatcher (wp_pool s)"] ranks(2) [of "ps_runner (wp_pool s)"]
      sums [of "ps_workers (wp_pool s)"]
    unfolding drain_measure_def by simp
  moreover have "thread_left s i \<le> 64" for i
  proof (cases "wp_threads s i")
    case (Some t)
    with wp_ok_running [OF assms(1)] obtain q where "sys_threads (wp_system s) t = Some q" "processing 64 q"
      by (blast elim: runningE)
    with Some show ?thesis by (rule thread_left_le)
  qed (simp add: thread_left_def)
  then have "(\<Sum>i < length (ps_workers (wp_pool s)). thread_left s i) \<le> length (ps_workers (wp_pool s)) * 64"
    using sum_bounded_above [of "{..<length (ps_workers (wp_pool s))}" "thread_left s" 64] by simp
  ultimately show ?thesis by (simp add: wp_rank_def)
qed


lemma wp_reach_move: "(drain_move dep)\<^sup>*\<^sup>* s s' \<Longrightarrow> wp_reach dep p s \<Longrightarrow> wp_reach dep p s'"
proof (induction rule: rtranclp_induct)
  case (step s1 s2)
  then obtain s3 l where "(others_step dep)\<^sup>*\<^sup>* s1 s3" "wp_step dep s3 l s2" and s1: "wp_reach dep p s1"
    by (auto simp: drain_move_def own_step_def)
  moreover from this(1) s1 have "wp_reach dep p s3"
    by (induction rule: rtranclp_induct) (auto simp: others_step_def intro: wp_next)
  ultimately show ?case by (blast intro: wp_next)
qed


section \<open>A worker process at work\<close>

text \<open>
  A process with one worker received a message it cannot parse and one more, and was told to
  stop while the worker held the first.
\<close>

definition demo_process :: "system \<Rightarrow> worker_process" where
  "demo_process y = \<lparr>wp_pool = (pool_started demo_pool)\<lparr>ps_signal := True, ps_dispatcher := Holding ''job1'',
       ps_workers := [Busy []], ps_pulled := [[], ''job1'']\<rparr>,
     wp_threads = [0 \<mapsto> 0], wp_finished = [], wp_system = y\<rparr>"

lemma reach_demo_process:
  "wp_reach demo_dep demo_pool (demo_process (started demo_dep 0 (Deliver []) initial_system))"
proof -
  let ?p0 = "pool_started demo_pool :: string pool_state" and ?s0 = "wp_started demo_pool initial_system"
  have p0: "?p0 = \<lparr>ps_signal = False, ps_stopped = False, ps_dispatcher = Pulling, ps_workers = [Idle],
      ps_closed = False, ps_cancelled = False, ps_runner = AwaitSignal, ps_pulled = [], ps_settled = []\<rparr>"
    by (simp add: pool_started_def demo_pool_def NewPool_def)
  have "wp_reach demo_dep demo_pool ?s0" by (rule wp_init [OF reachable_init])
  note r1 = wp_next [OF this plain [OF pull [of "wp_pool ?s0" "[]"]]]
  note r2 = wp_next [OF r1 taken [OF _ hand_off [of _ "[]" 0], where d = "[]" and t = 0]]
  note r3 = wp_next [OF r2 plain [OF pull [of _ "''job1''"]]]
  note r4 = wp_next [OF r3 plain [OF signal]]
  from r4 show ?thesis by (simp add: wp_started_def demo_process_def p0 initial_system_def)
qed




end
