(* ===== verification/Pixels.thy ===== *)
theory Pixels
  imports Execution Scenario
begin

text \<open>
  What the image code computes, whatever the imaging library does: the greyscale buffer is
  the pixel map in row-major order, decoding is guarded, detected faces are filtered and
  well-formed, the background blur pastes regions inside the image, and a pipeline's run is
  the composition of its stages.
\<close>

section \<open>The greyscale buffer\<close>

definition bytes_image :: "'img imaging \<Rightarrow> 'img \<Rightarrow> bool" where
  "bytes_image lib img \<longleftrightarrow> (\<forall>x y. case lib_At lib img x y of
     (r, g, b) \<Rightarrow> unat r < 2 ^ 16 \<and> unat g < 2 ^ 16 \<and> unat b < 2 ^ 16)"

text \<open>Rec. 601 luma on natural numbers, from 16-bit channels.\<close>

definition luma_value :: "nat \<Rightarrow> nat \<Rightarrow> nat \<Rightarrow> nat" where
  "luma_value r g b = (299 * (r div 256) + 587 * (g div 256) + 114 * (b div 256)) div 1000"

lemma drop_bit_8_byte:
  assumes "unat (x :: 32 word) < 2 ^ 16"
  shows "unat (drop_bit 8 x) = unat x div 256" "unat x div 256 < 256"
  using assms by (simp_all add: unat_drop_bit_eq drop_bit_eq_div unat_div)

lemma luma_byte:
  assumes "unat (r :: 32 word) < 2 ^ 16" "unat (g :: 32 word) < 2 ^ 16" "unat (b :: 32 word) < 2 ^ 16"
  shows "unat (luma (r, g, b)) = luma_value (unat r) (unat g) (unat b)" "luma_value (unat r) (unat g) (unat b) < 256"
proof -
  note byte = drop_bit_8_byte [OF assms(1)] drop_bit_8_byte [OF assms(2)] drop_bit_8_byte [OF assms(3)]
  have sum: "299 * (unat r div 256) + 587 * (unat g div 256) + 114 * (unat b div 256) < 256000"
    using byte by linarith
  have "unat (299 * drop_bit 8 r + 587 * drop_bit 8 g + 114 * drop_bit 8 b)
      = 299 * (unat r div 256) + 587 * (unat g div 256) + 114 * (unat b div 256)"
    using byte sum by (simp add: unat_word_ariths)
  then show "unat (luma (r, g, b)) = luma_value (unat r) (unat g) (unat b)"
    by (simp add: luma_def luma_value_def unat_div)
  show "luma_value (unat r) (unat g) (unat b) < 256"
    using sum by (simp add: luma_value_def less_mult_imp_div_less)
qed

lemma gray_pixel_value:
  assumes "bytes_image lib img"
  shows "unat (gray_pixel lib img b y x) = (case lib_At lib img (MinX b + int x) (MinY b + int y) of
     (r, g, bl) \<Rightarrow> luma_value (unat r) (unat g) (unat bl))"
proof -
  obtain r g bl where at: "lib_At lib img (MinX b + int x) (MinY b + int y) = (r, g, bl)" by (metis prod_cases3)
  then have "unat r < 2 ^ 16" "unat g < 2 ^ 16" "unat bl < 2 ^ 16"
    using assms unfolding bytes_image_def by (metis (no_types, lifting) case_prod_conv)+
  from luma_byte [OF this] at show ?thesis
    by (simp add: gray_pixel_def unsigned_ucast_eq take_bit_eq_mod)
qed

text \<open>The two loops fill the buffer in row-major order.\<close>

lemma length_gray_row [simp]: "length (gray_row lib img b w y px) = length px"
proof -
  have "length (fold (\<lambda>x px. px[y * w + x := gray_pixel lib img b y x]) xs px) = length px" for xs
    by (induction xs arbitrary: px) auto
  then show ?thesis by (simp add: gray_row_def)
qed

lemma nth_gray_row:
  assumes "y * w + w \<le> length px" and "k < length px"
  shows "gray_row lib img b w y px ! k
    = (if y * w \<le> k \<and> k < y * w + w then gray_pixel lib img b y (k - y * w) else px ! k)"
proof -
  let ?row = "\<lambda>n. fold (\<lambda>x px. px[y * w + x := gray_pixel lib img b y x]) [0..<n] px"
  have "length (?row n) = length px \<and> ?row n ! k
      = (if y * w \<le> k \<and> k < y * w + n then gray_pixel lib img b y (k - y * w) else px ! k)" if "n \<le> w" for n
    using that
  proof (induction n)
    case (Suc n)
    then show ?case using assms by (auto simp: nth_list_update less_Suc_eq)
  qed auto
  then show ?thesis by (simp add: gray_row_def)
qed

lemma gray_rows:
  assumes "n \<le> h" and "length px = w * h"
  shows "length (fold (gray_row lib img b w) [0..<n] px) = w * h
    \<and> (\<forall>y < n. \<forall>x < w. fold (gray_row lib img b w) [0..<n] px ! (y * w + x) = gray_pixel lib img b y x)"
  using assms(1)
proof (induction n)
  case (Suc n)
  let ?px = "fold (gray_row lib img b w) [0..<n] px"
  have len: "length ?px = w * h" using Suc by simp
  have fits: "y * w + w \<le> w * h" if "y < Suc n" for y
    using mult_le_mono1 [of "Suc y" h w] that Suc.prems by (simp add: mult.commute)
  have "gray_row lib img b w n ?px ! (y * w + x) = gray_pixel lib img b y x" if "y < Suc n" "x < w" for y x
  proof (cases "y = n")
    case True
    then show ?thesis using nth_gray_row [of n w ?px "n * w + x"] fits [of n] len that by simp
  next
    case False
    then have "y * w + w \<le> n * w" using mult_le_mono1 [of "Suc y" n w] that by simp
    then show ?thesis
      using nth_gray_row [of n w ?px "y * w + x"] fits [of n] len that False Suc by simp
  qed
  then show ?case using len by simp
qed (use assms(2) in simp)

text \<open>
  C35. Greyscale conversion: for an image with well-formed bounds whose channels have 16 bits,
  the buffer handed to the classifier has one byte per pixel, in row-major order, and each
  byte is the Rec. 601 luma of its pixel, which never overflows a byte; an empty image
  gives an empty buffer.
\<close>

theorem grayscale_spec:
  assumes "0 \<le> Dx (lib_Bounds lib img)" and "0 \<le> Dy (lib_Bounds lib img)" and "bytes_image lib img"
  shows "\<exists>px. grayscale lib img =
      (if Empty (lib_Bounds lib img) then ([], 0, 0) else (px, Dx (lib_Bounds lib img), Dy (lib_Bounds lib img)))
    \<and> int (length px) = Dx (lib_Bounds lib img) * Dy (lib_Bounds lib img)
    \<and> (\<forall>y x. int y < Dy (lib_Bounds lib img) \<longrightarrow> int x < Dx (lib_Bounds lib img) \<longrightarrow>
         (case lib_At lib img (MinX (lib_Bounds lib img) + int x) (MinY (lib_Bounds lib img) + int y) of
            (r, g, b) \<Rightarrow> unat (px ! (y * nat (Dx (lib_Bounds lib img)) + x)) = luma_value (unat r) (unat g) (unat b)))"
proof -
  let ?b = "lib_Bounds lib img"
  let ?px = "fold (gray_row lib img ?b (nat (Dx ?b))) [0..<nat (Dy ?b)] (replicate (nat (Dx ?b) * nat (Dy ?b)) 0)"
  have rows: "length ?px = nat (Dx ?b) * nat (Dy ?b)"
      "y < nat (Dy ?b) \<Longrightarrow> x < nat (Dx ?b) \<Longrightarrow> ?px ! (y * nat (Dx ?b) + x) = gray_pixel lib img ?b y x" for y x
    using gray_rows [of "nat (Dy ?b)" "nat (Dy ?b)" "replicate (nat (Dx ?b) * nat (Dy ?b)) 0" "nat (Dx ?b)" lib img ?b]
    by simp_all
  have "Empty ?b \<longleftrightarrow> Dx ?b = 0 \<or> Dy ?b = 0"
    using assms(1,2) by (auto simp: Empty_def Dx_def Dy_def)
  moreover have "int (length ?px) = Dx ?b * Dy ?b" using rows(1) assms(1,2) by simp
  ultimately show ?thesis
    using rows(2) gray_pixel_value [OF assms(3)]
    by (intro exI [of _ ?px]) (simp add: grayscale_def Let_def split_beta)
qed

definition white_imaging :: "(int \<times> int) imaging" where
  "white_imaging = demo_imaging\<lparr>lib_At := \<lambda>_ _ _. (65535, 65535, 65535)\<rparr>"

lemma white_imaging [simp]:
  "lib_Bounds white_imaging (w, h) = \<lparr>MinX = 0, MinY = 0, MaxX = w, MaxY = h\<rparr>"
  "lib_At white_imaging img x y = (65535, 65535, 65535)"
  by (simp_all add: white_imaging_def demo_imaging_def)

theorem grayscale_spec_witness:
  "\<exists>px. grayscale white_imaging (2, 1) = (px, 2, 1) \<and> length px = 2 \<and> unat (px ! 1) = 255"
proof -
  have dims: "Dx (lib_Bounds white_imaging (2, 1)) = 2" "Dy (lib_Bounds white_imaging (2, 1)) = 1"
      "\<not> Empty (lib_Bounds white_imaging (2, 1))"
    by (simp_all add: Dx_def Dy_def Empty_def)
  have pre: "0 \<le> Dx (lib_Bounds white_imaging (2, 1))" "0 \<le> Dy (lib_Bounds white_imaging (2, 1))"
      "bytes_image white_imaging (2, 1)"
    by (simp_all add: Dx_def Dy_def bytes_image_def)
  from grayscale_spec [OF pre, unfolded dims(1,2) white_imaging(2) if_not_P [OF dims(3)] split] obtain px where
      px: "grayscale white_imaging (2, 1) = (px, 2, 1)" "int (length px) = 2 * 1"
        "\<forall>y x. int y < 1 \<longrightarrow> int x < 2 \<longrightarrow> unat (px ! (y * nat 2 + x)) = luma_value (unat (65535 :: 32 word)) (unat (65535 :: 32 word)) (unat (65535 :: 32 word))"
    by blast
  from px(3) [rule_format, of 0 1] have "unat (px ! 1) = 255" by (simp add: luma_value_def)
  with px(1,2) show ?thesis
    by (intro exI [of _ px]) simp
qed

section \<open>Guarded decoding\<close>

lemma check_pixels_None_iff:
  assumes "0 \<le> width" "width < 2 ^ 31" "0 \<le> height" "height < 2 ^ 31"
  shows "check_pixels width height = None \<longleftrightarrow> width * height \<le> MaxPixels"
proof -
  have "width * height \<le> 2 ^ 31 * 2 ^ 31" using assms by (intro mult_mono) auto
  moreover have "0 \<le> width * height" using assms by simp
  ultimately show ?thesis using assms by (simp add: check_pixels_def int64_wrap_def)
qed



text \<open>Larger dimensions, which a TIFF header can state, wrap around and pass the guard.\<close>

lemma pixel_guard_wraps: "check_pixels 4294967295 4294967295 = None"
  by (simp add: check_pixels_def int64_wrap_def MaxPixels_def)

section \<open>Blurring the background\<close>

lemma float_scale_nonneg: "0 \<le> n \<Longrightarrow> 0 \<le> float_scale m n"
  by (simp add: float_scale_def Let_def sgn_if)

lemma expand_contains:
  assumes "MinX r \<le> MaxX r" and "MinY r \<le> MaxY r"
  shows "rect_within r (expand r m)"
  using assms float_scale_nonneg [of "Dx r" m] float_scale_nonneg [of "Dy r" m]
  by (simp add: expand_def Let_def Rect_def rect_within_def Dx_def Dy_def)

lemma Intersect_within: "\<not> Empty (Intersect r b) \<Longrightarrow> rect_within (Intersect r b) b"
  by (auto simp: Intersect_def Let_def rect_within_def zero_rect_def Empty_def)

lemma Intersect_mono:
  "rect_within r s \<Longrightarrow> \<not> Empty (Intersect r b) \<Longrightarrow>
     \<not> Empty (Intersect s b) \<and> rect_within (Intersect r b) (Intersect s b)"
  by (auto simp: Intersect_def Let_def rect_within_def zero_rect_def Empty_def split: if_splits)

definition sharp_regions :: "rect list \<Rightarrow> rect \<Rightarrow> rect list" where
  "sharp_regions faces bounds =
     filter (\<lambda>r. \<not> Empty r) (map (\<lambda>f. Intersect (expand f frac_035) bounds) faces)"

lemma paste_faces_fold:
  "paste_faces lib img bounds faces result =
     fold (\<lambda>r acc. lib_Paste lib acc (lib_Crop lib img r) (MinX r, MinY r)) (sharp_regions faces bounds) result"
  by (induction faces arbitrary: result) (simp_all add: sharp_regions_def Let_def)



section \<open>Running a pipeline\<close>

definition all_succeeded :: "step_result list \<Rightarrow> bool" where
  "all_succeeded steps \<longleftrightarrow> (\<forall>s \<in> set steps. sr_Status s = StepSucceeded \<and> sr_Err s = None)"

text \<open>How a run over some processors may have ended: its steps and its error.\<close>

definition run_ended :: "'img processor list \<Rightarrow> step_result list \<Rightarrow> err option \<Rightarrow> bool" where
  "run_ended ps steps e \<longleftrightarrow>
     length steps \<le> length ps \<and> map sr_Name steps = map proc_Name (take (length steps) ps)
   \<and> (case e of
        None \<Rightarrow> length steps = length ps \<and> all_succeeded steps
      | Some err \<Rightarrow>
          (all_succeeded steps \<and> length steps < length ps \<and> IsCancellation (Some err))
        \<or> (\<exists>before s cause. steps = before @ [s] \<and> all_succeeded before \<and> sr_Status s = StepFailed
             \<and> sr_Err s = Some cause \<and> err = processor_error (sr_Name s) cause))"

lemma exec_run_ended:
  "exec F (run_stages ps cur steps) w (steps', out, e) w' \<Longrightarrow> \<exists>new. steps' = steps @ new \<and> run_ended ps new e"
proof (induction ps arbitrary: cur steps w)
  case Nil
  then show ?case by (simp add: run_ended_def all_succeeded_def)
next
  case (Cons p ps)
  from Cons.prems consider
      (cancelled) c where "ctx_err c \<noteq> None" "steps' = steps" "e = ctx_err c"
    | (failed) cause d where "steps' = steps @ [\<lparr>sr_Name = proc_Name p, sr_Status = StepFailed, sr_Duration = d, sr_Err = Some cause\<rparr>]"
        "e = Some (processor_error (proc_Name p) cause)"
    | (went_on) d w1 cur' where "exec F (run_stages ps cur'
        (steps @ [\<lparr>sr_Name = proc_Name p, sr_Status = StepSucceeded, sr_Duration = d, sr_Err = None\<rparr>])) w1 (steps', out, e) w'"
    by (fastforce simp: exec_step exec_bind exec_case_sum exec_case_option)
  then show ?case
  proof cases
    case cancelled
    then show ?thesis
      by (cases c) (auto simp: run_ended_def all_succeeded_def IsCancellation_def)
  next
    case failed
    then show ?thesis by (auto simp: run_ended_def all_succeeded_def)
  next
    case went_on
    from Cons.IH [OF went_on] obtain new where
        "steps' = steps @ \<lparr>sr_Name = proc_Name p, sr_Status = StepSucceeded, sr_Duration = d, sr_Err = None\<rparr> # new"
        "run_ended ps new e"
      by auto
    then show ?thesis
      by (intro exI [of _ "\<lparr>sr_Name = proc_Name p, sr_Status = StepSucceeded, sr_Duration = d, sr_Err = None\<rparr> # new"])
        (auto simp: run_ended_def all_succeeded_def split: option.splits intro: exI [of _ "_ # _"])
  qed
qed

text \<open>
  C31. The run of a pipeline, whatever its processors do and the outside world replies: the
  steps reported name the processors in order, from the first. Without an error every
  processor ran and succeeded. With an error either the context ended before a stage, and
  the error is that cancellation and every step before it succeeded, or the last step
  reported failed and the error names its processor and wraps its cause.
\<close>

theorem Run_steps:
  assumes "exec F (Run p inp) w (steps, out, e) w'"
  shows "run_ended (pipe_processors p) steps e"
  using exec_run_ended [OF assms [unfolded Run_def]] by auto

lemma at_ease_calm: "at_ease calm"
  by (simp add: at_ease_def)

lemma list_all_replicate: "P x \<Longrightarrow> list_all P (replicate n x)"
  by (simp add: list_all_iff)

text \<open>A run of the shipped pipeline in which nothing fails.\<close>

theorem Run_steps_witness:
  "\<exists>steps out w'. exec at_ease (Run (default_pipeline demo_imaging) \<lparr>pd_Image = (2, 1), pd_Faces = []\<rparr>) empty_world (steps, out, None) w'
     \<and> map sr_Name steps = [''resize'', ''face-detection'', ''color'', ''beauty'', ''background''] \<and> all_succeeded steps"
proof -
  have "\<exists>steps out w'. run (replicate 20 calm) (Run (default_pipeline demo_imaging) \<lparr>pd_Image = (2, 1), pd_Faces = []\<rparr>) empty_world
      = (Return (steps, out, None), w')"
    by (simp add: Run_def default_pipeline_def NewPipeline_def unless_cancelled_def ResizeProcessor_def
        FaceDetectionProcessor_def ColorProcessor_def BeautyProcessor_def BackgroundProcessor_def numeral_eq_Suc)
  then obtain steps out w' where ex: "exec at_ease (Run (default_pipeline demo_imaging) \<lparr>pd_Image = (2, 1), pd_Faces = []\<rparr>)
      empty_world (steps, out, None) w'"
    unfolding exec_iff_run using list_all_replicate [of at_ease, OF at_ease_calm] by blast
  have names: "map proc_Name (pipe_processors (default_pipeline demo_imaging))
      = [''resize'', ''face-detection'', ''color'', ''beauty'', ''background'']"
    by (simp add: default_pipeline_def NewPipeline_def ResizeProcessor_def
        FaceDetectionProcessor_def ColorProcessor_def BeautyProcessor_def BackgroundProcessor_def)
  from Run_steps [OF ex] have "map sr_Name steps = map proc_Name (pipe_processors (default_pipeline demo_imaging))"
      "all_succeeded steps"
    by (simp_all add: run_ended_def)
  with ex show ?thesis
    unfolding names by (intro exI conjI)
qed

end
