(* ===== verification/Watching.thy ===== *)
theory Watching
  imports Handler
begin

text \<open>
  The cancellation watcher of \<open>internal/worker/handler.go\<close>: the goroutine that
  \<open>watchCancellation\<close> starts while a job is processed, its ticker, the stop channel, the
  processing context, and the goroutine of \<open>Handle\<close> that stops it, stepping in any order.
\<close>

section \<open>The two goroutines\<close>

text \<open>
  The watcher waits in its select, has received a tick and calls \<open>GetJob\<close>, or has closed its
  channel. \<open>Handle\<close> runs the pipeline, waits in the returned stop function, goes on after
  it, or has returned (or was unwound by a panic), which runs the deferred \<open>procCancel\<close>.
\<close>

datatype watcher = Selecting | Polling | Ended

datatype watched = Processing | Stopping | Stopped | Gone

record watch_state =
  wt_watcher :: watcher
  wt_handler :: watched
  wt_tick :: bool
  wt_ticks :: nat
  wt_stop :: bool
  wt_ctx :: bool
  wt_parent :: bool
  wt_polled :: "world list"

definition watchCancellation :: "bool \<Rightarrow> watch_state" where
  "watchCancellation parent_done = \<lparr>wt_watcher = Selecting, wt_handler = Processing, wt_tick = False, wt_ticks = 0,
     wt_stop = False, wt_ctx = parent_done, wt_parent = parent_done, wt_polled = []\<rparr>"

datatype watch_label =
    Tick | ParentEnds | TakeCtx | TakeStop | TakeTick | Poll world outside
  | PipelineEnds | StopReturns | Leaves

text \<open>
  One step for job \<open>i\<close>. The ticker keeps at most one tick and drops the others; the select
  takes any case that is ready; a poll is one call of \<open>GetJob\<close> in whatever world it finds.
\<close>

inductive watch_step :: "uuid \<Rightarrow> watch_state \<Rightarrow> watch_label \<Rightarrow> watch_state \<Rightarrow> bool" for i where
  ticks: "wt_watcher s \<noteq> Ended \<Longrightarrow> watch_step i s Tick (s\<lparr>wt_tick := True, wt_ticks := wt_ticks s + 1\<rparr>)"
| parent_ends: "\<not> wt_parent s \<Longrightarrow> watch_step i s ParentEnds (s\<lparr>wt_parent := True, wt_ctx := True\<rparr>)"
| take_ctx: "wt_watcher s = Selecting \<Longrightarrow> wt_ctx s \<Longrightarrow> watch_step i s TakeCtx (s\<lparr>wt_watcher := Ended\<rparr>)"
| take_stop: "wt_watcher s = Selecting \<Longrightarrow> wt_stop s \<Longrightarrow> watch_step i s TakeStop (s\<lparr>wt_watcher := Ended\<rparr>)"
| take_tick: "wt_watcher s = Selecting \<Longrightarrow> wt_tick s \<Longrightarrow>
    watch_step i s TakeTick (s\<lparr>wt_watcher := Polling, wt_tick := False\<rparr>)"
| poll_goes_on: "wt_watcher s = Polling \<Longrightarrow> step_prog oc (watch_tick i) w = (Return False, w') \<Longrightarrow>
    watch_step i s (Poll w oc) (s\<lparr>wt_watcher := Selecting, wt_polled := wt_polled s @ [w]\<rparr>)"
| poll_cancels: "wt_watcher s = Polling \<Longrightarrow> step_prog oc (watch_tick i) w = (Return True, w') \<Longrightarrow>
    watch_step i s (Poll w oc) (s\<lparr>wt_watcher := Ended, wt_ctx := True, wt_polled := wt_polled s @ [w]\<rparr>)"
| pipeline_ends: "wt_handler s = Processing \<Longrightarrow>
    watch_step i s PipelineEnds (s\<lparr>wt_handler := Stopping, wt_stop := True\<rparr>)"
| stop_returns: "wt_handler s = Stopping \<Longrightarrow> wt_watcher s = Ended \<Longrightarrow>
    watch_step i s StopReturns (s\<lparr>wt_handler := Stopped\<rparr>)"
| leaves: "wt_handler s = Processing \<or> wt_handler s = Stopped \<Longrightarrow>
    watch_step i s Leaves (s\<lparr>wt_handler := Gone, wt_ctx := True\<rparr>)"

inductive_cases watch_stepE: "watch_step i s l s'"

inductive watch_reach :: "uuid \<Rightarrow> watch_state \<Rightarrow> bool" for i where
  watch_init: "watch_reach i (watchCancellation parent_done)"
| watch_next: "watch_reach i s \<Longrightarrow> watch_step i s l s' \<Longrightarrow> watch_reach i s'"

section \<open>A poll\<close>

lemma step_watch_tick:
  "step_prog oc (watch_tick i) w = (Return (case faulty_read (o_fault oc) (job_of (w_db w) i) of
      Inr (Some j) \<Rightarrow> job_Status j = StatusCancelled | _ \<Rightarrow> False), w)"
  by (cases "o_fault oc"; simp add: watch_tick_def GetJob_def split: option.splits)

definition reads_cancelled :: "uuid \<Rightarrow> world \<Rightarrow> bool" where
  "reads_cancelled i w \<longleftrightarrow> (\<exists>j. job_of (w_db w) i = Some j \<and> job_Status j = StatusCancelled)"

lemma poll_True: "step_prog oc (watch_tick i) w = (Return True, w') \<Longrightarrow> reads_cancelled i w \<and> w' = w"
  by (cases "o_fault oc") (auto simp: step_watch_tick reads_cancelled_def split: option.splits)

lemma poll_total: "\<exists>b. step_prog oc (watch_tick i) w = (Return b, w)"
  by (simp add: step_watch_tick)

section \<open>Safety\<close>

text \<open>
  Why the context has ended, where the watcher is once the stop function has returned, and
  how many polls there were.
\<close>

definition watch_inv :: "uuid \<Rightarrow> watch_state \<Rightarrow> bool" where
  "watch_inv i s \<longleftrightarrow>
     (wt_ctx s \<longrightarrow> wt_parent s \<or> wt_handler s = Gone \<or> (\<exists>w \<in> set (wt_polled s). reads_cancelled i w)) \<and>
     (wt_handler s = Stopped \<longrightarrow> wt_watcher s = Ended) \<and>
     (wt_handler s = Processing \<longrightarrow> wt_watcher s = Ended \<longrightarrow> wt_ctx s) \<and>
     (wt_handler s = Stopping \<longrightarrow> wt_stop s) \<and> (wt_handler s = Processing \<longrightarrow> \<not> wt_stop s) \<and> (wt_handler s = Gone \<longrightarrow> wt_ctx s) \<and>
     length (wt_polled s) + (if wt_tick s then 1 else 0) + (if wt_watcher s = Polling then 1 else 0) \<le> wt_ticks s"

lemma watch_inv_step: "watch_step i s l s' \<Longrightarrow> watch_inv i s \<Longrightarrow> watch_inv i s'"
  by (induction rule: watch_step.induct) (auto simp: watch_inv_def dest: poll_True split: if_splits)

lemma watch_reach_inv: "watch_reach i s \<Longrightarrow> watch_inv i s"
proof (induction rule: watch_reach.induct)
  case (watch_init parent_done)
  then show ?case by (simp add: watchCancellation_def watch_inv_def)
next
  case (watch_next s l s')
  then show ?case by (blast intro: watch_inv_step)
qed

text \<open>After the stop function has returned the watcher makes no call.\<close>

lemma ended_is_silent:
  "watch_step i s l s' \<Longrightarrow> wt_watcher s = Ended \<Longrightarrow> wt_watcher s' = Ended \<and> wt_polled s' = wt_polled s"
  by (erule watch_stepE) simp_all

lemma ended_stays:
  assumes "(\<lambda>s s'. \<exists>l. watch_step i s l s')\<^sup>*\<^sup>* s s'" and "wt_watcher s = Ended"
  shows "wt_watcher s' = Ended \<and> wt_polled s' = wt_polled s"
  using assms by (induction rule: rtranclp_induct) (auto dest: ended_is_silent)

text \<open>
  C19. What the cancellation watcher does and does not do. It ends the processing context only
  after it has read the job as CANCELLED: a context that ended while \<open>Handle\<close> is still
  working has done so because its parent ended or because of such a read. It never gives up
  before that, it polls at most once per tick, and once its stop function has returned it
  has ended and makes no call ever after, so nothing of it is left when \<open>Handle\<close> goes on.
\<close>

theorem watcher_contract:
  assumes "watch_reach i s"
  shows "(wt_ctx s \<and> wt_handler s \<noteq> Gone \<longrightarrow> wt_parent s \<or> (\<exists>w \<in> set (wt_polled s). reads_cancelled i w))
    \<and> (wt_handler s = Processing \<and> \<not> wt_ctx s \<longrightarrow> wt_watcher s \<noteq> Ended)
    \<and> length (wt_polled s) \<le> wt_ticks s
    \<and> (wt_handler s = Stopped \<longrightarrow> wt_watcher s = Ended
        \<and> (\<forall>s'. (\<lambda>s s'. \<exists>l. watch_step i s l s')\<^sup>*\<^sup>* s s' \<longrightarrow> wt_polled s' = wt_polled s))"
proof -
  have inv: "watch_inv i s" by (rule watch_reach_inv [OF assms])
  then have "wt_ctx s \<and> wt_handler s \<noteq> Gone \<longrightarrow> wt_parent s \<or> (\<exists>w \<in> set (wt_polled s). reads_cancelled i w)"
      "wt_handler s = Processing \<and> \<not> wt_ctx s \<longrightarrow> wt_watcher s \<noteq> Ended"
      "length (wt_polled s) \<le> wt_ticks s" "wt_handler s = Stopped \<longrightarrow> wt_watcher s = Ended"
    unfolding watch_inv_def by (blast, blast, simp, blast)
  then show ?thesis using ended_stays [of i s] by blast
qed

text \<open>A watcher whose first tick finds the job cancelled.\<close>

definition cancelled_world :: world where
  "cancelled_world = empty_world\<lparr>w_db := empty_db\<lparr>jobs := [\<lparr>job_ID = 1, job_Status = StatusCancelled,
     job_Pipeline = ''p'', job_PipelineVersion = ''v1'', job_InputObjectKey = ''uploads/a.png'', job_CorrelationID = '''',
     job_AttemptCount = 1, job_MaxAttempts = 2, job_LastError = [], job_NextRetryAt = None, job_CreatedAt = 0,
     job_UpdatedAt = 1\<rparr>]\<rparr>\<rparr>"

definition alerted :: watch_state where
  "alerted = \<lparr>wt_watcher = Ended, wt_handler = Processing, wt_tick = False, wt_ticks = 1, wt_stop = False,
     wt_ctx = True, wt_parent = False, wt_polled = [cancelled_world]\<rparr>"

lemma reach_alerted: "watch_reach 1 alerted"
proof -
  obtain oc :: outside where "oc = undefined\<lparr>o_fault := NoFault\<rparr>" by blast
  then have seen: "step_prog oc (watch_tick 1) cancelled_world = (Return True, cancelled_world)"
    by (simp add: step_watch_tick cancelled_world_def)
  note r1 = watch_next [OF watch_init [of 1 False] ticks]
  note r2 = watch_next [OF r1 take_tick]
  note r3 = watch_next [OF r2 poll_cancels [OF _ seen]]
  show ?thesis using r3 by (simp add: watchCancellation_def alerted_def)
qed

theorem watcher_contract_witness:
  "\<exists>w \<in> set (wt_polled alerted). reads_cancelled 1 w"
  using watcher_contract [OF reach_alerted] by (simp add: alerted_def)

section \<open>Termination\<close>

text \<open>What is left to do once the watcher was told to end, if no further tick comes.\<close>

fun watcher_rank :: "watcher \<Rightarrow> nat" where
  "watcher_rank Selecting = 1"
| "watcher_rank Polling = 2"
| "watcher_rank Ended = 0"

definition watch_rank :: "watch_state \<Rightarrow> nat" where
  "watch_rank s = watcher_rank (wt_watcher s) + (if wt_tick s then 2 else 0)"

text \<open>The steps of the watcher itself.\<close>

definition watcher_moves :: "uuid \<Rightarrow> watch_state \<Rightarrow> watch_state \<Rightarrow> bool" where
  "watcher_moves i s s' \<longleftrightarrow> (\<exists>l. (l \<in> {TakeCtx, TakeStop, TakeTick} \<or> (\<exists>w oc. l = Poll w oc)) \<and> watch_step i s l s')"

definition told_to_end :: "watch_state \<Rightarrow> bool" where
  "told_to_end s \<longleftrightarrow> wt_stop s \<or> wt_ctx s"

lemma watcher_moves_rank: "watcher_moves i s s' \<Longrightarrow> watch_rank s' < watch_rank s"
  by (auto simp: watcher_moves_def watch_rank_def elim!: watch_stepE)

lemma watcher_moves_told: "watcher_moves i s s' \<Longrightarrow> told_to_end s \<Longrightarrow> told_to_end s'"
  by (auto simp: watcher_moves_def told_to_end_def elim!: watch_stepE)

lemma watcher_progress:
  assumes "told_to_end s" and "wt_watcher s \<noteq> Ended"
  shows "\<exists>s'. watcher_moves i s s'"
proof (cases "wt_watcher s")
  case Selecting
  then show ?thesis
    using assms(1) take_ctx [OF Selecting, of i] take_stop [OF Selecting, of i]
    unfolding watcher_moves_def told_to_end_def by blast
next
  case Polling
  obtain b where b: "step_prog undefined (watch_tick i) undefined = (Return b, undefined)"
    using poll_total [of undefined i undefined] by blast
  show ?thesis
  proof (cases b)
    case True
    with b have "step_prog undefined (watch_tick i) undefined = (Return True, undefined)" by simp
    from poll_cancels [OF Polling this] show ?thesis
      unfolding watcher_moves_def by (intro exI conjI disjI2) (rule refl)
  next
    case False
    with b have "step_prog undefined (watch_tick i) undefined = (Return False, undefined)" by simp
    from poll_goes_on [OF Polling this] show ?thesis
      unfolding watcher_moves_def by (intro exI conjI disjI2) (rule refl)
  qed
qed (use assms in simp)

interpretation watcher_end: draining "watcher_moves i" watch_rank told_to_end "\<lambda>s. wt_watcher s = Ended"
  for i
  by unfold_locales (use watcher_moves_rank watcher_moves_told watcher_progress in blast)+

text \<open>
  C20. Stopping the watcher does not hang. Once the stop channel is closed or the context has
  ended, the watcher can always move until it has ended, and without a further tick it makes
  at most four moves: so the stop function returns, even if \<open>select\<close> prefers the tick.
\<close>

theorem watcher_ends:
  assumes "told_to_end s"
  shows "(\<exists>s'. (watcher_moves i)\<^sup>*\<^sup>* s s' \<and> wt_watcher s' = Ended)
    \<and> (\<forall>n s'. (watcher_moves i ^^ n) s s' \<longrightarrow> n \<le> 4)
    \<and> (\<forall>s'. (watcher_moves i)\<^sup>*\<^sup>* s s' \<longrightarrow> (\<nexists>s''. watcher_moves i s' s'') \<longrightarrow> wt_watcher s' = Ended)"
proof -
  have "watch_rank s \<le> 4" by (cases "wt_watcher s") (simp_all add: watch_rank_def)
  then show ?thesis
    using watcher_end.reaches_end [OF assms, of i] watcher_end.steps_bounded [OF _ assms]
      watcher_end.stuck_ended [OF _ assms]
    by (intro conjI allI impI) (blast | fastforce)+
qed


text \<open>A watcher in the middle of a poll, with the next tick waiting, is told to stop.\<close>

theorem watcher_ends_witness:
  "told_to_end ((watchCancellation False)\<lparr>wt_watcher := Polling, wt_tick := True, wt_ticks := 2, wt_stop := True\<rparr>)
   \<and> (\<exists>s'. (watcher_moves 1)\<^sup>*\<^sup>* ((watchCancellation False)\<lparr>wt_watcher := Polling, wt_tick := True, wt_ticks := 2,
       wt_stop := True\<rparr>) s' \<and> wt_watcher s' = Ended)"
proof -
  have "told_to_end ((watchCancellation False)\<lparr>wt_watcher := Polling, wt_tick := True, wt_ticks := 2, wt_stop := True\<rparr>)"
    by (simp add: told_to_end_def)
  then show ?thesis using watcher_ends by blast
qed

end
