(* ===== verification/Columns.thy ===== *)
theory Columns
  imports Integrity
begin

text \<open>
  From a row of \<open>jobs\<close> to a \<open>domain.Job\<close>: the column list every query of
  \<open>internal/repository/jobs.go\<close> selects or returns, and \<open>scanJob\<close>, which assigns the
  columns by position. The other theories take rows as jobs; this is why they may.
\<close>

section \<open>Rows as the driver returns them\<close>

datatype column =
    UuidCol uuid
  | TextCol string
  | ErrorCol err_text
  | IntCol int
  | TimeCol time
  | NullableTimeCol "time option"

text \<open>The columns of the table, by the name the schema gives them.\<close>

definition job_row_columns :: "job \<Rightarrow> (string \<times> column) list" where
  "job_row_columns j =
     [(''id'', UuidCol (job_ID j)), (''status'', TextCol (status_string (job_Status j))),
      (''pipeline'', TextCol (job_Pipeline j)), (''pipeline_version'', TextCol (job_PipelineVersion j)),
      (''input_object_key'', TextCol (job_InputObjectKey j)), (''correlation_id'', TextCol (job_CorrelationID j)),
      (''attempt_count'', IntCol (job_AttemptCount j)), (''max_attempts'', IntCol (job_MaxAttempts j)),
      (''last_error'', ErrorCol (job_LastError j)), (''next_retry_at'', NullableTimeCol (job_NextRetryAt j)),
      (''created_at'', TimeCol (job_CreatedAt j)), (''updated_at'', TimeCol (job_UpdatedAt j))]"

definition jobColumns :: "string list" where
  "jobColumns = [''id'', ''status'', ''pipeline'', ''pipeline_version'', ''input_object_key'',
     ''correlation_id'', ''attempt_count'', ''max_attempts'', ''last_error'', ''next_retry_at'',
     ''created_at'', ''updated_at'']"

text \<open>A query returns the columns it lists, in that order; an unknown name is an error of the server.\<close>

fun select_columns :: "(string \<times> column) list \<Rightarrow> string list \<Rightarrow> column list option" where
  "select_columns row [] = Some []"
| "select_columns row (c # cs) =
     (case map_of row c of
        None \<Rightarrow> None
      | Some v \<Rightarrow> map_option ((#) v) (select_columns row cs))"

section \<open>Scanning\<close>

text \<open>A text is scanned into the string type \<open>JobStatus\<close> as it is.\<close>

definition scan_status :: "string \<Rightarrow> job_status" where
  "scan_status s = (case status_check s of Some st \<Rightarrow> st | None \<Rightarrow> UnknownStatus s)"

text \<open>
  \<open>row.Scan\<close> takes the columns one after the other and fails when one is missing, is left
  over or has a type that does not fit its destination.
\<close>

fun as_uuid :: "column \<Rightarrow> uuid option" where
  "as_uuid (UuidCol i) = Some i"
| "as_uuid _ = None"

fun as_text :: "column \<Rightarrow> string option" where
  "as_text (TextCol s) = Some s"
| "as_text _ = None"

fun as_error :: "column \<Rightarrow> err_text option" where
  "as_error (ErrorCol e) = Some e"
| "as_error _ = None"

fun as_int :: "column \<Rightarrow> int option" where
  "as_int (IntCol n) = Some n"
| "as_int _ = None"

fun as_time :: "column \<Rightarrow> time option" where
  "as_time (TimeCol t) = Some t"
| "as_time _ = None"

fun as_nullable_time :: "column \<Rightarrow> time option option" where
  "as_nullable_time (NullableTimeCol t) = Some t"
| "as_nullable_time _ = None"

definition scan :: "(column \<Rightarrow> 'a option) \<Rightarrow> column list \<Rightarrow> ('a \<Rightarrow> column list \<Rightarrow> err + 'b) \<Rightarrow> err + 'b" where
  "scan dest cols continue =
     (case cols of
        [] \<Rightarrow> Inl (Foreign ''scan'')
      | c # cs \<Rightarrow> (case dest c of None \<Rightarrow> Inl (Foreign ''scan'') | Some x \<Rightarrow> continue x cs))"

definition scanJob :: "column list \<Rightarrow> err + job" where
  "scanJob cols =
     scan as_uuid cols (\<lambda>i cs. scan as_text cs (\<lambda>st cs. scan as_text cs (\<lambda>p cs. scan as_text cs (\<lambda>v cs.
     scan as_text cs (\<lambda>k cs. scan as_text cs (\<lambda>c cs. scan as_int cs (\<lambda>n cs. scan as_int cs (\<lambda>m cs.
     scan as_error cs (\<lambda>e cs. scan as_nullable_time cs (\<lambda>r cs. scan as_time cs (\<lambda>ca cs. scan as_time cs (\<lambda>ua cs.
       if cs \<noteq> [] then Inl (Foreign ''scan'')
       else Inr \<lparr>job_ID = i, job_Status = scan_status st, job_Pipeline = p, job_PipelineVersion = v,
         job_InputObjectKey = k, job_CorrelationID = c, job_AttemptCount = n, job_MaxAttempts = m, job_LastError = e,
         job_NextRetryAt = r, job_CreatedAt = ca, job_UpdatedAt = ua\<rparr>))))))))))))"

lemma scan_status_string: "Valid st \<Longrightarrow> scan_status (status_string st) = st"
  by (simp add: scan_status_def status_codec.dec_enc)

text \<open>
  The list and the assignment agree: scanning what a query over \<open>jobColumns\<close> returns for a
  stored job gives that job.
\<close>

lemma scanJob_selected:
  assumes "Valid (job_Status j)"
  shows "map_option scanJob (select_columns (job_row_columns j) jobColumns) = Some (Inr j)"
  using scan_status_string [OF assms] by (simp add: jobColumns_def job_row_columns_def scanJob_def scan_def)

text \<open>Every row of the table is such a job: the schema's check admits the known statuses only.\<close>

lemma stored_jobs_scan:
  assumes "wf_jobs d" and "j \<in> set (jobs d)"
  shows "map_option scanJob (select_columns (job_row_columns j) jobColumns) = Some (Inr j)"
  using assms by (intro scanJob_selected) (auto simp: wf_jobs_def job_row_valid_def list_all_iff)

end
