(* ===== verification/Startup.thy ===== *)
theory Startup
  imports Broker
begin

text \<open>
  The two programs' start and end: \<open>cmd/api/main.go\<close> and \<open>cmd/worker/main.go\<close>, with the
  connection code they call (\<open>internal/repository/postgres.go\<close>, \<open>NewMinioStore\<close>,
  \<open>SetupTracing\<close>, \<open>Probe\<close>). The model records which resources are acquired and
  released, in order, for every combination of answers of the libraries.
\<close>

section \<open>Health probes\<close>

text \<open>\<open>get\<close> is the HTTP client: the answer's status, or the error.\<close>

definition probe_url :: "string \<Rightarrow> string \<Rightarrow> string" where
  "probe_url addr path = ''http://127.0.0.1'' @ (if addr = '''' then '':8080'' else addr) @ path"

definition Probe :: "(string \<Rightarrow> err + int) \<Rightarrow> string \<Rightarrow> string \<Rightarrow> err option" where
  "Probe get addr path =
     (case get (probe_url addr path) of
        Inl e \<Rightarrow> Some e
      | Inr status \<Rightarrow>
          if status \<noteq> 200 then Some (WrapErr [Lit ''health check '', Lit (probe_url addr path),
            Lit '' returned '', Lit (show_int status)] [])
          else None)"

text \<open>\<open>os.Getenv\<close>: the empty string when unset.\<close>

definition getenv :: "environment \<Rightarrow> string \<Rightarrow> string" where
  "getenv e key = (case e key of Some v \<Rightarrow> v | None \<Rightarrow> '''')"

section \<open>Connections\<close>

record pool_config =
  pc_DSN :: string
  pc_MaxConns :: int
  pc_MinConns :: int
  pc_MaxConnLifetime :: duration

text \<open>
  \<open>repository.NewPool\<close>: parse, create, ping; with the result, whether a pool is left open.
\<close>

definition NewPgPool :: "postgres_config \<Rightarrow> (string \<Rightarrow> err option) \<Rightarrow> (pool_config \<Rightarrow> err option) \<Rightarrow> err option
    \<Rightarrow> (err + pool_config) \<times> bool" where
  "NewPgPool cfg parse create ping =
     (case parse (pg_DSN cfg) of
        Some e \<Rightarrow> (Inl (wrap_prefix ''parse postgres dsn'' e), False)
      | None \<Rightarrow>
          let pc = \<lparr>pc_DSN = pg_DSN cfg, pc_MaxConns = pg_MaxConns cfg, pc_MinConns = pg_MinConns cfg,
            pc_MaxConnLifetime = pg_MaxConnLifetime cfg\<rparr>
          in (case create pc of
              Some e \<Rightarrow> (Inl (wrap_prefix ''create postgres pool'' e), False)
            | None \<Rightarrow>
                (case ping of
                   Some e \<Rightarrow> (Inl (wrap_prefix ''ping postgres'' e), False)
                 | None \<Rightarrow> (Inr pc, True))))"

text \<open>The object store: the endpoints of its two clients and its bucket.\<close>

record minio_store =
  ms_client :: string
  ms_presignClient :: string
  ms_bucket :: string

definition NewMinioStore :: "storage_config \<Rightarrow> (string \<Rightarrow> err option) \<Rightarrow> err + bool \<Rightarrow> err + minio_store" where
  "NewMinioStore cfg minio_New bucket_exists =
     (case minio_New (s3_Endpoint cfg) of
        Some e \<Rightarrow> Inl (wrap_prefix ''create minio client'' e)
      | None \<Rightarrow>
          let separate = (s3_PublicEndpoint cfg \<noteq> '''' \<and> s3_PublicEndpoint cfg \<noteq> s3_Endpoint cfg);
              presign = (if separate then s3_PublicEndpoint cfg else s3_Endpoint cfg)
          in (case (if separate then minio_New presign else None) of
              Some e \<Rightarrow> Inl (wrap_prefix ''create presign client'' e)
            | None \<Rightarrow>
                (case bucket_exists of
                   Inl e \<Rightarrow> Inl (wrap_named ''check bucket'' (s3_Bucket cfg) e)
                 | Inr found \<Rightarrow>
                     if \<not> found then Inl (WrapErr [Lit ''bucket '', Quoted (s3_Bucket cfg), Lit '' does not exist''] [])
                     else Inr \<lparr>ms_client = s3_Endpoint cfg, ms_presignClient = presign, ms_bucket = s3_Bucket cfg\<rparr>)))"

text \<open>\<open>SetupTracing\<close>: whether a provider was installed, which then is shut down at the end.\<close>

definition SetupTracing :: "string \<Rightarrow> err option \<Rightarrow> err + bool" where
  "SetupTracing endpoint exporter_New =
     (if endpoint = '''' then Inr False
      else (case exporter_New of
          Some e \<Rightarrow> Inl (wrap_prefix ''create otlp exporter'' e)
        | None \<Rightarrow> Inr True))"

section \<open>Startup as a sequence of acquisitions\<close>

datatype resource = Signals | Tracing | MetricsServer | Postgres | Broker | HttpServer

datatype event =
    Acquire resource
  | Release resource
  | CheckStore
  | DeclareStream
  | DeclareConsumer
  | LoadDetector
  | RequeueSweep duration int
  | RunPool int
  | Serve
  | ShutdownServer
  | ForceClose

type_synonym trail = "event list \<times> err option"

text \<open>
  \<open>if err != nil { return err }\<close>; an acquisition that succeeds is followed by
  \<open>defer release\<close>; a step that succeeds just goes on.
\<close>

definition acquiring :: "resource \<Rightarrow> err option \<Rightarrow> trail \<Rightarrow> trail" where
  "acquiring r result rest =
     (case result of
        Some e \<Rightarrow> ([], Some e)
      | None \<Rightarrow> (Acquire r # fst rest @ [Release r], snd rest))"

definition step_or_fail :: "event \<Rightarrow> err option \<Rightarrow> trail \<Rightarrow> trail" where
  "step_or_fail ev result rest =
     (case result of
        Some e \<Rightarrow> ([], Some e)
      | None \<Rightarrow> (ev # fst rest, snd rest))"

definition error_of :: "err + 'a \<Rightarrow> err option" where
  "error_of r = (case r of Inl e \<Rightarrow> Some e | Inr _ \<Rightarrow> None)"

text \<open>What the libraries answer during startup and at the end.\<close>

record answers =
  an_exporter :: "err option"
  an_postgres :: "err option"
  an_store :: "err option"
  an_nats :: "err option"
  an_stream :: "err option"
  an_consumer :: "err option"
  an_detector :: "err option"
  an_pool :: "err option"
  an_serve :: "err option option"
  an_shutdown :: "err option"

text \<open>
  The worker: a failing sweep is logged only; \<open>an_pool\<close> is the result of the pool's run,
  which returns after a signal.
\<close>

definition worker_run :: "environment \<Rightarrow> answers \<Rightarrow> trail" where
  "worker_run e an =
     (case Load e ''portrait-worker'' of
        Inl err \<Rightarrow> ([], Some err)
      | Inr cfg \<Rightarrow>
          acquiring Signals None
         (acquiring Tracing (error_of (SetupTracing (tel_OTLPEndpoint (conf_Telemetry cfg)) (an_exporter an)))
         (acquiring MetricsServer None
         (acquiring Postgres (an_postgres an)
         (step_or_fail CheckStore (an_store an)
         (acquiring Broker (an_nats an)
         (step_or_fail DeclareStream (an_stream an)
         (step_or_fail DeclareConsumer (an_consumer an)
         (step_or_fail LoadDetector (an_detector an)
         (step_or_fail (RequeueSweep Minute 500) None
         (step_or_fail (RunPool (wc_Concurrency (conf_Worker cfg))) (an_pool an)
         ([], None))))))))))))"

text \<open>
  The API: \<open>an_serve\<close> is what \<open>ListenAndServe\<close> reports before a signal (\<open>Some None\<close> when
  the server was closed, \<open>Some (Some e)\<close> when it failed), \<open>None\<close> when the signal comes first.
\<close>

definition serve_until_signal :: "answers \<Rightarrow> trail" where
  "serve_until_signal an =
     (case an_serve an of
        Some (Some err) \<Rightarrow> ([Serve], Some err)
      | Some None \<Rightarrow> ([Serve], None)
      | None \<Rightarrow>
          (case an_shutdown an of
             Some err \<Rightarrow> ([Serve, ShutdownServer, ForceClose], Some err)
           | None \<Rightarrow> ([Serve, ShutdownServer], None)))"

definition api_run :: "environment \<Rightarrow> answers \<Rightarrow> trail" where
  "api_run e an =
     (case Load e ''portrait-api'' of
        Inl err \<Rightarrow> ([], Some err)
      | Inr cfg \<Rightarrow>
          acquiring Signals None
         (acquiring Tracing (error_of (SetupTracing (tel_OTLPEndpoint (conf_Telemetry cfg)) (an_exporter an)))
         (acquiring Postgres (an_postgres an)
         (step_or_fail CheckStore (an_store an)
         (acquiring Broker (an_nats an)
         (step_or_fail DeclareStream (an_stream an)
         (serve_until_signal an)))))))"

text \<open>The exit status of the programs.\<close>

definition exit_code :: "err option \<Rightarrow> int" where
  "exit_code r = (if r = None then 0 else 1)"

definition worker_main :: "environment \<Rightarrow> string list \<Rightarrow> (string \<Rightarrow> err + int) \<Rightarrow> answers \<Rightarrow> event list \<times> int" where
  "worker_main e args get an =
     (if length args > 1 \<and> args ! 1 = ''healthcheck''
      then ([], exit_code (Probe get (getenv e ''WORKER_METRICS_ADDR'') ''/health''))
      else (fst (worker_run e an), exit_code (snd (worker_run e an))))"

definition api_main :: "environment \<Rightarrow> string list \<Rightarrow> (string \<Rightarrow> err + int) \<Rightarrow> answers \<Rightarrow> event list \<times> int" where
  "api_main e args get an =
     (if length args > 1 \<and> args ! 1 = ''healthcheck''
      then ([], exit_code (Probe get (getenv e ''HTTP_ADDR'') ''/ready''))
      else (fst (api_run e an), exit_code (snd (api_run e an))))"

section \<open>Resources are released\<close>

text \<open>
  A trail read against the stack of resources held: a release must be of the one acquired
  last.
\<close>

fun held :: "resource list \<Rightarrow> event list \<Rightarrow> resource list option" where
  "held st [] = Some st"
| "held st (Acquire r # es) = held (r # st) es"
| "held [] (Release r # es) = None"
| "held (q # st) (Release r # es) = (if q = r then held st es else None)"
| "held st (_ # es) = held st es"

lemma held_append: "held st (es @ es') = Option.bind (held st es) (\<lambda>st'. held st' es')"
  by (induction st es rule: held.induct) auto

definition balanced :: "trail \<Rightarrow> bool" where
  "balanced t \<longleftrightarrow> (\<forall>st. held st (fst t) = Some st)"

lemma balanced_fail [simp]: "balanced ([], r)"
  by (simp add: balanced_def)

lemma balanced_acquiring: "balanced rest \<Longrightarrow> balanced (acquiring r result rest)"
  by (simp add: balanced_def acquiring_def held_append split: option.splits)

lemma balanced_step: "balanced rest \<Longrightarrow> (\<And>st es. held st (ev # es) = held st es) \<Longrightarrow> balanced (step_or_fail ev result rest)"
  by (simp add: balanced_def step_or_fail_def split: option.splits)

lemma balanced_serve: "balanced (serve_until_signal an)"
  by (auto simp: serve_until_signal_def balanced_def split: option.splits)

lemma balanced_worker: "balanced (worker_run e an)"
  unfolding worker_run_def
  by (auto intro!: balanced_acquiring balanced_step split: sum.splits)

lemma balanced_api: "balanced (api_run e an)"
  unfolding api_run_def
  by (auto intro!: balanced_acquiring balanced_step balanced_serve split: sum.splits)

text \<open>The pool runs, or the server serves, only with every resource in hand.\<close>

fun holds_at :: "event \<Rightarrow> resource set \<Rightarrow> resource list \<Rightarrow> event list \<Rightarrow> bool" where
  "holds_at ev need st [] \<longleftrightarrow> True"
| "holds_at ev need st (Acquire r # es) \<longleftrightarrow> holds_at ev need (r # st) es"
| "holds_at ev need st (Release r # es) \<longleftrightarrow> holds_at ev need (tl st) es"
| "holds_at ev need st (x # es) \<longleftrightarrow> (if x = ev then need \<subseteq> set st else True) \<and> holds_at ev need st es"

text \<open>
  C38. Whatever fails during startup, both programs release exactly what they acquired, in
  reverse order, and exit with status 0 if and only if nothing failed; the worker's pool
  runs, and the API serves, only while signals, tracing, database and broker are held.
\<close>

theorem startup_balanced:
  "held [] (fst (worker_run e an)) = Some [] \<and> held [] (fst (api_run e an)) = Some []
   \<and> holds_at (RunPool n) {Signals, Tracing, MetricsServer, Postgres, Broker} [] (fst (worker_run e an))
   \<and> holds_at Serve {Signals, Tracing, Postgres, Broker} [] (fst (api_run e an))
   \<and> (snd (worker_main e [''worker''] get an) = 0) = (snd (worker_run e an) = None)"
proof -
  have "holds_at (RunPool n) {Signals, Tracing, MetricsServer, Postgres, Broker} [] (fst (worker_run e an))"
    by (auto simp: worker_run_def acquiring_def step_or_fail_def split: sum.splits option.splits)
  moreover have "holds_at Serve {Signals, Tracing, Postgres, Broker} [] (fst (api_run e an))"
    by (auto simp: api_run_def serve_until_signal_def acquiring_def step_or_fail_def split: sum.splits option.splits)
  ultimately show ?thesis
    using balanced_worker [of e an] balanced_api [of e an]
    by (simp add: balanced_def worker_main_def exit_code_def)
qed

text \<open>
  The worker's probe and its server disagree when \<open>WORKER_METRICS_ADDR\<close> is unset: the
  server listens on the configured default, the probe asks port 8080.
\<close>

lemma worker_probe_default:
  "(case Load Map.empty ''portrait-worker'' of Inr cfg \<Rightarrow> wc_MetricsAddr (conf_Worker cfg) = '':8081'' | Inl _ \<Rightarrow> False)
   \<and> probe_url (getenv Map.empty ''WORKER_METRICS_ADDR'') ''/health'' = ''http://127.0.0.1:8080/health''"
  by (simp add: Load_def Let_def validate_def load_defs envInt_def env_parsed_def env_def probe_url_def getenv_def)

text \<open>A listen address with a host part is glued to the loopback address.\<close>

lemma probe_host_glued: "probe_url ''0.0.0.0:8080'' ''/ready'' = ''http://127.0.0.10.0.0.0:8080/ready''"
  by (simp add: probe_url_def)

end
