(* ===== verification/Logging.thy ===== *)
theory Logging
  imports Api Handler
begin

text \<open>
  \<open>internal/observability/logger.go\<close>: the level, the logger with its attributes, the logger
  kept in a context, and the lines the middleware and the pool write with it. A line is its
  level, its message and its attributes; the JSON handler of \<open>log/slog\<close> is not modelled.
\<close>

section \<open>Levels\<close>

text \<open>The levels of \<open>log/slog\<close> are integers; a handler drops what is below its level.\<close>

fun level_value :: "log_level \<Rightarrow> int" where
  "level_value LevelDebug = - 4"
| "level_value LevelInfo = 0"
| "level_value LevelWarn = 4"
| "level_value LevelError = 8"

lemma level_value_eq [simp]: "level_value a = level_value b \<longleftrightarrow> a = b"
  by (cases a; cases b) simp_all

instantiation log_level :: linorder
begin

definition less_eq_log_level :: "log_level \<Rightarrow> log_level \<Rightarrow> bool" where
  "less_eq_log_level a b \<longleftrightarrow> level_value a \<le> level_value b"

definition less_log_level :: "log_level \<Rightarrow> log_level \<Rightarrow> bool" where
  "less_log_level a b \<longleftrightarrow> level_value a < level_value b"

instance
  by standard (auto simp: less_eq_log_level_def less_log_level_def)

end

lemmas level_order = less_eq_log_level_def less_log_level_def

section \<open>Loggers and lines\<close>

text \<open>An attribute is a name and a text, which for an error holds its fragments.\<close>

type_synonym attrs = "(string \<times> err_text) list"

definition attr :: "string \<Rightarrow> string \<Rightarrow> string \<times> err_text" where
  "attr k v = (k, [Lit v])"

record logger =
  lg_level :: log_level
  lg_attrs :: attrs

record log_line =
  ln_level :: log_level
  ln_message :: string
  ln_attrs :: attrs

definition NewLogger :: "string \<Rightarrow> string \<Rightarrow> logger" where
  "NewLogger level service = \<lparr>lg_level = parseLevel level, lg_attrs = [attr ''service'' service]\<rparr>"

definition logger_With :: "logger \<Rightarrow> attrs \<Rightarrow> logger" where
  "logger_With l as = l\<lparr>lg_attrs := lg_attrs l @ as\<rparr>"

definition log_emit :: "logger \<Rightarrow> log_level \<Rightarrow> string \<Rightarrow> attrs \<Rightarrow> log_line list" where
  "log_emit l level message as =
     (if lg_level l \<le> level then [\<lparr>ln_level = level, ln_message = message, ln_attrs = lg_attrs l @ as\<rparr>] else [])"

section \<open>The context\<close>

text \<open>
  A context is the values attached to it, the last one first. The keys of package \<open>api\<close> and
  of package \<open>observability\<close> have types of their own, so they differ.
\<close>

datatype ctx_key = RequestIDKey | LoggerKey

datatype ctx_value = TextValue string | LoggerValue logger

type_synonym ctx_values = "(ctx_key \<times> ctx_value) list"

definition WithLogger :: "ctx_values \<Rightarrow> logger \<Rightarrow> ctx_values" where
  "WithLogger ctx l = (LoggerKey, LoggerValue l) # ctx"

definition LoggerFrom :: "logger \<Rightarrow> ctx_values \<Rightarrow> logger" where
  "LoggerFrom slog_Default ctx = (case map_of ctx LoggerKey of Some (LoggerValue l) \<Rightarrow> l | _ \<Rightarrow> slog_Default)"

definition with_request_id :: "ctx_values \<Rightarrow> string \<Rightarrow> ctx_values" where
  "with_request_id ctx i = (RequestIDKey, TextValue i) # ctx"

definition request_id_of :: "ctx_values \<Rightarrow> string" where
  "request_id_of ctx = (case map_of ctx RequestIDKey of Some (TextValue v) \<Rightarrow> v | _ \<Rightarrow> '''')"

lemma LoggerFrom_WithLogger [simp]: "LoggerFrom d (WithLogger ctx l) = l"
  by (simp add: LoggerFrom_def WithLogger_def)

lemma context_values_independent [simp]:
  "LoggerFrom d (with_request_id ctx i) = LoggerFrom d ctx"
  "request_id_of (WithLogger ctx l) = request_id_of ctx"
  "request_id_of (with_request_id ctx i) = i"
  by (simp_all add: LoggerFrom_def WithLogger_def with_request_id_def request_id_of_def)

section \<open>The line of a request\<close>

text \<open>The context \<open>withRequestID\<close> gives the request, and what \<open>withLogging\<close> writes after it.\<close>

definition request_context :: "logger \<Rightarrow> ctx_values \<Rightarrow> string \<Rightarrow> ctx_values" where
  "request_context srv_log ctx i =
     WithLogger (with_request_id ctx i) (logger_With srv_log [attr ''request_id'' i])"

definition request_line :: "logger \<Rightarrow> ctx_values \<Rightarrow> http_request \<Rightarrow> http_response \<Rightarrow> duration \<Rightarrow> log_line list" where
  "request_line slog_Default ctx r resp took =
     log_emit (LoggerFrom slog_Default ctx) LevelInfo ''http request''
       [attr ''method'' (rq_Method r), attr ''path'' (rq_Path r), attr ''status'' (show_int (recorded_status resp)),
        attr ''duration'' (show_int took)]"

text \<open>
  A request is logged at level info or below, once, under the id its response carries, and
  the line holds nothing of the body: neither an upload URL nor a token.
\<close>

lemma request_line_of_context:
  "request_line d (request_context (NewLogger level service) ctx i) r resp took =
     (if LevelInfo < parseLevel level then []
      else [\<lparr>ln_level = LevelInfo, ln_message = ''http request'',
        ln_attrs = [attr ''service'' service, attr ''request_id'' i, attr ''method'' (rq_Method r), attr ''path'' (rq_Path r),
          attr ''status'' (show_int (recorded_status resp)), attr ''duration'' (show_int took)]\<rparr>])"
  by (simp add: request_line_def request_context_def log_emit_def logger_With_def NewLogger_def not_less)

lemma request_line_body_free:
  "request_line d ctx r (resp\<lparr>rs_Body := b\<rparr>) took = request_line d ctx r resp took"
  by (simp add: request_line_def)

section \<open>The logger of a delivery\<close>

text \<open>\<open>process\<close> names the job, the correlation id and the delivery; the handler finds it in its context.\<close>

definition delivery_logger :: "logger \<Rightarrow> job_message \<Rightarrow> int \<Rightarrow> logger" where
  "delivery_logger l msg deliveries = logger_With l
     [attr ''job_id'' (msg_JobID msg), attr ''correlation_id'' (msg_CorrelationID msg), attr ''delivery'' (show_int deliveries)]"

text \<open>A settlement the broker refuses is logged and otherwise ignored.\<close>

definition ackOrLog :: "logger \<Rightarrow> err option \<Rightarrow> log_line list" where
  "ackOrLog l result =
     (case result of
        None \<Rightarrow> []
      | Some e \<Rightarrow> log_emit l LevelError ''failed to settle message'' [(''error'', Error e)])"

text \<open>
  Following one job through both programs: the id under which the API logged the request is
  the correlation id under which the worker logs each delivery of the job.
\<close>

lemma correlation_logged:
  "map_of (lg_attrs (delivery_logger (NewLogger level service) (message_for lib j) n)) ''correlation_id''
     = Some [Lit (job_CorrelationID j)]
   \<and> map_of (lg_attrs (delivery_logger (NewLogger level service) (message_for lib j) n)) ''job_id''
     = Some [Lit (uuid_String lib (job_ID j))]"
  by (simp add: delivery_logger_def logger_With_def NewLogger_def message_for_def attr_def)

text \<open>Which lines a level lets through; an unknown level counts as info.\<close>

lemma levels_filter:
  "log_emit (NewLogger level service) LevelError m as \<noteq> []"
  "log_emit (NewLogger level service) LevelDebug m as \<noteq> [] \<longleftrightarrow> ToLower level = ''debug''"
  "log_emit (NewLogger level service) LevelInfo m as = [] \<longleftrightarrow> ToLower level \<in> {''warn'', ''warning'', ''error''}"
  by (auto simp: log_emit_def NewLogger_def parseLevel_def level_order Let_def)

end
