(* ===== verification/Wiring.thy ===== *)
theory Wiring
  imports Startup Logging Requeue Pool
begin

text \<open>
  How the programs put the components together: the constructors of \<open>internal/worker\<close>, the
  parts that \<open>cmd/api/main.go\<close> and \<open>cmd/worker/main.go\<close> build from the configuration, and
  the worker's own HTTP handler. The theorems of the other theories speak of a service, a
  pool and a handler with certain values; here these are the ones the programs run.
\<close>

section \<open>Constructors\<close>

text \<open>A logger that is nil is replaced by \<open>slog.Default()\<close>.\<close>

definition or_default :: "logger \<Rightarrow> logger option \<Rightarrow> logger" where
  "or_default slog_Default l = (case l of None \<Rightarrow> slog_Default | Some l \<Rightarrow> l)"

record requeuer =
  rqr_lib :: library
  rqr_log :: logger

definition NewRequeuer :: "logger \<Rightarrow> library \<Rightarrow> logger option \<Rightarrow> requeuer" where
  "NewRequeuer slog_Default lib l = \<lparr>rqr_lib = lib, rqr_log = or_default slog_Default l\<rparr>"

record 'img job_handler =
  jh_env :: "'img handler_env"
  jh_log :: logger
  jh_metrics :: bool
  jh_cancelPollInterval :: duration

definition NewJobHandler :: "logger \<Rightarrow> 'img handler_env \<Rightarrow> bool \<Rightarrow> logger option \<Rightarrow> 'img job_handler" where
  "NewJobHandler slog_Default he with_metrics l = \<lparr>jh_env = he, jh_log = or_default slog_Default l,
     jh_metrics = with_metrics, jh_cancelPollInterval = 3 * Second\<rparr>"

section \<open>The API program\<close>

definition api_service_config :: "config \<Rightarrow> service_config" where
  "api_service_config cfg = \<lparr>cfg_MaxAttempts = wc_MaxAttempts (conf_Worker cfg),
     cfg_PresignExpiry = s3_PresignExpiry (conf_Storage cfg), cfg_MaxUploadBytes = s3_MaxUploadBytes (conf_Storage cfg)\<rparr>"

definition api_service :: "library \<Rightarrow> config \<Rightarrow> service" where
  "api_service lib cfg = NewService lib (api_service_config cfg)"

record http_server =
  hs_Addr :: string
  hs_Handler :: http_handler
  hs_ReadTimeout :: duration
  hs_WriteTimeout :: duration

definition api_http_server :: "library \<Rightarrow> json_decoder \<Rightarrow> config \<Rightarrow> http_server" where
  "api_http_server lib dec cfg = \<lparr>hs_Addr = http_Addr (conf_HTTP cfg),
     hs_Handler = serve_http \<lparr>srv_jobs = api_service lib cfg, srv_json = dec, srv_metrics = True\<rparr>,
     hs_ReadTimeout = http_ReadTimeout (conf_HTTP cfg), hs_WriteTimeout = http_WriteTimeout (conf_HTTP cfg)\<rparr>"

section \<open>The worker program\<close>

definition worker_pool :: "config \<Rightarrow> pool" where
  "worker_pool cfg = NewPool \<lparr>opt_Concurrency = wc_Concurrency (conf_Worker cfg),
     opt_JobTimeout = wc_JobTimeout (conf_Worker cfg), opt_ShutdownTimeout = wc_ShutdownTimeout (conf_Worker cfg)\<rparr>"

text \<open>The worker's HTTP handler: the mux of the library with two routes.\<close>

definition worker_routes :: "(string \<times> string \<times> http_response) list" where
  "worker_routes =
     [(''GET'', ''/metrics'', \<lparr>rs_Status = 200, rs_Body = MetricsBody, rs_Header = []\<rparr>),
      (''GET'', ''/health'', \<lparr>rs_Status = 200, rs_Body = StatusBody ''ok'', rs_Header = []\<rparr>)]"

definition metricsMux :: "http_request \<Rightarrow> http_response" where
  "metricsMux r =
     (let found = filter (\<lambda>(m, p, resp). match_path p (rq_Path r) \<noteq> None) worker_routes in
      case find (\<lambda>(m, p, resp). match_method m (rq_Method r)) found of
        Some (m, p, resp) \<Rightarrow> resp
      | None \<Rightarrow> if found = [] then plain_error 404 ''404 page not found''
               else plain_error 405 ''Method Not Allowed'')"

section \<open>What a loaded configuration gives\<close>

text \<open>
  The hypotheses under which the service and the pool are shown correct hold of the programs
  as they are configured, but for the width of the attempt budget.
\<close>

lemma api_service_budget:
  assumes "Load e serviceName = Inr cfg"
  shows "svc_maxAttempts (api_service lib cfg) = wc_MaxAttempts (conf_Worker cfg)"
    and "1 \<le> svc_maxAttempts (api_service lib cfg)" and "svc_lib (api_service lib cfg) = lib"
  using Load_config_ok [OF assms]
  by (simp_all add: api_service_def api_service_config_def NewService_def config_ok_def)

lemma worker_pool_size:
  assumes "Load e serviceName = Inr cfg"
  shows "length (ps_workers (pool_started (worker_pool cfg))) = nat (wc_Concurrency (conf_Worker cfg))"
    and "ps_workers (pool_started (worker_pool cfg)) \<noteq> []"
  using Load_config_ok [OF assms]
  by (auto simp: worker_pool_def NewPool_def pool_started_def config_ok_def)

text \<open>
  An attempt budget that the configuration accepts need not fit the \<open>INTEGER\<close> column: then
  no job can be created.
\<close>

lemma accepted_budget_unstorable:
  "\<exists>cfg. Load [''WORKER_MAX_ATTEMPTS'' \<mapsto> ''3000000000''] serviceName = Inr cfg
     \<and> (\<forall>lib now p d. par_MaxAttempts p = svc_maxAttempts (api_service lib cfg)
          \<longrightarrow> sql_insert_job now p d = (Inl integer_out_of_range, d))"
proof -
  obtain cfg where cfg: "Load [''WORKER_MAX_ATTEMPTS'' \<mapsto> ''3000000000''] serviceName = Inr cfg"
      "wc_MaxAttempts (conf_Worker cfg) = 3000000000"
    by (simp add: Load_def validate_def load_defs Let_def envInt_def env_parsed_def Atoi_examples)
  have "svc_maxAttempts (api_service lib cfg) = 3000000000" for lib
    using api_service_budget(1) [OF cfg(1)] cfg(2) by simp
  then show ?thesis using cfg(1) by (intro exI [of _ cfg]) (simp add: sql_insert_job_def fits_int32_def)
qed

text \<open>The health check of the worker's image is answered by its own mux.\<close>

lemma worker_health_answers:
  "rs_Status (metricsMux \<lparr>rq_Method = ''GET'', rq_Path = ''/health'', rq_Header = h, rq_Body = b, rq_RequestID = i,
     rq_PathID = q\<rparr>) = 200"
  by (simp add: metricsMux_def worker_routes_def match_path_def match_method_def)

end
