(* ===== verification/Spec2Isabelle.thy ===== *)
theory Spec2Isabelle
  imports Guarantees Idempotency ClientView WorkerProcess Pixels Watching Columns Wiring
begin

text \<open>
  Portrait Engine: an asynchronous photo-processing service in Go. An API process takes
  uploads and job requests, keeps the jobs in PostgreSQL and publishes a message per job to
  NATS JetStream; worker processes receive the messages, claim the jobs, run a versioned
  pipeline of image processors, store the result in an S3 object store and record the
  outcome. Delivery is at least once, every service can fail at any call, any process can
  die between two calls, and a client can cancel a job at any time. This library models
  the Go code under \<^verbatim>\<open>src/internal\<close> and \<^verbatim>\<open>src/cmd\<close> with the schema under
  \<^verbatim>\<open>src/migrations\<close>, and proves what keeps the jobs consistent under all that.

  \<^bold>\<open>How effects are modelled.\<close> A Go function that calls the outside world is a program
  (\<open>Effects\<close>): a tree whose nodes are single calls (an SQL statement or transaction, an
  object store or queue operation, the clock, \<open>ctx.Err()\<close>, a random number, a metric). One
  call is the unit of interleaving. A reply of the outside world decides whether the call
  succeeds, fails without effect (\<open>Lost\<close>), or takes effect and still reports an error
  (\<open>Unacked\<close>). A Go result with an error is a sum, \<open>Inl\<close> the error; a Go error is a tree
  on which \<open>errors.Is\<close> and \<open>errors.As\<close> are functions (\<open>Errors\<close>); a panic is a value.
  Integers keep the width of the code where it matters (\<open>int32\<close> and \<open>int64\<close> wrap-around,
  SQL's INTEGER range, 32-bit pixel arithmetic); strings are byte strings.

  \<^bold>\<open>Theories and the code they model.\<close>

  \<^item> \<open>Prelude\<close>: basic types, collections of rules, tables as lists of rows, and the
    interfaces \<open>codec\<close>, \<open>guarded_store\<close> and \<open>draining\<close>.
  \<^item> \<open>Errors\<close>, \<open>Lifecycle\<close>: \<^verbatim>\<open>internal/domain\<close> (error classification; statuses,
    records, the transition table).
  \<^item> \<open>Database\<close>: the schema, and one function per SQL statement or transaction of
    \<^verbatim>\<open>internal/repository/jobs.go\<close>; \<open>Repository\<close>: its methods as programs; \<open>Columns\<close>: the
    column list and \<open>scanJob\<close>, which is why the other theories may take rows as jobs.
  \<^item> \<open>GoStrings\<close>, \<open>Base64\<close>, \<open>Floats\<close>, \<open>Sha256\<close>: what the code uses of Go's standard
    library; \<open>Keys\<close>: \<^verbatim>\<open>internal/storage/keys.go\<close> and \<^verbatim>\<open>validate.go\<close>;
    \<open>ObjectStore\<close>: \<^verbatim>\<open>minio.go\<close>.
  \<^item> \<open>Messaging\<close>, \<open>Broker\<close>: \<^verbatim>\<open>internal/messaging\<close> (the message and its publisher; the
    JetStream client, stream and consumer declarations, the pull consumer, the adapter of a
    delivery) and the header carrier of \<^verbatim>\<open>observability/tracing.go\<close>.
  \<^item> \<open>Service\<close>: \<^verbatim>\<open>internal/jobs/service.go\<close>.
  \<^item> \<open>Image\<close>, \<open>Pipeline\<close>: \<^verbatim>\<open>internal/image\<close> and \<^verbatim>\<open>internal/pipeline\<close>.
  \<^item> \<open>Retry\<close>, \<open>Handler\<close>, \<open>Watching\<close>, \<open>Requeue\<close>, \<open>Pool\<close>: \<^verbatim>\<open>internal/worker\<close>: backoff; one
    message from the claim to the settled delivery; the cancellation watcher, its ticker and
    its stop function as a step relation; the sweep; the dispatcher, the workers and \<open>Run\<close>
    as a step relation.
  \<^item> \<open>Api\<close>: \<^verbatim>\<open>internal/api\<close>: routes, middleware, handlers, error responses.
  \<^item> \<open>Config\<close>: \<^verbatim>\<open>internal/config\<close> and the log level; \<open>Metrics\<close>:
    \<^verbatim>\<open>observability/metrics.go\<close>; \<open>Startup\<close>: both \<^verbatim>\<open>main.go\<close> files with the connection
    code, \<open>SetupTracing\<close> and \<open>Probe\<close>; \<open>Logging\<close>: \<^verbatim>\<open>observability/logger.go\<close> and the lines the
    middleware and the pool write; \<open>Wiring\<close>: the constructors, and what both programs build
    from the configuration.
  \<^item> \<open>Concurrency\<close>: the running system, any number of requests, deliveries, watcher ticks
    and sweeps interleaved call by call; \<open>Protocol\<close>: the abstract lifecycle protocol
    (leases on jobs); \<open>Safety\<close>, \<open>Integrity\<close>, \<open>Knowledge\<close>: the proof interfaces.
  \<^item> \<open>WorkerProcess\<close>: a whole worker process in the running system, the pool of \<open>Pool\<close> with
    workers that run the handler call by call.
\<close>

text \<open>
  \<^bold>\<open>What is shown.\<close>

  \<^item> Under all interleavings, faults and crashes: the system refines the lifecycle protocol,
    attempts stay within the budget and are numbered without gaps, one worker holds a job
    at a time, histories are legal, the schema's constraints hold (\<open>Guarantees\<close>), keyed
    creation is idempotent (\<open>Idempotency\<close>). The proofs go through four interfaces: a table
    invariant and a table order (\<open>Integrity\<close>), the guarded store (\<open>Prelude\<close>) and promises of
    persistent facts (\<open>Knowledge\<close>), all interpreted on the model's own tables.
  \<^item> No COMPLETED job without its output, in every reachable state (\<open>Outputs\<close>): what a worker
    knows of the object store and the artifacts when it completes a job, and that no other
    call can break it.
  \<^item> Liveness (\<open>Liveness\<close>): a QUEUED job whose message is redelivered whenever it was naked
    ends COMPLETED or FAILED after at most as many deliveries as it has attempts left. A
    complete run of a program is a run of the system, so the outcome of one delivery is
    iterated along the redeliveries, with the rest of the system running in between.
    From there, the same for the message that a creation request publishes and for the one
    that a sweep sends again for a job whose message was lost. In a healthy deployment the
    job is COMPLETED (\<open>Completion\<close>).
  \<^item> One operation at a time, every branch, when the services answer (\<open>Outcomes\<close>,
    \<open>Delivering\<close>, \<open>Creation\<close>): the guarded transition, claim, cancel, the ends of an
    attempt, a whole delivery from message to settlement, redelivery, creation, replay,
    sweep. \<open>Execution\<close> gives the rules: \<open>exec F p w r w'\<close> is a complete run whose replies
    satisfy \<open>F\<close>, \<open>takes K D n p\<close> bounds the calls of a program.
  \<^item> The HTTP endpoints of a job, \<open>POST /v1/jobs\<close> (\<open>Endpoints\<close>) and \<open>POST /v1/uploads\<close>
    (\<open>Uploads\<close>) through all layers, from the request to status, body and change of the tables;
    and across the programs, that a client finds the output of a COMPLETED job (\<open>ClientView\<close>).
  \<^item> Whatever the services reply: every delivery is settled (\<open>Calls\<close>) and every request is
    answered with a documented response (\<open>ApiSpec\<close>).
  \<^item> The pool settles each delivery once and always drains (\<open>Pool\<close>), and the watcher cancels
    only what was cancelled and always ends (\<open>Watching\<close>). A whole worker process implements
    the pool and the system, and drains call by call (\<open>WorkerProcess\<close>). The three endings go
    through the interface \<open>draining\<close>. Both programs release
    what they acquired on every path (\<open>Startup\<close>); configuration is validated (\<open>Config\<close>);
    metrics are well labelled (\<open>Metrics\<close>); image code and pipeline (\<open>Pixels\<close>); keys, tokens,
    hashes, trace headers (\<open>Keys\<close>, \<open>Creation\<close>, \<open>Broker\<close>); backoff (\<open>Retry\<close>).

  \<^bold>\<open>Bounds and fuel.\<close> The model's loops recurse over their data. \<open>cancel_loop\<close> carries the
  number of tries left, the code's constant \<open>maxTries\<close>. The parser of durations consumes
  its text, so its fuel, the length of the text, is never used up. A delivery takes at
  most 64 calls with the shipped pipeline of five stages (\<open>(6 + m) n + 29\<close> for \<open>n\<close>
  stages of at most \<open>m\<close> calls), an HTTP request at most 16; both bounds are proved for
  every reply of the outside world. The watcher, told to end, makes at most four moves if no
  further tick comes. A worker process, told to stop, makes at most 194 moves for each worker
  and 455 more: 65 for each move the pool itself can still make (two for a worker, seven for
  the dispatcher and \<open>Run\<close>) and 64 for the calls of the delivery a worker holds.

  \<^bold>\<open>Parameters.\<close> Code that is not in the repository is an argument: the text form of UUIDs
  and the JSON encoding of messages and bodies, the imaging library and the Pigo
  classifier (record \<open>imaging\<close>), and what NATS, MinIO, pgx, Prometheus and OpenTelemetry
  answer. A text that PostgreSQL refuses to store makes the call that carries it a failing
  call. \<open>Scenario\<close> gives small concrete libraries on which the properties are exercised.

  \<^bold>\<open>Not modelled.\<close> Spans, and the log lines but those of a request and of a failed
  settlement; the text of JSON and the JSON handler of \<open>log/slog\<close>; the pages of the Prometheus
  handler; one-line wrappers of library calls (\<open>Tracer\<close>, \<open>SignalContext\<close>, \<open>Client.Close\<close>);
  timers: a deadline is a context that
  may end at any call, so that nothing depends on how long a call takes. A context that
  ends inside a library call is a failing call. Exactly-once claims about the queue itself
  (deduplication window, redelivery timing) belong to NATS: here any message may arrive at
  any time, any number of times, or never.

  \<^bold>\<open>What modelling showed.\<close> Besides the properties, some lemmas record behaviour that a
  reader might not expect: a job whose worker died after the claim stays PROCESSING
  (\<open>Delivering.orphaned_job_stays_processing\<close>), a late cancel leaves a SUCCEEDED attempt
  (\<open>Delivering.late_cancel_keeps_success\<close>), huge dimensions pass the pixel guard by
  wrap-around (\<open>Pixels.pixel_guard_wraps\<close>), the pool size is narrowed to 32 bits and the
  delivery cap is not compared with the attempt budget (\<open>Config\<close>), an attempt budget can be
  accepted that the schema cannot store (\<open>Wiring.accepted_budget_unstorable\<close>), the worker's health
  check probes another default port than the one it serves (\<open>Startup\<close>), and the shutdown
  timeout is armed only after the dispatcher has handed over its last delivery (\<open>Pool\<close>).
\<close>

end
